(* ===== verification/Zap_Prelude.thy ===== *)
theory Zap_Prelude
  imports Main "HOL-Library.Word"
begin

text \<open>
  The prelude of the development: the names of Go's machine types, the parts of Go's standard
  library the sources call (decimal printing of \<^verbatim>\<open>strconv\<close>, byte search of \<^verbatim>\<open>bytes\<close>,
  the ASCII part of \<^verbatim>\<open>bytes.ToLower\<close>), the contract of the third-party package
  \<^verbatim>\<open>go.uber.org/multierr\<close>, and the collections of simplification rules that the component
  theories extend.

  A Go \<^verbatim>\<open>string\<close> and a \<^verbatim>\<open>[]byte\<close> are both sequences of bytes; both are \<open>bytes\<close>, a list
  of 8-bit characters.  A Go \<^verbatim>\<open>error\<close> is \<open>'e option\<close>, \<open>None\<close> being \<^verbatim>\<open>nil\<close>.
\<close>

section \<open>Machine types and bytes\<close>

type_synonym bytes = string
type_synonym int8 = "8 word"
type_synonym int32 = "32 word"
type_synonym int64 = "64 word"
type_synonym uint32 = "32 word"
type_synonym uint64 = "64 word"

abbreviation bval :: "char \<Rightarrow> nat" where
  "bval c \<equiv> of_char c"

abbreviation newline :: char where
  "newline \<equiv> CHR 0x0A"

named_theorems buffer_simps "what each buffer operation does to the bytes of a buffer"
named_theorems level_simps "the numeric values of the log levels"
named_theorems sync_simps "unfolding rules of the write syncers"

section \<open>Decimal text\<close>

text \<open>\<^verbatim>\<open>strconv.AppendInt(bs, i, 10)\<close> and \<^verbatim>\<open>strconv.AppendUint(bs, i, 10)\<close> append the
  decimal digits of the integer, with a leading minus sign for a negative one.\<close>

definition digit :: "nat \<Rightarrow> char" where
  "digit d = char_of (48 + d)"

fun digits :: "nat \<Rightarrow> bytes" where
  "digits n = (if n < 10 then [digit n] else digits (n div 10) @ [digit (n mod 10)])"

declare digits.simps [simp del]

definition itoa :: "int \<Rightarrow> bytes" where
  "itoa i = (if i < 0 then CHR ''-'' # digits (nat (- i)) else digits (nat i))"

text \<open>The reader of decimal text that the printing functions are checked against.\<close>

definition digit_val :: "char \<Rightarrow> nat" where
  "digit_val c = bval c - 48"

definition dec_val :: "bytes \<Rightarrow> nat" where
  "dec_val ds = foldl (\<lambda>v c. 10 * v + digit_val c) 0 ds"

definition atoi :: "bytes \<Rightarrow> int" where
  "atoi s = (case s of [] \<Rightarrow> 0
     | c # cs \<Rightarrow> if c = CHR ''-'' then - int (dec_val cs) else int (dec_val s))"

definition is_digit :: "char \<Rightarrow> bool" where
  "is_digit c \<longleftrightarrow> 48 \<le> bval c \<and> bval c \<le> 57"

lemma bval_digit: "d < 10 \<Longrightarrow> bval (digit d) = 48 + d"
  by (simp add: digit_def)

lemma digit_val_digit [simp]: "d < 10 \<Longrightarrow> digit_val (digit d) = d"
  by (simp add: digit_val_def bval_digit)

lemma is_digit_digit [simp]: "d < 10 \<Longrightarrow> is_digit (digit d)"
  by (simp add: is_digit_def bval_digit)

lemma dec_val_snoc [simp]: "dec_val (ds @ [c]) = 10 * dec_val ds + digit_val c"
  by (simp add: dec_val_def)

lemma dec_val_Nil [simp]: "dec_val [] = 0"
  by (simp add: dec_val_def)

lemma dec_val_digits [simp]: "dec_val (digits n) = n"
proof (induction n rule: digits.induct)
  case (1 n)
  show ?case
  proof (cases "n < 10")
    case True
    then show ?thesis
      by (subst digits.simps) (simp add: dec_val_def)
  next
    case False
    with "1.IH" show ?thesis
      by (subst digits.simps) simp
  qed
qed

lemma digits_nonempty [simp]: "digits n \<noteq> []"
  by (subst digits.simps) simp

lemma digits_are_digits: "list_all is_digit (digits n)"
proof (induction n rule: digits.induct)
  case (1 n)
  show ?case
  proof (cases "n < 10")
    case True
    then show ?thesis by (subst digits.simps) simp
  next
    case False
    with "1.IH" show ?thesis by (subst digits.simps) simp
  qed
qed

lemma is_digit_not_minus: "is_digit c \<Longrightarrow> c \<noteq> CHR ''-''"
  by (auto simp: is_digit_def)

lemma atoi_itoa [simp]: "atoi (itoa i) = i"
proof (cases "i < 0")
  case True
  then show ?thesis
    by (simp add: itoa_def atoi_def)
next
  case False
  obtain c cs where cs: "digits (nat i) = c # cs"
    using digits_nonempty by (cases "digits (nat i)") auto
  then have "c \<noteq> CHR ''-''"
    using digits_are_digits [of "nat i"] is_digit_not_minus by simp
  moreover have "dec_val (c # cs) = nat i"
    using dec_val_digits [of "nat i"] cs by simp
  ultimately show ?thesis
    using False cs by (simp add: itoa_def atoi_def)
qed

lemma itoa_nonempty [simp]: "itoa i \<noteq> []"
  by (simp add: itoa_def)

lemma itoa_inject: "itoa i = itoa j \<longleftrightarrow> i = j"
  by (metis atoi_itoa)

lemma last_digits_is_digit: "is_digit (last (digits n))"
  using digits_are_digits [of n] by (simp add: list_all_iff)

lemma last_itoa_is_digit: "is_digit (last (itoa i))"
  by (simp add: itoa_def last_digits_is_digit)

section \<open>Lists\<close>

lemma concat_map_concat: "concat (map concat xss) = concat (concat xss)"
  by (induction xss) simp_all

section \<open>Searching and folding bytes\<close>

text \<open>\<^verbatim>\<open>bytes.IndexByte\<close> and \<^verbatim>\<open>strings.LastIndexByte\<close>; \<open>None\<close> is Go's \<open>-1\<close>.\<close>

fun IndexByte :: "bytes \<Rightarrow> char \<Rightarrow> nat option" where
  "IndexByte [] c = None"
| "IndexByte (b # bs) c = (if b = c then Some 0 else map_option Suc (IndexByte bs c))"

fun LastIndexByte :: "bytes \<Rightarrow> char \<Rightarrow> nat option" where
  "LastIndexByte [] c = None"
| "LastIndexByte (b # bs) c =
     (case LastIndexByte bs c of
        Some i \<Rightarrow> Some (Suc i)
      | None \<Rightarrow> if b = c then Some 0 else None)"

lemma IndexByte_None: "IndexByte bs c = None \<longleftrightarrow> c \<notin> set bs"
  by (induction bs) auto

lemma IndexByte_Some:
  "IndexByte bs c = Some i \<Longrightarrow> i < length bs \<and> bs ! i = c \<and> c \<notin> set (take i bs)"
proof (induction bs arbitrary: i)
  case (Cons b bs)
  then show ?case
    by (cases i) (auto split: if_splits)
qed simp

lemma LastIndexByte_None: "LastIndexByte bs c = None \<longleftrightarrow> c \<notin> set bs"
  by (induction bs) (auto split: option.splits)

lemma LastIndexByte_Some:
  "LastIndexByte bs c = Some i \<Longrightarrow> i < length bs \<and> bs ! i = c \<and> c \<notin> set (drop (Suc i) bs)"
proof (induction bs arbitrary: i)
  case (Cons b bs)
  then show ?case
    by (auto split: option.splits if_splits simp: LastIndexByte_None)
qed simp

lemma LastIndexByte_append: "c \<notin> set ys \<Longrightarrow> LastIndexByte (xs @ c # ys) c = Some (length xs)"
  by (induction xs) (simp_all add: LastIndexByte_None [THEN iffD2])

text \<open>\<^verbatim>\<open>bytes.ToLower\<close>: text that is all ASCII is folded byte by byte; text with a byte of
  128 or more goes through the Unicode tables, which are the parameter \<open>uni\<close>.\<close>

definition ascii :: "char \<Rightarrow> bool" where
  "ascii c \<longleftrightarrow> bval c < 128"

definition lower_byte :: "char \<Rightarrow> char" where
  "lower_byte c = (if 65 \<le> bval c \<and> bval c \<le> 90 then char_of (bval c + 32) else c)"

definition ToLower :: "(bytes \<Rightarrow> bytes) \<Rightarrow> bytes \<Rightarrow> bytes" where
  "ToLower uni s = (if list_all ascii s then map lower_byte s else uni s)"

section \<open>The contract of multierr\<close>

text \<open>\<^verbatim>\<open>multierr.Append(left, right)\<close> is a parameter \<open>app\<close> of every definition that calls it.
  Its documentation: if either argument is nil the other one is returned, and otherwise the two
  are combined into an error, which is not nil.\<close>

definition multierr_ok :: "('e option \<Rightarrow> 'e option \<Rightarrow> 'e option) \<Rightarrow> bool" where
  "multierr_ok app \<longleftrightarrow> (\<forall>e. app None e = e) \<and> (\<forall>e. app e None = e)
     \<and> (\<forall>a b. app (Some a) (Some b) \<noteq> None)"

lemma multierr_left: "multierr_ok app \<Longrightarrow> app None e = e"
  by (simp add: multierr_ok_def)

lemma multierr_right: "multierr_ok app \<Longrightarrow> app e None = e"
  by (simp add: multierr_ok_def)

lemma multierr_None: "multierr_ok app \<Longrightarrow> app a b = None \<longleftrightarrow> a = None \<and> b = None"
  by (cases a; cases b) (auto simp: multierr_ok_def)

text \<open>A concrete combination that meets the contract, used where a theorem is applied to a
  concrete input: it keeps the messages of both errors.\<close>

fun join_errors :: "bytes option \<Rightarrow> bytes option \<Rightarrow> bytes option" where
  "join_errors None e = e"
| "join_errors e None = e"
| "join_errors (Some a) (Some b) = Some (a @ ''; '' @ b)"

lemma multierr_ok_join_errors [simp]: "multierr_ok join_errors"
proof -
  have "join_errors e None = e" for e
    by (cases e) simp_all
  then show ?thesis
    by (simp add: multierr_ok_def)
qed

end
