(* ===== verification/Write_Syncer.thy ===== *)
theory Write_Syncer
  imports Zap_Prelude
begin

text \<open>
  \<^verbatim>\<open>src/zapcore/write_syncer.go\<close>, \<^verbatim>\<open>CombineWriteSyncers\<close> of \<^verbatim>\<open>src/writer.go\<close> and the test
  writers of \<^verbatim>\<open>src/internal/ztest/writer.go\<close>.

  The outside world that writers act on is a type variable \<open>'s\<close>.  An \<^verbatim>\<open>io.Writer\<close> or
  \<^verbatim>\<open>WriteSyncer\<close> that is not declared in this package is given by its methods as functions on
  that world; the wrappers of the package are the other constructors, so that the type
  assertions in \<^verbatim>\<open>AddSync\<close> and \<^verbatim>\<open>Lock\<close> are case distinctions.
\<close>

section \<open>Writers and write syncers\<close>

type_synonym ('s, 'e) write_fn = "bytes \<Rightarrow> 's \<Rightarrow> (int \<times> 'e option) \<times> 's"
type_synonym ('s, 'e) sync_fn = "'s \<Rightarrow> 'e option \<times> 's"

datatype ('s, 'e) WriteSyncer =
    ExtSyncer "('s, 'e) write_fn" "('s, 'e) sync_fn"
  | lockedWriteSyncer "('s, 'e) WriteSyncer"
  | writerWrapper "('s, 'e) write_fn"
  | multiWriteSyncer "('s, 'e) WriteSyncer list"

text \<open>An \<^verbatim>\<open>io.Writer\<close>: either its concrete type has a \<^verbatim>\<open>Sync\<close> method or not.\<close>

datatype ('s, 'e) Writer =
    PlainWriter "('s, 'e) write_fn"
  | SyncWriter "('s, 'e) WriteSyncer"

fun AddSync :: "('s, 'e) Writer \<Rightarrow> ('s, 'e) WriteSyncer" where
  "AddSync (SyncWriter w) = w"
| "AddSync (PlainWriter w) = writerWrapper w"

fun Lock :: "('s, 'e) WriteSyncer \<Rightarrow> ('s, 'e) WriteSyncer" where
  "Lock (lockedWriteSyncer ws) = lockedWriteSyncer ws"
| "Lock ws = lockedWriteSyncer ws"

definition NewMultiWriteSyncer :: "('s, 'e) WriteSyncer list \<Rightarrow> ('s, 'e) WriteSyncer" where
  "NewMultiWriteSyncer ws = (if length ws = 1 then ws ! 0 else multiWriteSyncer ws)"

text \<open>\<^verbatim>\<open>io.Discard\<close> accepts everything.\<close>

definition io_Discard :: "('s, 'e) Writer" where
  "io_Discard = PlainWriter (\<lambda>p s. ((int (length p), None), s))"

definition CombineWriteSyncers :: "('s, 'e) WriteSyncer list \<Rightarrow> ('s, 'e) WriteSyncer" where
  "CombineWriteSyncers writers =
     (if length writers = 0 then AddSync io_Discard else Lock (NewMultiWriteSyncer writers))"

text \<open>The update of \<^verbatim>\<open>nWritten\<close> in the loop of \<^verbatim>\<open>multiWriteSyncer.Write\<close>.\<close>

definition multi_count :: "int \<Rightarrow> int \<Rightarrow> int" where
  "multi_count nWritten n =
     (if nWritten = 0 \<and> n \<noteq> 0 then n else if n < nWritten then n else nWritten)"

text \<open>\<^verbatim>\<open>Write\<close> of each kind of write syncer; the loop over the slice is \<open>multi_Write\<close>.  One
  caller at a time is modelled here, so taking and releasing the mutex has no effect; several
  callers are below.\<close>

fun WS_Write :: "('e option \<Rightarrow> 'e option \<Rightarrow> 'e option) \<Rightarrow> ('s, 'e) WriteSyncer \<Rightarrow> ('s, 'e) write_fn"
  and multi_Write :: "('e option \<Rightarrow> 'e option \<Rightarrow> 'e option) \<Rightarrow> ('s, 'e) WriteSyncer list
        \<Rightarrow> int \<Rightarrow> 'e option \<Rightarrow> ('s, 'e) write_fn" where
  "WS_Write app (ExtSyncer w sy) p s = w p s"
| "WS_Write app (lockedWriteSyncer ws) p s = WS_Write app ws p s"
| "WS_Write app (writerWrapper w) p s = w p s"
| "WS_Write app (multiWriteSyncer ws) p s = multi_Write app ws 0 None p s"
| "multi_Write app [] nWritten writeErr p s = ((nWritten, writeErr), s)"
| "multi_Write app (w # ws) nWritten writeErr p s =
     (case WS_Write app w p s of ((n, err), s1) \<Rightarrow>
        multi_Write app ws (multi_count nWritten n) (app writeErr err) p s1)"

fun WS_Sync :: "('e option \<Rightarrow> 'e option \<Rightarrow> 'e option) \<Rightarrow> ('s, 'e) WriteSyncer \<Rightarrow> ('s, 'e) sync_fn"
  and multi_Sync :: "('e option \<Rightarrow> 'e option \<Rightarrow> 'e option) \<Rightarrow> ('s, 'e) WriteSyncer list
        \<Rightarrow> 'e option \<Rightarrow> ('s, 'e) sync_fn" where
  "WS_Sync app (ExtSyncer w sy) s = sy s"
| "WS_Sync app (lockedWriteSyncer ws) s = WS_Sync app ws s"
| "WS_Sync app (writerWrapper w) s = (None, s)"
| "WS_Sync app (multiWriteSyncer ws) s = multi_Sync app ws None s"
| "multi_Sync app [] err s = (err, s)"
| "multi_Sync app (w # ws) err s =
     (case WS_Sync app w s of (e, s1) \<Rightarrow> multi_Sync app ws (app err e) s1)"

section \<open>Test writers\<close>

text \<open>\<^verbatim>\<open>ztest.Syncer\<close>: the spy for \<^verbatim>\<open>Sync\<close>.\<close>

record 'e Syncer =
  sy_err :: "'e option"
  sy_called :: bool

definition Syncer_SetError :: "'e option \<Rightarrow> 'e Syncer \<Rightarrow> 'e Syncer" where
  "Syncer_SetError e s = s\<lparr>sy_err := e\<rparr>"

definition Syncer_Sync :: "'e Syncer \<Rightarrow> 'e option \<times> 'e Syncer" where
  "Syncer_Sync s = (sy_err s, s\<lparr>sy_called := True\<rparr>)"

definition Syncer_Called :: "'e Syncer \<Rightarrow> bool" where
  "Syncer_Called s = sy_called s"

text \<open>\<^verbatim>\<open>ztest.Buffer\<close>: a \<^verbatim>\<open>bytes.Buffer\<close> and a Syncer.  The bytes are kept as the list of the
  slices written, whose concatenation is the content of the buffer.\<close>

record 'e TestBuffer = "'e Syncer" +
  tb_writes :: "bytes list"

definition TestBuffer_Write :: "('e TestBuffer, 'e) write_fn" where
  "TestBuffer_Write p b = ((int (length p), None), b\<lparr>tb_writes := tb_writes b @ [p]\<rparr>)"

definition TestBuffer_Sync :: "('e TestBuffer, 'e) sync_fn" where
  "TestBuffer_Sync b = (sy_err b, b\<lparr>sy_called := True\<rparr>)"

definition Discarder_Write :: "('s, 'e) write_fn" where
  "Discarder_Write p s = ((int (length p), None), s)"

definition FailWriter_Write :: "'e \<Rightarrow> ('s, 'e) write_fn" where
  "FailWriter_Write failed p s = ((int (length p), Some failed), s)"

definition ShortWriter_Write :: "('s, 'e) write_fn" where
  "ShortWriter_Write p s = ((int (length p) - 1, None), s)"

definition new_TestBuffer :: "'e TestBuffer" where
  "new_TestBuffer = \<lparr>sy_err = None, sy_called = False, tb_writes = []\<rparr>"

definition test_syncer :: "('e TestBuffer, 'e) WriteSyncer" where
  "test_syncer = ExtSyncer TestBuffer_Write TestBuffer_Sync"

section \<open>The interface of writers\<close>

text \<open>The contract of \<^verbatim>\<open>io.Writer\<close>: \<^verbatim>\<open>Write\<close> returns how many bytes of the slice were written,
  and a non-nil error if that is fewer than all of them.\<close>

locale io_writer =
  fixes wr :: "('s, 'e) write_fn"
  assumes count_bounds: "wr p s = ((n, e), s') \<Longrightarrow> 0 \<le> n \<and> n \<le> int (length p)"
    and short_is_error: "wr p s = ((n, None), s') \<Longrightarrow> n = int (length p)"

text \<open>A sink that never fails and of which the list of the slices written can be read.\<close>

locale recording_sink =
  fixes wr :: "('s, 'e) write_fn"
    and chunks :: "'s \<Rightarrow> bytes list"
  assumes accepts: "fst (wr p s) = (int (length p), None)"
    and records: "chunks (snd (wr p s)) = chunks s @ [p]"

sublocale recording_sink \<subseteq> io_writer
proof
  fix p s n e s'
  assume "wr p s = ((n, e), s')"
  then show "0 \<le> n \<and> n \<le> int (length p)"
    using accepts [of p s] by simp
next
  fix p s n s'
  assume "wr p s = ((n, None), s')"
  then show "n = int (length p)"
    using accepts [of p s] by simp
qed

interpretation test_buffer: recording_sink TestBuffer_Write tb_writes
  by unfold_locales (simp_all add: TestBuffer_Write_def)

interpretation fail_writer: io_writer "FailWriter_Write failed"
  by unfold_locales (auto simp: FailWriter_Write_def)

interpretation discarder: io_writer Discarder_Write
  by unfold_locales (auto simp: Discarder_Write_def)

text \<open>A locked write syncer keeps both contracts of what it wraps.\<close>

context io_writer
begin

lemma locked_io_writer: "io_writer (WS_Write app (lockedWriteSyncer (ExtSyncer wr sy)))"
  by unfold_locales (auto dest: count_bounds short_is_error)

lemma wrapped_io_writer: "io_writer (WS_Write app (AddSync (PlainWriter wr)))"
  by unfold_locales (auto dest: count_bounds short_is_error)

end

interpretation locked_test_buffer:
  io_writer "WS_Write app (lockedWriteSyncer (ExtSyncer TestBuffer_Write TestBuffer_Sync))"
  by (rule test_buffer.locked_io_writer)

section \<open>Duplicating writes\<close>

text \<open>The specification of duplication: each syncer is called once, in order, with the same slice,
  whatever the others return; the results are collected.\<close>

fun write_each :: "('e option \<Rightarrow> 'e option \<Rightarrow> 'e option) \<Rightarrow> ('s, 'e) WriteSyncer list \<Rightarrow> bytes
      \<Rightarrow> 's \<Rightarrow> (int \<times> 'e option) list \<times> 's" where
  "write_each app [] p s = ([], s)"
| "write_each app (w # ws) p s =
     (case WS_Write app w p s of (r, s1) \<Rightarrow>
        case write_each app ws p s1 of (rs, s2) \<Rightarrow> (r # rs, s2))"

fun sync_each :: "('e option \<Rightarrow> 'e option \<Rightarrow> 'e option) \<Rightarrow> ('s, 'e) WriteSyncer list
      \<Rightarrow> 's \<Rightarrow> 'e option list \<times> 's" where
  "sync_each app [] s = ([], s)"
| "sync_each app (w # ws) s =
     (case WS_Sync app w s of (r, s1) \<Rightarrow>
        case sync_each app ws s1 of (rs, s2) \<Rightarrow> (r # rs, s2))"

lemma multi_Write_each:
  "multi_Write app ws n err p s =
     ((foldl multi_count n (map fst (fst (write_each app ws p s))),
       foldl app err (map snd (fst (write_each app ws p s)))), snd (write_each app ws p s))"
  by (induction ws arbitrary: n err s) (simp_all split: prod.split)

lemma multi_Sync_each:
  "multi_Sync app ws err s =
     (foldl app err (fst (sync_each app ws s)), snd (sync_each app ws s))"
  by (induction ws arbitrary: err s) (simp_all split: prod.split)

lemma foldl_multierr_None:
  "multierr_ok app \<Longrightarrow> foldl app e es = None \<longleftrightarrow> e = None \<and> (\<forall>x \<in> set es. x = None)"
  by (induction es arbitrary: e) (auto simp: multierr_None)

lemma foldl_multi_count_pos:
  "0 < n \<Longrightarrow> \<forall>k \<in> set ks. 0 < k \<Longrightarrow> foldl multi_count n ks = Min (insert n (set ks))"
proof (induction ks arbitrary: n)
  case (Cons k ks)
  have step: "multi_count n k = min n k"
    using Cons.prems by (auto simp: multi_count_def)
  have "foldl multi_count (min n k) ks = Min (insert (min n k) (set ks))"
    using Cons.prems by (intro Cons.IH) auto
  also have "\<dots> = Min (insert n (set (k # ks)))"
    by (cases "ks = []") (simp_all add: min.assoc insert_commute)
  finally show ?case using step by simp
qed simp

lemma multi_count_Min:
  "ks \<noteq> [] \<Longrightarrow> \<forall>k \<in> set ks. 0 < k \<Longrightarrow> foldl multi_count 0 ks = Min (set ks)"
  by (cases ks) (simp_all add: multi_count_def foldl_multi_count_pos)

text \<open>The comment on \<^verbatim>\<open>multiWriteSyncer.Write\<close> says the smallest number is returned.  A syncer
  that writes nothing is not counted: here the first of two writes nothing and fails, and the
  result is the count of the second.\<close>

definition NothingWriter_Write :: "'e \<Rightarrow> ('s, 'e) write_fn" where
  "NothingWriter_Write failed p s = ((0, Some failed), s)"

lemma multi_Write_not_smallest:
  "WS_Write join_errors
      (multiWriteSyncer [ExtSyncer (NothingWriter_Write ''failed'') (\<lambda>s. (None, s)),
                         ExtSyncer Discarder_Write (\<lambda>s. (None, s))]) ''abc'' ()
   = ((3, Some ''failed''), ())"
  by (simp add: NothingWriter_Write_def Discarder_Write_def multi_count_def)

section \<open>Several callers of a locked syncer\<close>

text \<open>The methods of \<^verbatim>\<open>lockedWriteSyncer\<close> with any number of goroutines.  The wrapped writer puts one byte at a
  time, so between two bytes any other goroutine may run.  It may stop before the end of the message, with an
  error then, as \<^verbatim>\<open>io.Writer\<close> demands.  \<open>lk_passed\<close> lists the messages that a goroutine has passed to \<^verbatim>\<open>Write\<close>, and
  \<open>lk_results\<close> the calls that have returned, with the message passed and the count and error returned.\<close>

datatype lock_pc =
    LIdle
  | LWaiting bytes                      \<comment> \<open>called Write, before Lock returns\<close>
  | LWriting bytes nat                  \<comment> \<open>in the Write of the wrapped writer: the message, the number of bytes put\<close>
  | LWritten bytes nat "bytes option"   \<comment> \<open>that Write has returned, before Unlock\<close>
  | LSyncWaiting                        \<comment> \<open>called Sync, before Lock returns\<close>
  | LSyncing                            \<comment> \<open>in the Sync of the wrapped writer\<close>

record write_result =
  wr_who :: nat
  wr_msg :: bytes
  wr_n :: nat
  wr_err :: "bytes option"

record locked_state =
  lpcs :: "nat \<Rightarrow> lock_pc"
  mutex :: "nat option"
  out_bytes :: bytes
  lk_passed :: "nat \<Rightarrow> bytes list"
  lk_results :: "write_result list"

definition locked_init :: locked_state where
  "locked_init = \<lparr>lpcs = (\<lambda>_. LIdle), mutex = None, out_bytes = [], lk_passed = (\<lambda>_. []), lk_results = []\<rparr>"

inductive locked_step :: "locked_state \<Rightarrow> locked_state \<Rightarrow> bool" where
  ls_call: "lpcs s i = LIdle
    \<Longrightarrow> locked_step s (s\<lparr>lpcs := (lpcs s)(i := LWaiting p), lk_passed := (lk_passed s)(i := lk_passed s i @ [p])\<rparr>)"
| ls_lock: "lpcs s i = LWaiting p \<Longrightarrow> mutex s = None
    \<Longrightarrow> locked_step s (s\<lparr>lpcs := (lpcs s)(i := LWriting p 0), mutex := Some i\<rparr>)"
| ls_put: "lpcs s i = LWriting p n \<Longrightarrow> n < length p
    \<Longrightarrow> locked_step s (s\<lparr>lpcs := (lpcs s)(i := LWriting p (n + 1)), out_bytes := out_bytes s @ [p ! n]\<rparr>)"
| ls_return: "lpcs s i = LWriting p n \<Longrightarrow> n = length p \<or> err \<noteq> None
    \<Longrightarrow> locked_step s (s\<lparr>lpcs := (lpcs s)(i := LWritten p n err)\<rparr>)"
| ls_unlock: "lpcs s i = LWritten p n err
    \<Longrightarrow> locked_step s (s\<lparr>lpcs := (lpcs s)(i := LIdle), mutex := None,
          lk_results := lk_results s @ [\<lparr>wr_who = i, wr_msg = p, wr_n = n, wr_err = err\<rparr>]\<rparr>)"
| ls_sync_call: "lpcs s i = LIdle \<Longrightarrow> locked_step s (s\<lparr>lpcs := (lpcs s)(i := LSyncWaiting)\<rparr>)"
| ls_sync_lock: "lpcs s i = LSyncWaiting \<Longrightarrow> mutex s = None
    \<Longrightarrow> locked_step s (s\<lparr>lpcs := (lpcs s)(i := LSyncing), mutex := Some i\<rparr>)"
| ls_sync_unlock: "lpcs s i = LSyncing \<Longrightarrow> locked_step s (s\<lparr>lpcs := (lpcs s)(i := LIdle), mutex := None\<rparr>)"

inductive locked_reachable :: "locked_state \<Rightarrow> bool" where
  lr_init: "locked_reachable locked_init"
| lr_step: "locked_reachable s \<Longrightarrow> locked_step s t \<Longrightarrow> locked_reachable t"

fun holds_mutex :: "lock_pc \<Rightarrow> bool" where
  "holds_mutex (LWriting p n) = True"
| "holds_mutex (LWritten p n err) = True"
| "holds_mutex LSyncing = True"
| "holds_mutex _ = False"

text \<open>The message of a call of \<^verbatim>\<open>Write\<close> that has not returned, and what of it is in the output.\<close>

fun pending_msg :: "lock_pc \<Rightarrow> bytes list" where
  "pending_msg (LWaiting p) = [p]"
| "pending_msg (LWriting p n) = [p]"
| "pending_msg (LWritten p n err) = [p]"
| "pending_msg _ = []"

fun partly_put :: "lock_pc \<Rightarrow> bytes" where
  "partly_put (LWriting p n) = take n p"
| "partly_put (LWritten p n err) = take n p"
| "partly_put _ = []"

definition in_progress :: "locked_state \<Rightarrow> bytes" where
  "in_progress s = (case mutex s of None \<Rightarrow> [] | Some i \<Rightarrow> partly_put (lpcs s i))"

definition put_bytes :: "write_result \<Rightarrow> bytes" where
  "put_bytes r = take (wr_n r) (wr_msg r)"

text \<open>What \<^verbatim>\<open>io.Writer\<close> demands of a result.\<close>

definition result_ok :: "bytes \<Rightarrow> nat \<Rightarrow> bytes option \<Rightarrow> bool" where
  "result_ok p n err \<longleftrightarrow> n \<le> length p \<and> (err = None \<longrightarrow> n = length p)"

fun pc_ok :: "lock_pc \<Rightarrow> bool" where
  "pc_ok (LWriting p n) = (n \<le> length p)"
| "pc_ok (LWritten p n err) = result_ok p n err"
| "pc_ok _ = True"

definition locked_inv :: "locked_state \<Rightarrow> bool" where
  "locked_inv s \<longleftrightarrow> (\<forall>i. holds_mutex (lpcs s i) \<longleftrightarrow> mutex s = Some i)
     \<and> (\<forall>i. pc_ok (lpcs s i))
     \<and> (\<forall>r \<in> set (lk_results s). result_ok (wr_msg r) (wr_n r) (wr_err r))
     \<and> (\<forall>i. lk_passed s i = map wr_msg (filter (\<lambda>r. wr_who r = i) (lk_results s)) @ pending_msg (lpcs s i))
     \<and> out_bytes s = concat (map put_bytes (lk_results s)) @ in_progress s"

lemma locked_step_inv: "locked_step s t \<Longrightarrow> locked_inv s \<Longrightarrow> locked_inv t"
proof (induction rule: locked_step.induct)
  case (ls_call s i p)
  then have "mutex s \<noteq> Some i"
    unfolding locked_inv_def by (metis holds_mutex.simps(4))
  with ls_call show ?case
    by (auto simp: locked_inv_def in_progress_def split: option.splits)
next
  case (ls_lock s i p)
  then show ?case
    by (auto simp: locked_inv_def in_progress_def)
next
  case (ls_put s i p n)
  then have "mutex s = Some i"
    unfolding locked_inv_def by (metis holds_mutex.simps(1))
  with ls_put show ?case
    by (auto simp: locked_inv_def in_progress_def take_Suc_conv_app_nth)
next
  case (ls_return s i p n err)
  then have "mutex s = Some i" "n \<le> length p"
    unfolding locked_inv_def by (metis holds_mutex.simps(1), metis pc_ok.simps(1))
  with ls_return show ?case
    by (auto simp: locked_inv_def in_progress_def result_ok_def)
next
  case (ls_unlock s i p n err)
  then have "mutex s = Some i" "result_ok p n err"
    unfolding locked_inv_def by (metis holds_mutex.simps(2), metis pc_ok.simps(2))
  with ls_unlock show ?case
    by (auto simp: locked_inv_def in_progress_def put_bytes_def)
next
  case (ls_sync_call s i)
  then have "mutex s \<noteq> Some i"
    unfolding locked_inv_def by (metis holds_mutex.simps(4))
  with ls_sync_call show ?case
    by (auto simp: locked_inv_def in_progress_def split: option.splits)
next
  case (ls_sync_lock s i)
  then show ?case
    by (auto simp: locked_inv_def in_progress_def)
next
  case (ls_sync_unlock s i)
  then have "mutex s = Some i"
    unfolding locked_inv_def by (metis holds_mutex.simps(3))
  with ls_sync_unlock show ?case
    by (auto simp: locked_inv_def in_progress_def)
qed

lemma locked_reachable_inv: "locked_reachable s \<Longrightarrow> locked_inv s"
proof (induction rule: locked_reachable.induct)
  case lr_init
  show ?case by (simp add: locked_inv_def locked_init_def in_progress_def)
next
  case (lr_step s t)
  then show ?case by (blast intro: locked_step_inv)
qed

lemma partly_put_prefix: "pending_msg pc = [] \<Longrightarrow> partly_put pc = []" "pending_msg pc = [p] \<Longrightarrow> \<exists>n. partly_put pc = take n p"
  by (cases pc; auto intro: exI [of _ 0])+

section \<open>Properties\<close>

text \<open>C24. A multi write syncer duplicates: it calls every syncer exactly once, in order and
  with the whole slice, even after one of them failed; its error is nil exactly when no syncer
  failed; and when every syncer wrote something the count is the smallest of theirs.\<close>

theorem multi_write_duplicates:
  assumes "multierr_ok app" and "write_each app ws p s = (rs, s')"
  shows "\<exists>n err. WS_Write app (multiWriteSyncer ws) p s = ((n, err), s')
    \<and> length rs = length ws
    \<and> (err = None \<longleftrightarrow> (\<forall>r \<in> set rs. snd r = None))
    \<and> (ws \<noteq> [] \<and> (\<forall>r \<in> set rs. 0 < fst r) \<longrightarrow> n = Min (fst ` set rs))"
proof -
  have len: "length rs = length ws"
    using assms(2) by (induction ws arbitrary: s rs s') (auto split: prod.splits)
  have "n = Min (fst ` set rs)"
    if "n = foldl multi_count 0 (map fst rs)" "ws \<noteq> []" "\<forall>r \<in> set rs. 0 < fst r" for n
    using multi_count_Min [of "map fst rs"] that len by (cases rs) auto
  then show ?thesis
    using len foldl_multierr_None [OF assms(1), of None "map snd rs"] assms(2)
    by (simp add: multi_Write_each)
qed

theorem multi_write_duplicates_witness:
  "\<exists>n err. WS_Write join_errors (multiWriteSyncer [test_syncer, test_syncer]) ''ab''
        (new_TestBuffer :: bytes TestBuffer)
      = ((n, err), new_TestBuffer\<lparr>tb_writes := [''ab'', ''ab'']\<rparr>)
    \<and> n = 2 \<and> err = None"
proof -
  let ?b = "new_TestBuffer :: bytes TestBuffer"
  have each: "write_each join_errors [test_syncer, test_syncer] ''ab'' ?b
     = ([(2, None), (2, None)], new_TestBuffer\<lparr>tb_writes := [''ab'', ''ab'']\<rparr>)"
    by (simp add: test_syncer_def TestBuffer_Write_def new_TestBuffer_def)
  show ?thesis
    using multi_write_duplicates [OF multierr_ok_join_errors each] by auto
qed

text \<open>Syncing a multi write syncer syncs every one of its syncers, in order and even after
  an error, and returns nil exactly when all of them did.\<close>

theorem multi_sync_all:
  assumes "multierr_ok app" and "sync_each app ws s = (es, s')"
  shows "\<exists>err. WS_Sync app (multiWriteSyncer ws) s = (err, s') \<and> length es = length ws
    \<and> (err = None \<longleftrightarrow> (\<forall>e \<in> set es. e = None))"
proof -
  have "length es = length ws"
    using assms(2) by (induction ws arbitrary: s es s') (auto split: prod.splits)
  then show ?thesis
    using foldl_multierr_None [OF assms(1), of None es] assms(2) by (simp add: multi_Sync_each)
qed

theorem multi_sync_all_witness:
  "\<exists>err. WS_Sync join_errors (multiWriteSyncer [test_syncer, test_syncer])
        (new_TestBuffer\<lparr>sy_err := Some ''disk full''\<rparr>) = (err, new_TestBuffer\<lparr>sy_err := Some ''disk full'', sy_called := True\<rparr>)
      \<and> err \<noteq> None"
proof -
  let ?b = "new_TestBuffer\<lparr>sy_err := Some ''disk full''\<rparr>"
  have each: "sync_each join_errors [test_syncer, test_syncer] ?b
     = ([Some ''disk full'', Some ''disk full''], ?b\<lparr>sy_called := True\<rparr>)"
    by (simp add: test_syncer_def TestBuffer_Sync_def new_TestBuffer_def)
  show ?thesis
    using multi_sync_all [OF multierr_ok_join_errors each] by auto
qed

text \<open>Locking is transparent and idempotent: \<^verbatim>\<open>Lock\<close> of a locked syncer is that syncer,
  and a locked syncer, like \<^verbatim>\<open>NewMultiWriteSyncer\<close> or \<^verbatim>\<open>CombineWriteSyncers\<close> of one syncer,
  writes and syncs as the syncer inside does.\<close>

theorem lock_transparent:
  "Lock (Lock ws) = Lock ws
   \<and> WS_Write app (Lock ws) = WS_Write app ws \<and> WS_Sync app (Lock ws) = WS_Sync app ws
   \<and> NewMultiWriteSyncer [ws] = ws
   \<and> WS_Write app (CombineWriteSyncers [ws]) = WS_Write app ws"
proof -
  have w: "WS_Write app (Lock ws) = WS_Write app ws" for ws :: "('a, 'b) WriteSyncer"
    by (cases ws) (simp_all add: fun_eq_iff)
  have s: "WS_Sync app (Lock ws) = WS_Sync app ws"
    by (cases ws) (simp_all add: fun_eq_iff)
  have i: "Lock (Lock ws) = Lock ws"
    by (cases ws) simp_all
  have n: "NewMultiWriteSyncer [ws] = ws"
    by (simp add: NewMultiWriteSyncer_def)
  from w s i n show ?thesis
    by (simp add: CombineWriteSyncers_def)
qed

text \<open>C25. Messages written through a locked syncer never interleave.  In every reachable state of any number of
  goroutines that call \<^verbatim>\<open>Write\<close> and \<^verbatim>\<open>Sync\<close>, the output is what the calls of \<^verbatim>\<open>Write\<close> that have returned put, one
  after the other, and then what the one in progress has put.  A call that returned no error put the whole of
  the message passed to it, and one that returned an error the part that its count says; the one in progress
  has put a part of the last message passed by the goroutine that holds the mutex.  The messages of each
  goroutine are written in the order in which they were passed, none is left out, and at most one goroutine is
  inside the wrapped writer.\<close>

theorem locked_writes_do_not_interleave:
  assumes "locked_reachable s"
  shows "out_bytes s = concat (map put_bytes (lk_results s)) @ in_progress s
    \<and> (\<forall>r \<in> set (lk_results s). wr_n r = length (put_bytes r) \<and> (\<exists>k. put_bytes r = take k (wr_msg r))
          \<and> (wr_err r = None \<longrightarrow> put_bytes r = wr_msg r))
    \<and> (\<forall>i. lk_passed s i = map wr_msg (filter (\<lambda>r. wr_who r = i) (lk_results s)) @ pending_msg (lpcs s i))
    \<and> (mutex s = None \<longrightarrow> in_progress s = [])
    \<and> (\<forall>i. mutex s = Some i \<longrightarrow> in_progress s = [] \<or> (\<exists>k. in_progress s = take k (last (lk_passed s i))))
    \<and> (\<forall>i j. holds_mutex (lpcs s i) \<longrightarrow> holds_mutex (lpcs s j) \<longrightarrow> i = j)"
proof -
  note inv = locked_reachable_inv [OF assms]
  have whole: "\<forall>r \<in> set (lk_results s). wr_n r = length (put_bytes r) \<and> (\<exists>k. put_bytes r = take k (wr_msg r))
      \<and> (wr_err r = None \<longrightarrow> put_bytes r = wr_msg r)"
    using inv by (auto simp: locked_inv_def result_ok_def put_bytes_def)
  have part: "in_progress s = [] \<or> (\<exists>k. in_progress s = take k (last (lk_passed s i)))" if "mutex s = Some i" for i
  proof (cases "pending_msg (lpcs s i)")
    case Nil
    then show ?thesis
      using that partly_put_prefix(1) by (simp add: in_progress_def)
  next
    case (Cons p ps)
    then have "pending_msg (lpcs s i) = [p]" "lk_passed s i = map wr_msg (filter (\<lambda>r. wr_who r = i) (lk_results s)) @ [p]"
      using inv by (cases "lpcs s i"; auto simp: locked_inv_def)+
    then show ?thesis
      using that partly_put_prefix(2) [of "lpcs s i" p] by (auto simp: in_progress_def)
  qed
  have "i = j" if "holds_mutex (lpcs s i)" "holds_mutex (lpcs s j)" for i j
    using inv that unfolding locked_inv_def by (metis option.inject)
  then show ?thesis
    using inv whole part by (auto simp: locked_inv_def in_progress_def)
qed

text \<open>A state with a call that failed after one byte, one in progress and one waiting.\<close>

definition locked_demo :: locked_state where
  "locked_demo = \<lparr>lpcs = (\<lambda>_. LIdle)(0 := LWriting ''ab'' 1, 1 := LWaiting ''cd''), mutex = Some 0, out_bytes = ''xa'',
     lk_passed = (\<lambda>_. [])(0 := [''ab''], 1 := [''xy'', ''cd'']),
     lk_results = [\<lparr>wr_who = 1, wr_msg = ''xy'', wr_n = 1, wr_err = Some ''disk full''\<rparr>]\<rparr>"

lemma locked_demo_reachable: "locked_reachable locked_demo"
proof -
  let ?s1 = "locked_init\<lparr>lpcs := (lpcs locked_init)(1 := LWaiting ''xy''), lk_passed := (lk_passed locked_init)(1 := [''xy''])\<rparr>"
  let ?s2 = "?s1\<lparr>lpcs := (lpcs ?s1)(1 := LWriting ''xy'' 0), mutex := Some 1\<rparr>"
  let ?s3 = "?s2\<lparr>lpcs := (lpcs ?s2)(1 := LWriting ''xy'' 1), out_bytes := ''x''\<rparr>"
  let ?s4 = "?s3\<lparr>lpcs := (lpcs ?s3)(1 := LWritten ''xy'' 1 (Some ''disk full''))\<rparr>"
  let ?s5 = "?s4\<lparr>lpcs := (lpcs ?s4)(1 := LIdle), mutex := None,
    lk_results := [\<lparr>wr_who = 1, wr_msg = ''xy'', wr_n = 1, wr_err = Some ''disk full''\<rparr>]\<rparr>"
  let ?s6 = "?s5\<lparr>lpcs := (lpcs ?s5)(0 := LWaiting ''ab''), lk_passed := (lk_passed ?s5)(0 := [''ab''])\<rparr>"
  let ?s7 = "?s6\<lparr>lpcs := (lpcs ?s6)(0 := LWriting ''ab'' 0), mutex := Some 0\<rparr>"
  let ?s8 = "?s7\<lparr>lpcs := (lpcs ?s7)(1 := LWaiting ''cd''), lk_passed := (lk_passed ?s7)(1 := [''xy'', ''cd''])\<rparr>"
  let ?s9 = "?s8\<lparr>lpcs := (lpcs ?s8)(0 := LWriting ''ab'' 1), out_bytes := ''xa''\<rparr>"
  have "locked_reachable ?s1"
    using lr_step [OF lr_init ls_call [of locked_init 1 "''xy''"]] by (simp add: locked_init_def)
  then have "locked_reachable ?s2"
    using lr_step [OF _ ls_lock [of ?s1 1 "''xy''"]] by (simp add: locked_init_def)
  then have "locked_reachable ?s3"
    using lr_step [OF _ ls_put [of ?s2 1 "''xy''" 0]] by (simp add: locked_init_def)
  then have "locked_reachable ?s4"
    using lr_step [OF _ ls_return [of ?s3 1 "''xy''" 1 "Some ''disk full''"]] by (simp add: locked_init_def)
  then have "locked_reachable ?s5"
    using lr_step [OF _ ls_unlock [of ?s4 1 "''xy''" 1 "Some ''disk full''"]] by (simp add: locked_init_def)
  then have "locked_reachable ?s6"
    using lr_step [OF _ ls_call [of ?s5 0 "''ab''"]] by (simp add: locked_init_def)
  then have "locked_reachable ?s7"
    using lr_step [OF _ ls_lock [of ?s6 0 "''ab''"]] by (simp add: locked_init_def)
  then have "locked_reachable ?s8"
    using lr_step [OF _ ls_call [of ?s7 1 "''cd''"]] by (simp add: locked_init_def)
  then have "locked_reachable ?s9"
    using lr_step [OF _ ls_put [of ?s8 0 "''ab''" 0]] by (simp add: locked_init_def)
  moreover have "?s9 = locked_demo"
    by (simp add: locked_demo_def locked_init_def fun_upd_twist)
  ultimately show ?thesis by simp
qed

theorem locked_writes_do_not_interleave_witness:
  "locked_reachable locked_demo
   \<and> out_bytes locked_demo = concat (map put_bytes (lk_results locked_demo)) @ in_progress locked_demo
   \<and> map put_bytes (lk_results locked_demo) = [''x''] \<and> in_progress locked_demo = ''a''"
  using locked_demo_reachable locked_writes_do_not_interleave [OF locked_demo_reachable]
  by (simp add: locked_demo_def put_bytes_def in_progress_def)

end
