(* ===== verification/Buffered_Write_Syncer.thy ===== *)
theory Buffered_Write_Syncer
  imports Write_Syncer
begin

text \<open>
  \<^verbatim>\<open>src/zapcore/buffered_write_syncer.go\<close>: the write syncer that batches writes in memory.

  It is built on the standard library's \<^verbatim>\<open>bufio.Writer\<close>, which is modelled first: its buffer
  (the bytes in use and the capacity), its sticky error, \<^verbatim>\<open>Flush\<close> and \<^verbatim>\<open>Write\<close>.  The loop of
  \<^verbatim>\<open>bufio.Writer.Write\<close> does not return when the wrapped writer keeps reporting that it wrote
  nothing without an error, so it is a partial function; with a writer that keeps the contract of
  \<^verbatim>\<open>io.Writer\<close> it always returns, which is proved.

  The wrapped syncer is given by its functions \<open>wr\<close> and \<open>sy\<close> on the outside world \<open>'s\<close>.  The
  interleaving of callers and of the flushing goroutine is in the theory on the flush loop.
\<close>

section \<open>bufio.Writer\<close>

record 'e bufio_Writer =
  bw_buf :: bytes         \<comment> \<open>the bytes b.buf[0:b.n]\<close>
  bw_size :: nat          \<comment> \<open>len(b.buf)\<close>
  bw_err :: "'e option"   \<comment> \<open>sticky\<close>

definition bufio_NewWriterSize :: "int \<Rightarrow> 'e bufio_Writer" where
  "bufio_NewWriterSize sz =
     \<lparr>bw_buf = [], bw_size = (if sz \<le> 0 then 4096 else nat sz), bw_err = None\<rparr>"

definition bufio_Available :: "'e bufio_Writer \<Rightarrow> nat" where
  "bufio_Available b = bw_size b - length (bw_buf b)"

definition bufio_Buffered :: "'e bufio_Writer \<Rightarrow> nat" where
  "bufio_Buffered b = length (bw_buf b)"

definition bufio_Flush ::
    "('s, 'e) write_fn \<Rightarrow> 'e \<Rightarrow> 'e bufio_Writer \<Rightarrow> 's \<Rightarrow> 'e option \<times> 'e bufio_Writer \<times> 's" where
  "bufio_Flush wr ErrShortWrite b s =
     (case bw_err b of
        Some e \<Rightarrow> (Some e, b, s)
      | None \<Rightarrow>
          if bw_buf b = [] then (None, b, s)
          else
            case wr (bw_buf b) s of ((n, err), s1) \<Rightarrow>
              let err' = (if n < int (length (bw_buf b)) \<and> err = None then Some ErrShortWrite else err)
              in case err' of
                   Some e \<Rightarrow> (Some e, b\<lparr>bw_buf := drop (nat n) (bw_buf b), bw_err := Some e\<rparr>, s1)
                 | None \<Rightarrow> (None, b\<lparr>bw_buf := []\<rparr>, s1))"

text \<open>The loop of \<^verbatim>\<open>Write\<close>; slicing \<^verbatim>\<open>p[n:]\<close> with a count that is negative or beyond the slice
  panics, which like not returning is \<open>None\<close>.\<close>

partial_function (option) bufio_Write_loop ::
    "('s, 'e) write_fn \<Rightarrow> 'e \<Rightarrow> bytes \<Rightarrow> int \<Rightarrow> 'e bufio_Writer \<Rightarrow> 's
      \<Rightarrow> (bytes \<times> int \<times> 'e bufio_Writer \<times> 's) option" where
  "bufio_Write_loop wr ErrShortWrite p nn b s =
     (if bufio_Available b < length p \<and> bw_err b = None then
        if bufio_Buffered b = 0 then
          (case wr p s of ((n, err), s1) \<Rightarrow>
             if n < 0 \<or> int (length p) < n then None
             else bufio_Write_loop wr ErrShortWrite (drop (nat n) p) (nn + n) (b\<lparr>bw_err := err\<rparr>) s1)
        else
          (let n = min (bufio_Available b) (length p) in
           case bufio_Flush wr ErrShortWrite (b\<lparr>bw_buf := bw_buf b @ take n p\<rparr>) s of
             (_, b1, s1) \<Rightarrow> bufio_Write_loop wr ErrShortWrite (drop n p) (nn + int n) b1 s1)
      else Some (p, nn, b, s))"

definition bufio_Write ::
    "('s, 'e) write_fn \<Rightarrow> 'e \<Rightarrow> bytes \<Rightarrow> 'e bufio_Writer \<Rightarrow> 's
      \<Rightarrow> ((int \<times> 'e option) \<times> 'e bufio_Writer \<times> 's) option" where
  "bufio_Write wr ErrShortWrite p b s =
     (case bufio_Write_loop wr ErrShortWrite p 0 b s of
        None \<Rightarrow> None
      | Some (q, nn, b1, s1) \<Rightarrow>
          (case bw_err b1 of
             Some e \<Rightarrow> Some ((nn, Some e), b1, s1)
           | None \<Rightarrow>
               let n = min (bufio_Available b1) (length q) in
               Some ((nn + int n, None), b1\<lparr>bw_buf := bw_buf b1 @ take n q\<rparr>, s1)))"

section \<open>BufferedWriteSyncer\<close>

definition defaultBufferSize :: int where
  "defaultBufferSize = 256 * 1024"

definition defaultFlushInterval :: int where
  "defaultFlushInterval = 30 * 1000000000"

record 'e BufferedWriteSyncer =
  Size :: int
  FlushInterval :: int
  initialized :: bool
  stopped :: bool
  writer :: "'e bufio_Writer"
  ticker :: "int option"    \<comment> \<open>the interval of the running ticker; None when there is none\<close>
  stop_closed :: bool
  done_closed :: bool

text \<open>\<^verbatim>\<open>initialize\<close> without the goroutine it starts.  The ticker of the system clock panics on an
  interval that is not positive; the zero interval was replaced by the default before.\<close>

definition BWS_initialize :: "'e BufferedWriteSyncer \<Rightarrow> 'e BufferedWriteSyncer option" where
  "BWS_initialize w =
     (let sz = (if Size w = 0 then defaultBufferSize else Size w);
          flushInterval = (if FlushInterval w = 0 then defaultFlushInterval else FlushInterval w)
      in if flushInterval \<le> 0 then None
         else Some (w\<lparr>ticker := Some flushInterval, writer := bufio_NewWriterSize sz,
                      stop_closed := False, done_closed := False, initialized := True\<rparr>))"

definition BWS_Write ::
    "('s, 'e) write_fn \<Rightarrow> 'e \<Rightarrow> bytes \<Rightarrow> 'e BufferedWriteSyncer \<Rightarrow> 's
      \<Rightarrow> ((int \<times> 'e option) \<times> 'e BufferedWriteSyncer \<times> 's) option" where
  "BWS_Write wr ErrShortWrite p w s =
     (case (if initialized w then Some w else BWS_initialize w) of
        None \<Rightarrow> None
      | Some w1 \<Rightarrow>
          let write = (\<lambda>b s. map_option (\<lambda>(r, b', s'). (r, w1\<lparr>writer := b'\<rparr>, s'))
                        (bufio_Write wr ErrShortWrite p b s))
          in if bufio_Available (writer w1) < length p \<and> 0 < bufio_Buffered (writer w1) then
               (case bufio_Flush wr ErrShortWrite (writer w1) s of
                  (Some err, b, s1) \<Rightarrow> Some ((0, Some err), w1\<lparr>writer := b\<rparr>, s1)
                | (None, b, s1) \<Rightarrow> write b s1)
             else write (writer w1) s)"

definition BWS_Sync ::
    "('e option \<Rightarrow> 'e option \<Rightarrow> 'e option) \<Rightarrow> ('s, 'e) write_fn \<Rightarrow> ('s, 'e) sync_fn \<Rightarrow> 'e
      \<Rightarrow> 'e BufferedWriteSyncer \<Rightarrow> 's \<Rightarrow> 'e option \<times> 'e BufferedWriteSyncer \<times> 's" where
  "BWS_Sync app wr sy ErrShortWrite w s =
     (if initialized w then
        case bufio_Flush wr ErrShortWrite (writer w) s of (err, b, s1) \<Rightarrow>
          case sy s1 of (err2, s2) \<Rightarrow> (app err err2, w\<lparr>writer := b\<rparr>, s2)
      else case sy s of (err2, s2) \<Rightarrow> (app None err2, w, s2))"

text \<open>The critical section of \<^verbatim>\<open>Stop\<close>: whether there is cleanup to do, and the new state.\<close>

definition BWS_Stop_critical :: "'e BufferedWriteSyncer \<Rightarrow> bool \<times> 'e BufferedWriteSyncer" where
  "BWS_Stop_critical w =
     (if \<not> initialized w then (False, w)
      else if stopped w then (False, w)
      else (True, w\<lparr>stopped := True, ticker := None, stop_closed := True\<rparr>))"

text \<open>A syncer as a user makes it: only the exported fields are set.\<close>

definition new_BufferedWriteSyncer :: "int \<Rightarrow> int \<Rightarrow> 'e BufferedWriteSyncer" where
  "new_BufferedWriteSyncer sz interval =
     \<lparr>Size = sz, FlushInterval = interval, initialized = False, stopped = False,
      writer = \<lparr>bw_buf = [], bw_size = 0, bw_err = None\<rparr>, ticker = None,
      stop_closed = False, done_closed = False\<rparr>"

text \<open>Sequences of calls, as a client makes them; the count returned by \<^verbatim>\<open>Sync\<close> is 0.\<close>

datatype bws_op = OpWrite bytes | OpSync

fun op_bytes :: "bws_op \<Rightarrow> bytes" where
  "op_bytes (OpWrite p) = p"
| "op_bytes OpSync = []"

fun writes_of :: "bws_op list \<Rightarrow> bytes list" where
  "writes_of [] = []"
| "writes_of (OpWrite p # ops) = p # writes_of ops"
| "writes_of (OpSync # ops) = writes_of ops"

fun BWS_do ::
    "('e option \<Rightarrow> 'e option \<Rightarrow> 'e option) \<Rightarrow> ('s, 'e) write_fn \<Rightarrow> ('s, 'e) sync_fn \<Rightarrow> 'e
      \<Rightarrow> bws_op \<Rightarrow> 'e BufferedWriteSyncer \<Rightarrow> 's
      \<Rightarrow> ((int \<times> 'e option) \<times> 'e BufferedWriteSyncer \<times> 's) option" where
  "BWS_do app wr sy es (OpWrite p) w s = BWS_Write wr es p w s"
| "BWS_do app wr sy es OpSync w s =
     (case BWS_Sync app wr sy es w s of (err, w', s') \<Rightarrow> Some ((0, err), w', s'))"

fun BWS_run ::
    "('e option \<Rightarrow> 'e option \<Rightarrow> 'e option) \<Rightarrow> ('s, 'e) write_fn \<Rightarrow> ('s, 'e) sync_fn \<Rightarrow> 'e
      \<Rightarrow> bws_op list \<Rightarrow> 'e BufferedWriteSyncer \<Rightarrow> 's
      \<Rightarrow> ((int \<times> 'e option) list \<times> 'e BufferedWriteSyncer \<times> 's) option" where
  "BWS_run app wr sy es [] w s = Some ([], w, s)"
| "BWS_run app wr sy es (op # ops) w s =
     (case BWS_do app wr sy es op w s of
        None \<Rightarrow> None
      | Some (r, w1, s1) \<Rightarrow>
          map_option (\<lambda>(rs, w', s'). (r # rs, w', s')) (BWS_run app wr sy es ops w1 s1))"

text \<open>The capacity a syncer with the given \<^verbatim>\<open>Size\<close> gets.\<close>

definition bws_capacity :: "int \<Rightarrow> nat" where
  "bws_capacity sz =
     (if sz = 0 then nat defaultBufferSize else if sz < 0 then 4096 else nat sz)"

lemma bws_capacity:
  "bw_size (bufio_NewWriterSize (if sz = 0 then defaultBufferSize else sz)) = bws_capacity sz"
  by (simp add: bws_capacity_def bufio_NewWriterSize_def defaultBufferSize_def)

section \<open>bufio.Writer over a writer that keeps its contract\<close>

lemmas bufio_defs = bufio_Available_def bufio_Buffered_def

definition bufio_wf :: "'e bufio_Writer \<Rightarrow> bool" where
  "bufio_wf b \<longleftrightarrow> length (bw_buf b) \<le> bw_size b"

lemma bufio_wf_new [simp]: "bufio_wf (bufio_NewWriterSize n)"
  by (simp add: bufio_wf_def bufio_NewWriterSize_def)

lemma bufio_size_new: "0 < bw_size (bufio_NewWriterSize n)"
  by (simp add: bufio_NewWriterSize_def)

lemma Flush_err [sync_simps]: "bw_err b = Some e \<Longrightarrow> bufio_Flush wr es b s = (Some e, b, s)"
  by (simp add: bufio_Flush_def)

lemma Flush_empty [sync_simps]:
  "bw_err b = None \<Longrightarrow> bw_buf b = [] \<Longrightarrow> bufio_Flush wr es b s = (None, b, s)"
  by (simp add: bufio_Flush_def)

lemma Flush_size: "bufio_Flush wr es b s = (r, b', s') \<Longrightarrow> bw_size b' = bw_size b"
  by (auto simp: bufio_Flush_def Let_def split: option.splits prod.splits if_splits)

lemma Flush_result: "bufio_Flush wr es b s = (r, b', s') \<Longrightarrow> bw_err b' = r"
  by (auto simp: bufio_Flush_def Let_def split: option.splits prod.splits if_splits)

lemma Flush_ok_empty: "bufio_Flush wr es b s = (None, b', s') \<Longrightarrow> bw_buf b' = []"
  by (auto simp: bufio_Flush_def Let_def split: option.splits prod.splits if_splits)

lemma Flush_wf: "bufio_wf b \<Longrightarrow> bufio_Flush wr es b s = (r, b', s') \<Longrightarrow> bufio_wf b'"
  by (auto simp: bufio_Flush_def bufio_wf_def Let_def split: option.splits prod.splits if_splits)

text \<open>One unfolding of the loop, by case.\<close>

lemma Write_loop_stop:
  "bufio_Available b \<ge> length p \<or> bw_err b \<noteq> None
    \<Longrightarrow> bufio_Write_loop wr es p nn b s = Some (p, nn, b, s)"
  by (subst bufio_Write_loop.simps) auto

lemma Write_loop_direct:
  "bufio_Available b < length p \<Longrightarrow> bw_err b = None \<Longrightarrow> bw_buf b = [] \<Longrightarrow> wr p s = ((n, err), s1)
    \<Longrightarrow> 0 \<le> n \<Longrightarrow> n \<le> int (length p)
    \<Longrightarrow> bufio_Write_loop wr es p nn b s
      = bufio_Write_loop wr es (drop (nat n) p) (nn + n) (b\<lparr>bw_err := err\<rparr>) s1"
  by (subst bufio_Write_loop.simps) (simp add: bufio_defs)

lemma Write_loop_fill:
  "bufio_Available b < length p \<Longrightarrow> bw_err b = None \<Longrightarrow> bw_buf b \<noteq> []
    \<Longrightarrow> bufio_Flush wr es (b\<lparr>bw_buf := bw_buf b @ take (bufio_Available b) p\<rparr>) s = (r, b1, s1)
    \<Longrightarrow> bufio_Write_loop wr es p nn b s
      = bufio_Write_loop wr es (drop (bufio_Available b) p) (nn + int (bufio_Available b)) b1 s1"
  by (subst bufio_Write_loop.simps) (simp add: bufio_Buffered_def Let_def)

lemma bufio_Write_fits:
  "bw_err b = None \<Longrightarrow> length p \<le> bufio_Available b
    \<Longrightarrow> bufio_Write wr es p b s = Some ((int (length p), None), b\<lparr>bw_buf := bw_buf b @ p\<rparr>, s)"
  by (simp add: bufio_Write_def Write_loop_stop)

lemma bufio_Write_err:
  "bw_err b = Some e \<Longrightarrow> bufio_Write wr es p b s = Some ((0, Some e), b, s)"
  by (simp add: bufio_Write_def Write_loop_stop)

text \<open>What holds of a syncer between calls.\<close>

definition bws_wf :: "'e BufferedWriteSyncer \<Rightarrow> bool" where
  "bws_wf w \<longleftrightarrow>
     (if initialized w then bufio_wf (writer w)
      else 0 \<le> FlushInterval w \<and> bw_buf (writer w) = [] \<and> bw_err (writer w) = None)"

lemma bws_wf_new [simp]: "bws_wf (new_BufferedWriteSyncer sz interval) \<longleftrightarrow> 0 \<le> interval"
  by (simp add: bws_wf_def new_BufferedWriteSyncer_def)

lemma new_bws_buf [simp]: "bw_buf (writer (new_BufferedWriteSyncer sz interval)) = []"
  by (simp add: new_BufferedWriteSyncer_def)

lemma BWS_Write_initialized:
  assumes "bws_wf w"
  shows "\<exists>w1. BWS_Write wr es p w s = BWS_Write wr es p w1 s \<and> initialized w1 \<and> bws_wf w1
    \<and> bw_buf (writer w1) = bw_buf (writer w) \<and> bw_err (writer w1) = bw_err (writer w)"
proof (cases "initialized w")
  case True
  then show ?thesis using assms by blast
next
  case False
  then obtain w1 where w1: "BWS_initialize w = Some w1"
    using assms by (cases "FlushInterval w = 0")
      (auto simp: bws_wf_def BWS_initialize_def defaultFlushInterval_def Let_def)
  then have "initialized w1" "writer w1 = bufio_NewWriterSize (if Size w = 0 then defaultBufferSize else Size w)"
    by (auto simp: BWS_initialize_def Let_def split: if_splits)
  then show ?thesis
    using False assms w1
    by (intro exI [of _ w1]) (simp add: BWS_Write_def bws_wf_def bufio_wf_def bufio_NewWriterSize_def)
qed

lemma BWS_Write_sticky:
  assumes "initialized w" and "bw_err (writer w) = Some e"
  shows "BWS_Write wr es p w s = Some ((0, Some e), w, s)"
  using assms by (simp add: BWS_Write_def Flush_err bufio_Write_err)

text \<open>A sink of which the bytes it took can be read, and that may fail at any time.\<close>

locale appending_sink = io_writer wr for wr :: "('s, 'e) write_fn" +
  fixes sy :: "('s, 'e) sync_fn"
    and out :: "'s \<Rightarrow> bytes"
  assumes appends: "wr p s = ((n, e), s') \<Longrightarrow> out s' = out s @ take (nat n) p"
    and sync_keeps: "sy s = (e, s') \<Longrightarrow> out s' = out s"
begin

lemma Flush_stream:
  assumes "bufio_Flush wr es b s = (r, b', s')"
  shows "out s' @ bw_buf b' = out s @ bw_buf b"
proof (cases "bw_err b = None \<and> bw_buf b \<noteq> []")
  case True
  obtain n e s1 where w: "wr (bw_buf b) s = ((n, e), s1)"
    by (metis prod.exhaust)
  have "e = None \<Longrightarrow> n = int (length (bw_buf b))"
    using w short_is_error by blast
  then show ?thesis
    using assms True w appends [OF w]
    by (auto simp: bufio_Flush_def Let_def split: option.splits if_splits)
next
  case False
  then show ?thesis
    using assms by (auto simp: bufio_Flush_def split: option.splits)
qed

text \<open>With an empty buffer the loop makes at most one call of the writer.\<close>

lemma Write_loop_empty:
  assumes "bw_err b = None" and "bw_buf b = []"
  shows "\<exists>k b' s'. bufio_Write_loop wr es p nn b s = Some (drop k p, nn + int k, b', s')
    \<and> k \<le> length p \<and> out s' = out s @ take k p
    \<and> bw_size b' = bw_size b \<and> bw_buf b' = [] \<and> (bw_err b' = None \<longrightarrow> length p - k \<le> bw_size b)"
proof (cases "length p \<le> bw_size b")
  case True
  then show ?thesis
    using assms by (intro exI [of _ 0]) (simp add: Write_loop_stop bufio_Available_def)
next
  case False
  obtain n e s1 where w: "wr p s = ((n, e), s1)"
    by (metis prod.exhaust)
  have n: "0 \<le> n" "n \<le> int (length p)"
    using count_bounds [OF w] by auto
  have full: "n = int (length p)" if "e = None"
    using w short_is_error that by blast
  have "bufio_Write_loop wr es p nn b s
      = bufio_Write_loop wr es (drop (nat n) p) (nn + n) (b\<lparr>bw_err := e\<rparr>) s1"
    using False assms n w by (intro Write_loop_direct) (auto simp: bufio_Available_def)
  also have "\<dots> = Some (drop (nat n) p, nn + n, b\<lparr>bw_err := e\<rparr>, s1)"
    using full by (intro Write_loop_stop) (cases e, auto)
  finally show ?thesis
    using assms n full appends [OF w] by (intro exI [of _ "nat n"]) auto
qed

lemma Write_loop_total:
  assumes "bw_err b = None" and "bufio_wf b"
  shows "\<exists>k b' s'. bufio_Write_loop wr es p nn b s = Some (drop k p, nn + int k, b', s')
    \<and> k \<le> length p \<and> out s' @ bw_buf b' = out s @ bw_buf b @ take k p
    \<and> bw_size b' = bw_size b \<and> bufio_wf b'
    \<and> (bw_err b' = None \<longrightarrow> length p - k \<le> bufio_Available b')"
proof -
  consider "length p \<le> bufio_Available b" | "bw_buf b = []"
    | "bufio_Available b < length p" "bw_buf b \<noteq> []" by fastforce
  then show ?thesis
  proof cases
    case 1
    then show ?thesis
      using assms by (intro exI [of _ 0]) (simp add: Write_loop_stop)
  next
    case 2
    then show ?thesis
      using Write_loop_empty [OF assms(1) 2, of es p nn s]
      by (fastforce simp: bufio_wf_def bufio_Available_def)
  next
    case 3
    let ?n = "bufio_Available b"
    obtain r b1 s1 where f: "bufio_Flush wr es (b\<lparr>bw_buf := bw_buf b @ take ?n p\<rparr>) s = (r, b1, s1)"
      by (metis prod.exhaust)
    have loop: "bufio_Write_loop wr es p nn b s
        = bufio_Write_loop wr es (drop ?n p) (nn + int ?n) b1 s1"
      by (rule Write_loop_fill [OF 3(1) assms(1) 3(2) f])
    have str: "out s1 @ bw_buf b1 = out s @ bw_buf b @ take ?n p"
      using Flush_stream [OF f] by simp
    have sz: "bw_size b1 = bw_size b" and err: "bw_err b1 = r"
      using Flush_size [OF f] Flush_result [OF f] by simp_all
    have wf: "bufio_wf b1"
      using f assms(2) 3 by (intro Flush_wf [OF _ f]) (auto simp: bufio_wf_def bufio_Available_def)
    show ?thesis
    proof (cases r)
      case None
      then have empty: "bw_buf b1 = []"
        using f by (auto dest: Flush_ok_empty)
      obtain k b' s' where k: "bufio_Write_loop wr es (drop ?n p) (nn + int ?n) b1 s1
            = Some (drop k (drop ?n p), nn + int ?n + int k, b', s')"
          "k \<le> length (drop ?n p)" "out s' = out s1 @ take k (drop ?n p)" "bw_size b' = bw_size b1"
          "bw_buf b' = []" "bw_err b' = None \<longrightarrow> length (drop ?n p) - k \<le> bw_size b1"
        using Write_loop_empty [OF err [unfolded None] empty, of es "drop ?n p" "nn + int ?n" s1]
        by (elim exE conjE) (rule that; assumption)
      have take: "take (k + ?n) p = take ?n p @ take k (drop ?n p)"
        by (simp only: add.commute [of k] take_add)
      have "bw_err b' = None \<longrightarrow> length p - (k + ?n) \<le> bufio_Available b'" "bufio_wf b'"
          "k + ?n \<le> length p"
        using k(2,4-6) sz 3(1) by (auto simp: bufio_wf_def bufio_Available_def [of b'])
      then show ?thesis
        using k(1,3-5) loop str empty sz take
        by (intro exI [of _ "k + ?n"] exI [of _ b'] exI [of _ s'] conjI) simp_all
    next
      case (Some e)
      then show ?thesis
        using loop str sz wf err 3(1)
        by (intro exI [of _ ?n]) (simp add: Write_loop_stop)
    qed
  qed
qed

text \<open>\<^verbatim>\<open>bufio.Writer.Write\<close> returns, and reports exactly the bytes it took.\<close>

lemma bufio_Write_total:
  assumes "bufio_wf b"
  shows "\<exists>k e b' s'. bufio_Write wr es p b s = Some ((int k, e), b', s')
    \<and> k \<le> length p \<and> (e = None \<longrightarrow> k = length p)
    \<and> out s' @ bw_buf b' = out s @ bw_buf b @ take k p
    \<and> bw_err b' = e \<and> bw_size b' = bw_size b \<and> bufio_wf b'"
proof (cases "bw_err b")
  case (Some e)
  then show ?thesis
    using assms by (intro exI [of _ 0]) (simp add: bufio_Write_err)
next
  case None
  obtain k b1 s1 where k: "bufio_Write_loop wr es p 0 b s = Some (drop k p, int k, b1, s1)"
      "k \<le> length p" "out s1 @ bw_buf b1 = out s @ bw_buf b @ take k p"
      "bw_size b1 = bw_size b" "bufio_wf b1"
      "bw_err b1 = None \<longrightarrow> length p - k \<le> bufio_Available b1"
    using Write_loop_total [OF None assms, of es p 0 s] by auto
  show ?thesis
  proof (cases "bw_err b1")
    case err: None
    have "out s1 @ bw_buf b1 @ drop k p = out s @ bw_buf b @ p"
      using k(3) by (metis append.assoc append_take_drop_id)
    then show ?thesis
      using k err by (intro exI [of _ "length p"])
        (auto simp: bufio_Write_def bufio_wf_def bufio_Available_def)
  next
    case (Some e)
    then show ?thesis
      using k by (intro exI [of _ k]) (simp add: bufio_Write_def)
  qed
qed

text \<open>The syncer over such a sink: the invariant of its writer, and every operation.\<close>

lemma BWS_Write_total:
  assumes "initialized w" and "bufio_wf (writer w)"
  shows "\<exists>k e b' s'. BWS_Write wr es p w s = Some ((int k, e), w\<lparr>writer := b'\<rparr>, s')
    \<and> k \<le> length p \<and> (e = None \<longrightarrow> k = length p)
    \<and> out s' @ bw_buf b' = out s @ bw_buf (writer w) @ take k p
    \<and> bw_err b' = e \<and> bw_size b' = bw_size (writer w) \<and> bufio_wf b'"
proof (cases "bufio_Available (writer w) < length p \<and> 0 < bufio_Buffered (writer w)")
  case True
  obtain r b1 s1 where f: "bufio_Flush wr es (writer w) s = (r, b1, s1)"
    by (metis prod.exhaust)
  have b1: "out s1 @ bw_buf b1 = out s @ bw_buf (writer w)" "bw_size b1 = bw_size (writer w)"
      "bw_err b1 = r" "bufio_wf b1"
    using Flush_stream [OF f] Flush_size [OF f] Flush_result [OF f] Flush_wf [OF assms(2) f]
    by simp_all
  show ?thesis
  proof (cases r)
    case None
    have assoc: "out s1 @ bw_buf b1 @ q = out s @ bw_buf (writer w) @ q" for q
      using b1(1) by (metis append.assoc)
    have "BWS_Write wr es p w s = map_option (\<lambda>(r, b', s'). (r, w\<lparr>writer := b'\<rparr>, s'))
        (bufio_Write wr es p b1 s1)"
      using True f None assms(1) by (simp add: BWS_Write_def)
    then show ?thesis
      using bufio_Write_total [OF b1(4), of es p s1] b1(2) by (fastforce simp: assoc)
  next
    case (Some e)
    then show ?thesis
      using True f b1 assms(1)
      by (intro exI [of _ 0] exI [of _ "Some e"] exI [of _ b1] exI [of _ s1])
        (simp add: BWS_Write_def)
  qed
next
  case False
  then have "BWS_Write wr es p w s = map_option (\<lambda>(r, b', s'). (r, w\<lparr>writer := b'\<rparr>, s'))
      (bufio_Write wr es p (writer w) s)"
    using assms(1) by (auto simp: BWS_Write_def)
  then show ?thesis
    using bufio_Write_total [OF assms(2), of es p s] by fastforce
qed

lemma BWS_Sync_stream:
  assumes "BWS_Sync app wr sy es w s = (e, w', s')" and "initialized w"
  shows "out s' @ bw_buf (writer w') = out s @ bw_buf (writer w)"
  using assms by (auto simp: BWS_Sync_def dest!: sync_keeps Flush_stream split: prod.splits)

text \<open>Every operation of a syncer, initialized or not: it returns, and the stream of bytes that
  the sink and the buffer hold grows by exactly what it reports.\<close>

lemma BWS_do_total:
  assumes "bws_wf w"
  shows "\<exists>k e w' s'. BWS_do app wr sy es op w s = Some ((int k, e), w', s') \<and> bws_wf w'
    \<and> k \<le> length (op_bytes op)
    \<and> out s' @ bw_buf (writer w') = out s @ bw_buf (writer w) @ take k (op_bytes op)
    \<and> (bw_err (writer w') = None \<longrightarrow> k = length (op_bytes op))
    \<and> (bw_err (writer w) \<noteq> None \<longrightarrow> k = 0 \<and> bw_err (writer w') \<noteq> None)"
proof (cases op)
  case (OpWrite p)
  obtain w1 where w1: "BWS_Write wr es p w s = BWS_Write wr es p w1 s" "initialized w1" "bws_wf w1"
      "bw_buf (writer w1) = bw_buf (writer w)" "bw_err (writer w1) = bw_err (writer w)"
    using BWS_Write_initialized [OF assms, of wr es p s] by blast
  have wf: "bufio_wf (writer w1)"
    using w1 by (simp add: bws_wf_def)
  show ?thesis
  proof (cases "bw_err (writer w1)")
    case None
    then show ?thesis
      using BWS_Write_total [OF w1(2) wf, of es p s] w1 OpWrite
      by (fastforce simp: bws_wf_def)
  next
    case (Some e)
    then show ?thesis
      using BWS_Write_sticky [OF w1(2) Some, of wr es p s] w1 OpWrite by fastforce
  qed
next
  case OpSync
  obtain e w' s' where y: "BWS_Sync app wr sy es w s = (e, w', s')"
    by (metis prod.exhaust)
  have "bws_wf w'" "bw_err (writer w) \<noteq> None \<longrightarrow> bw_err (writer w') \<noteq> None"
    using y assms by (auto simp: BWS_Sync_def bws_wf_def Flush_wf Flush_err split: prod.splits if_splits
      dest: Flush_wf)
  moreover have "out s' @ bw_buf (writer w') = out s @ bw_buf (writer w)"
    using y BWS_Sync_stream [OF y] sync_keeps by (cases "initialized w") (auto simp: BWS_Sync_def split: prod.splits)
  ultimately show ?thesis
    using y OpSync by simp
qed

lemma BWS_run_prefix:
  assumes "bws_wf w"
  shows "\<exists>k rs w' s'. BWS_run app wr sy es ops w s = Some (rs, w', s') \<and> bws_wf w'
    \<and> out s' @ bw_buf (writer w') = out s @ bw_buf (writer w) @ take k (concat (writes_of ops))
    \<and> (bw_err (writer w') = None \<longrightarrow> k = length (concat (writes_of ops)))
    \<and> (bw_err (writer w) \<noteq> None \<longrightarrow> k = 0 \<and> bw_err (writer w') \<noteq> None)"
  using assms
proof (induction ops arbitrary: w s)
  case Nil
  then show ?case by (intro exI [of _ 0]) simp
next
  case (Cons op ops)
  obtain k e w1 s1 where op: "BWS_do app wr sy es op w s = Some ((int k, e), w1, s1)" "bws_wf w1"
      "k \<le> length (op_bytes op)"
      "out s1 @ bw_buf (writer w1) = out s @ bw_buf (writer w) @ take k (op_bytes op)"
      "bw_err (writer w1) = None \<longrightarrow> k = length (op_bytes op)"
      "bw_err (writer w) \<noteq> None \<longrightarrow> k = 0 \<and> bw_err (writer w1) \<noteq> None"
    using BWS_do_total [OF Cons.prems, of app es op s]
    by (elim exE conjE) (rule that; assumption)
  obtain j rs w' s' where rest: "BWS_run app wr sy es ops w1 s1 = Some (rs, w', s')" "bws_wf w'"
      "out s' @ bw_buf (writer w') = out s1 @ bw_buf (writer w1) @ take j (concat (writes_of ops))"
      "bw_err (writer w') = None \<longrightarrow> j = length (concat (writes_of ops))"
      "bw_err (writer w1) \<noteq> None \<longrightarrow> j = 0 \<and> bw_err (writer w') \<noteq> None"
    using Cons.IH [OF op(2), of s1] by (elim exE conjE) (rule that; assumption)
  have ops: "concat (writes_of (op # ops)) = op_bytes op @ concat (writes_of ops)"
    by (cases op) simp_all
  have "take (k + j) (concat (writes_of (op # ops))) = take k (op_bytes op) @ take j (concat (writes_of ops))"
  proof (cases "bw_err (writer w1)")
    case None
    then show ?thesis using op(5) ops by simp
  next
    case (Some e)
    then show ?thesis using rest(5) op(3) ops by simp
  qed
  then have "out s' @ bw_buf (writer w')
      = out s @ bw_buf (writer w) @ take (k + j) (concat (writes_of (op # ops)))"
    using rest(3) op(4) by (metis append.assoc)
  then show ?case
    using op(1,5,6) rest(1,2,4,5) ops by (intro exI [of _ "k + j"]) auto
qed

end
section \<open>Batching\<close>

text \<open>What the syncer promises: messages are collected, and a group of whole messages is written
  in one go when the next message does not fit, or on \<^verbatim>\<open>Sync\<close>.  The state is the messages waiting
  and the groups written.\<close>

type_synonym batch = "bytes list \<times> bytes list list"

fun batch_flush :: "batch \<Rightarrow> batch" where
  "batch_flush (pending, groups) =
     (if concat pending = [] then (pending, groups) else ([], groups @ [pending]))"

fun batch_add :: "nat \<Rightarrow> bytes \<Rightarrow> batch \<Rightarrow> batch" where
  "batch_add N p (pending, groups) =
     (if length p \<le> N then (pending @ [p], groups) else ([], groups @ [pending @ [p]]))"

fun batch_op :: "nat \<Rightarrow> bws_op \<Rightarrow> batch \<Rightarrow> batch" where
  "batch_op N OpSync b = batch_flush b"
| "batch_op N (OpWrite p) b =
     batch_add N p (if N < length (concat (fst b)) + length p then batch_flush b else b)"

definition batch_run :: "nat \<Rightarrow> bws_op list \<Rightarrow> batch" where
  "batch_run N ops = fold (batch_op N) ops ([], [])"

definition batch_wf :: "nat \<Rightarrow> batch \<Rightarrow> bool" where
  "batch_wf N b \<longleftrightarrow> length (concat (fst b)) \<le> N
     \<and> (\<forall>g \<in> set (snd b). length (concat g) \<le> N \<or> (\<exists>p \<in> set g. concat g = p))"

lemma batch_flush_wf: "batch_wf N b \<Longrightarrow> batch_wf N (batch_flush b)"
  by (cases b) (auto simp: batch_wf_def)

lemma batch_add_wf:
  "batch_wf N b \<Longrightarrow> length (concat (fst b)) + length p \<le> N \<or> concat (fst b) = []
    \<Longrightarrow> batch_wf N (batch_add N p b)"
  by (cases b) (auto simp: batch_wf_def simp del: concat_eq_Nil_conv)

lemma batch_flush_empty: "concat (fst (batch_flush b)) = []"
  by (cases b) simp

lemma batch_op_wf: "batch_wf N b \<Longrightarrow> batch_wf N (batch_op N op b)"
  by (cases op) (auto intro!: batch_add_wf batch_flush_wf simp: batch_flush_empty)

lemma batch_op_stream:
  "concat (snd (batch_op N op b)) @ fst (batch_op N op b) = concat (snd b) @ fst b @ writes_of [op]"
  by (cases b, cases op) auto

lemma batch_fold_stream:
  "concat (snd (fold (batch_op N) ops b)) @ fst (fold (batch_op N) ops b)
     = concat (snd b) @ fst b @ writes_of ops"
proof (induction ops arbitrary: b)
  case (Cons op ops)
  have "writes_of (op # ops) = writes_of [op] @ writes_of ops"
    by (cases op) simp_all
  then show ?case
    using Cons batch_op_stream [of N op b] by (metis append.assoc fold_simps(2))
qed simp

lemma batch_fold_wf: "batch_wf N b \<Longrightarrow> batch_wf N (fold (batch_op N) ops b)"
  by (induction ops arbitrary: b) (simp_all add: batch_op_wf)

lemma batch_run_stream: "concat (snd (batch_run N ops)) @ fst (batch_run N ops) = writes_of ops"
  using batch_fold_stream [of N ops "([], [])"] by (simp add: batch_run_def)

lemma batch_run_wf: "batch_wf N (batch_run N ops)"
  unfolding batch_run_def by (rule batch_fold_wf) (simp add: batch_wf_def)

lemma batch_op_groups:
  "length (snd (batch_op N op b)) \<le> length (snd b) + (if length (op_bytes op) \<le> N then 1 else 2)"
  by (cases b, cases op) auto

text \<open>A sink that takes everything and records the calls, with a \<^verbatim>\<open>Sync\<close> that writes nothing.\<close>

locale recording_syncer = recording_sink wr chunks
  for wr :: "('s, 'e) write_fn" and chunks :: "'s \<Rightarrow> bytes list" +
  fixes sy :: "('s, 'e) sync_fn"
  assumes sync_writes_nothing: "chunks (snd (sy s)) = chunks s"

sublocale recording_syncer \<subseteq> appending_sink wr sy "\<lambda>s. concat (chunks s)"
proof
  fix p s n e s'
  assume "wr p s = ((n, e), s')"
  then show "concat (chunks s') = concat (chunks s) @ take (nat n) p"
    using accepts [of p s] records [of p s] by simp
next
  fix s e s'
  assume "sy s = (e, s')"
  then show "concat (chunks s') = concat (chunks s)"
    using sync_writes_nothing [of s] by simp
qed

interpretation buffer_syncer: recording_syncer TestBuffer_Write tb_writes TestBuffer_Sync
  by unfold_locales (simp add: TestBuffer_Sync_def)

text \<open>The relation between a syncer with its sink and the abstract state, from the chunks \<open>base\<close>
  that were in the sink at the start.\<close>

definition batch_rel :: "bytes list \<Rightarrow> nat \<Rightarrow> 'e BufferedWriteSyncer \<Rightarrow> bytes list \<Rightarrow> batch \<Rightarrow> bool" where
  "batch_rel base N w cs b \<longleftrightarrow> bw_err (writer w) = None \<and> bw_buf (writer w) = concat (fst b)
     \<and> cs = base @ map concat (snd b) \<and> batch_wf N b
     \<and> (if initialized w then bw_size (writer w) = N
        else concat (fst b) = [] \<and> bws_capacity (Size w) = N \<and> 0 \<le> FlushInterval w)"

context recording_syncer
begin

lemma wr_all: "\<exists>s'. wr p s = ((int (length p), None), s') \<and> chunks s' = chunks s @ [p]"
  using accepts [of p s] records [of p s] by (metis prod.collapse)

lemma Flush_all:
  assumes "bw_err b = None"
  shows "\<exists>s'. bufio_Flush wr es b s = (None, b\<lparr>bw_buf := []\<rparr>, s')
    \<and> chunks s' = chunks s @ (if bw_buf b = [] then [] else [bw_buf b])"
  using assms wr_all [of "bw_buf b" s] by (cases "bw_buf b = []") (auto simp: bufio_Flush_def)

lemma Write_direct:
  assumes "bw_err b = None" and "bw_buf b = []" and "bw_size b < length p"
  shows "\<exists>s'. bufio_Write wr es p b s = Some ((int (length p), None), b, s')
    \<and> chunks s' = chunks s @ [p]"
proof -
  obtain s' where w: "wr p s = ((int (length p), None), s')" "chunks s' = chunks s @ [p]"
    using wr_all by blast
  have "bufio_Write_loop wr es p 0 b s
      = bufio_Write_loop wr es (drop (nat (int (length p))) p) (0 + int (length p)) (b\<lparr>bw_err := None\<rparr>) s'"
    using assms w(1) by (intro Write_loop_direct) (auto simp: bufio_Available_def)
  then have "bufio_Write_loop wr es p 0 b s = Some ([], int (length p), b, s')"
    using assms by (simp add: Write_loop_stop)
  then show ?thesis
    using w(2) assms by (simp add: bufio_Write_def)
qed

text \<open>The refinement, operation by operation.\<close>

lemma Write_batch:
  assumes "initialized w" and "batch_rel base N w (chunks s) b"
  shows "\<exists>b' s'. BWS_Write wr es p w s = Some ((int (length p), None), w\<lparr>writer := b'\<rparr>, s')
    \<and> batch_rel base N (w\<lparr>writer := b'\<rparr>) (chunks s') (batch_op N (OpWrite p) b)"
proof -
  obtain pending groups where b: "b = (pending, groups)"
    by fastforce
  have wf': "batch_wf N (batch_op N (OpWrite p) b)"
    using assms(2) batch_op_wf [of N b "OpWrite p"] by (simp only: batch_rel_def)
  have rel: "bw_err (writer w) = None" "bw_buf (writer w) = concat pending"
      "chunks s = base @ map concat groups" "bw_size (writer w) = N" "length (concat pending) \<le> N"
    using assms b by (auto simp: batch_rel_def batch_wf_def)
  have av: "bufio_Available (writer w) < length p \<longleftrightarrow> N < length (concat pending) + length p"
    using rel by (auto simp: bufio_Available_def)
  have add: "\<exists>b2 s2. bufio_Write wr es p b1 s1 = Some ((int (length p), None), b2, s2)
      \<and> bw_err b2 = None \<and> bw_size b2 = N
      \<and> bw_buf b2 = concat (fst (batch_add N p (pd, gs)))
      \<and> chunks s2 = base @ map concat (snd (batch_add N p (pd, gs)))"
    if "bw_err b1 = None" "bw_size b1 = N" "bw_buf b1 = concat pd" "chunks s1 = base @ map concat gs"
      "length (concat pd) + length p \<le> N \<or> concat pd = []" for b1 s1 pd gs
  proof (cases "length p \<le> N")
    case True
    then have "length p \<le> bufio_Available b1"
      using that by (auto simp: bufio_Available_def simp del: concat_eq_Nil_conv)
    then show ?thesis
      using True that by (simp add: bufio_Write_fits)
  next
    case False
    then show ?thesis
      using that Write_direct [of b1 p es s1] by fastforce
  qed
  show ?thesis
  proof (cases "N < length (concat pending) + length p \<and> concat pending \<noteq> []")
    case True
    obtain s1 where f: "bufio_Flush wr es (writer w) s = (None, (writer w)\<lparr>bw_buf := []\<rparr>, s1)"
        "chunks s1 = chunks s @ [concat pending]"
      using Flush_all [OF rel(1), of es s] rel(2) True by (auto simp del: concat_eq_Nil_conv)
    then show ?thesis
      using add [of "(writer w)\<lparr>bw_buf := []\<rparr>" "[]" s1 "groups @ [pending]"]
        True rel av assms(1) wf' b
      by (fastforce simp: BWS_Write_def bufio_Buffered_def batch_rel_def)
  next
    case False
    then have "\<not> (bufio_Available (writer w) < length p \<and> 0 < bufio_Buffered (writer w))"
      using av rel(2) by (auto simp: bufio_Buffered_def)
    moreover have "batch_op N (OpWrite p) b = batch_add N p (pending, groups)"
      using False b by auto
    ultimately show ?thesis
      using add [of "writer w" pending s groups] False rel assms(1) wf' b
      by (fastforce simp: BWS_Write_def batch_rel_def)
  qed
qed

lemma Sync_batch:
  assumes "batch_rel base N w (chunks s) b"
  shows "\<exists>e w' s'. BWS_Sync app wr sy es w s = (e, w', s')
    \<and> batch_rel base N w' (chunks s') (batch_flush b) \<and> bw_buf (writer w') = []"
proof -
  obtain pending groups where b: "b = (pending, groups)"
    by fastforce
  have wf: "batch_wf N (batch_flush b)"
    using assms by (simp only: batch_rel_def batch_flush_wf)
  have err: "bw_err (writer w) = None"
    using assms by (simp add: batch_rel_def)
  obtain s1 where f: "bufio_Flush wr es (writer w) s = (None, (writer w)\<lparr>bw_buf := []\<rparr>, s1)"
      "chunks s1 = chunks s @ (if bw_buf (writer w) = [] then [] else [bw_buf (writer w)])"
    using Flush_all [OF err, of es s] by blast
  obtain e2 s2 where y: "sy s1 = (e2, s2)" "chunks s2 = chunks s1"
    using sync_writes_nothing by (metis prod.collapse)
  obtain e3 s3 where z: "sy s = (e3, s3)" "chunks s3 = chunks s"
    using sync_writes_nothing by (metis prod.collapse)
  show ?thesis
    using assms b wf f y z
    by (cases "initialized w"; cases "concat pending = []")
      (simp_all add: BWS_Sync_def batch_rel_def del: concat_eq_Nil_conv)
qed

lemma do_batch:
  assumes "batch_rel base N w (chunks s) b"
  shows "\<exists>r w' s'. BWS_do app wr sy es op w s = Some (r, w', s')
    \<and> batch_rel base N w' (chunks s') (batch_op N op b)
    \<and> (\<forall>p. op = OpWrite p \<longrightarrow> r = (int (length p), None))
    \<and> (op = OpSync \<longrightarrow> bw_buf (writer w') = [])"
proof (cases op)
  case (OpWrite p)
  show ?thesis
  proof (cases "initialized w")
    case True
    then show ?thesis
      using Write_batch [OF True assms, of es p] OpWrite by (auto simp del: batch_op.simps)
  next
    case False
    then obtain w1 where w1: "BWS_initialize w = Some w1"
      using assms by (cases "FlushInterval w = 0")
        (auto simp: batch_rel_def BWS_initialize_def defaultFlushInterval_def Let_def)
    then have "initialized w1" "writer w1 = bufio_NewWriterSize (if Size w = 0 then defaultBufferSize else Size w)"
      by (auto simp: BWS_initialize_def Let_def split: if_splits)
    moreover from this have "batch_rel base N w1 (chunks s) b"
      using False assms bws_capacity [of "Size w"]
      by (auto simp: batch_rel_def bufio_NewWriterSize_def)
    moreover have "BWS_Write wr es p w s = BWS_Write wr es p w1 s"
      using False w1 calculation(1) by (simp add: BWS_Write_def)
    ultimately show ?thesis
      using Write_batch [of w1 base N s b es p] OpWrite by (auto simp del: batch_op.simps)
  qed
next
  case OpSync
  then show ?thesis
    using Sync_batch [OF assms, of app es] by auto
qed

lemma run_batch:
  assumes "batch_rel base N w (chunks s) b"
  shows "\<exists>rs w' s'. BWS_run app wr sy es ops w s = Some (rs, w', s')
    \<and> batch_rel base N w' (chunks s') (fold (batch_op N) ops b)
    \<and> (\<forall>(op, r) \<in> set (zip ops rs). \<forall>p. op = OpWrite p \<longrightarrow> r = (int (length p), None))
    \<and> (ops \<noteq> [] \<and> last ops = OpSync \<longrightarrow> bw_buf (writer w') = [])"
  using assms
proof (induction ops arbitrary: w s b)
  case (Cons op ops)
  obtain r w1 s1 where op: "BWS_do app wr sy es op w s = Some (r, w1, s1)"
      "batch_rel base N w1 (chunks s1) (batch_op N op b)"
      "\<forall>p. op = OpWrite p \<longrightarrow> r = (int (length p), None)" "op = OpSync \<longrightarrow> bw_buf (writer w1) = []"
    using do_batch [OF Cons.prems, of app es op] by blast
  show ?case
    using Cons.IH [OF op(2)] op by (cases "ops = []") auto
qed simp

end
section \<open>Properties\<close>



text \<open>C6. No message is lost, reordered or split.  Over a sink that takes what it is given, the
  messages written are, in order, those of the groups the sink received followed by those whose
  bytes are still buffered; each call of the sink carries the bytes of one group of whole
  messages, and is no longer than the buffer unless it is a single message; what is buffered
  fits the buffer; and nothing is buffered after a \<^verbatim>\<open>Sync\<close>.\<close>

theorem bws_messages_whole_and_in_order:
  assumes "recording_syncer wr chunks sy" and "0 \<le> interval"
  shows "\<exists>rs w' s' groups pending.
      BWS_run app wr sy ErrShortWrite ops (new_BufferedWriteSyncer sz interval) s = Some (rs, w', s')
    \<and> writes_of ops = concat groups @ pending
    \<and> chunks s' = chunks s @ map concat groups
    \<and> (\<forall>g \<in> set groups. length (concat g) \<le> bws_capacity sz \<or> (\<exists>p \<in> set g. concat g = p))
    \<and> bw_buf (writer w') = concat pending \<and> length (concat pending) \<le> bws_capacity sz
    \<and> (ops \<noteq> [] \<and> last ops = OpSync \<longrightarrow> concat pending = [])"
proof -
  have "batch_rel (chunks s) (bws_capacity sz) (new_BufferedWriteSyncer sz interval) (chunks s) ([], [])"
    using assms(2) by (simp add: batch_rel_def new_BufferedWriteSyncer_def batch_wf_def)
  from recording_syncer.run_batch [OF assms(1) this, of app ErrShortWrite ops]
  obtain rs w' s' where run:
      "BWS_run app wr sy ErrShortWrite ops (new_BufferedWriteSyncer sz interval) s = Some (rs, w', s')"
      "batch_rel (chunks s) (bws_capacity sz) w' (chunks s') (batch_run (bws_capacity sz) ops)"
      "ops \<noteq> [] \<and> last ops = OpSync \<longrightarrow> bw_buf (writer w') = []"
    unfolding batch_run_def by blast
  then show ?thesis
    using batch_run_stream [of "bws_capacity sz" ops] batch_run_wf [of "bws_capacity sz" ops]
    by (intro exI [of _ rs] exI [of _ w'] exI [of _ s'] exI [of _ "snd (batch_run (bws_capacity sz) ops)"]
        exI [of _ "fst (batch_run (bws_capacity sz) ops)"])
      (simp add: batch_rel_def batch_wf_def)
qed

theorem bws_messages_whole_and_in_order_witness:
  "\<exists>rs w' s' groups pending.
      BWS_run join_errors TestBuffer_Write TestBuffer_Sync ''short write''
        [OpWrite ''ab'', OpWrite ''cd'', OpWrite ''efg'', OpSync]
        (new_BufferedWriteSyncer 5 0) new_TestBuffer = Some (rs, w', s')
    \<and> [''ab'', ''cd'', ''efg''] = concat groups @ pending \<and> tb_writes s' = map concat groups
    \<and> concat pending = []"
  using bws_messages_whole_and_in_order [OF buffer_syncer.recording_syncer_axioms, of 0 join_errors
      "''short write''" "[OpWrite ''ab'', OpWrite ''cd'', OpWrite ''efg'', OpSync]" 5
      "new_TestBuffer :: bytes TestBuffer"]
  by (simp add: new_TestBuffer_def) blast

text \<open>One write makes at most one call of the sink when the message fits the buffer, and at
  most two (one flush and the message itself) when it does not.\<close>

theorem bws_write_flushes_once:
  assumes "recording_syncer wr chunks sy" and "initialized w" and "bufio_wf (writer w)"
    and "bw_err (writer w) = None"
  shows "\<exists>w' s'. BWS_Write wr ErrShortWrite p w s = Some ((int (length p), None), w', s')
    \<and> length (chunks s')
        \<le> length (chunks s) + (if length p \<le> bw_size (writer w) then 1 else 2)"
proof -
  let ?b = "([bw_buf (writer w)], [])"
  have "batch_rel (chunks s) (bw_size (writer w)) w (chunks s) ?b"
    using assms by (simp add: batch_rel_def batch_wf_def bufio_wf_def)
  from recording_syncer.Write_batch [OF assms(1,2) this, of ErrShortWrite p]
  show ?thesis
    using batch_op_groups [of "bw_size (writer w)" "OpWrite p" ?b]
    by (fastforce simp: batch_rel_def simp del: batch_op.simps)
qed

theorem bws_write_flushes_once_witness:
  "\<exists>w' s'. BWS_Write TestBuffer_Write ''short write'' ''cde''
      ((new_BufferedWriteSyncer 4 0)\<lparr>initialized := True, writer := \<lparr>bw_buf = ''ab'', bw_size = 4, bw_err = None\<rparr>\<rparr>)
      new_TestBuffer = Some ((3, None), w', s')
    \<and> length (tb_writes s') \<le> 1"
  using bws_write_flushes_once [OF buffer_syncer.recording_syncer_axioms, of
      "(new_BufferedWriteSyncer 4 0)\<lparr>initialized := True, writer := \<lparr>bw_buf = ''ab'', bw_size = 4, bw_err = None\<rparr>\<rparr>"
      "''short write''" "''cde''" "new_TestBuffer :: bytes TestBuffer"]
  by (simp add: new_TestBuffer_def bufio_wf_def)
text \<open>A disk of a given size, for examples of sinks that fail.\<close>

definition disk_Write :: "nat \<Rightarrow> (bytes, bytes) write_fn" where
  "disk_Write cap p s =
     (let k = min (length p) (cap - length s)
      in ((int k, if k < length p then Some ''disk full'' else None), s @ take k p))"

definition disk_Sync :: "(bytes, bytes) sync_fn" where
  "disk_Sync s = (None, s)"

interpretation disk: appending_sink "disk_Write cap" disk_Sync "\<lambda>s. s"
  by unfold_locales (auto simp: disk_Write_def disk_Sync_def Let_def split: if_splits)

text \<open>C23. Whatever the sink does, as long as it keeps the contract of \<^verbatim>\<open>io.Writer\<close>: any sequence
  of writes and syncs from a new syncer returns, and what the sink has taken followed by what is
  still buffered is what the sink held before followed by a prefix of the bytes written, all of
  them if no error is pending.  So bytes are never reordered or duplicated, and none is skipped
  before one that arrives.\<close>

theorem bws_stream_prefix:
  assumes "appending_sink wr sy out" and "0 \<le> interval"
  shows "\<exists>k rs w' s'. BWS_run app wr sy ErrShortWrite ops (new_BufferedWriteSyncer sz interval) s
      = Some (rs, w', s')
    \<and> out s' @ bw_buf (writer w') = out s @ take k (concat (writes_of ops))
    \<and> (bw_err (writer w') = None \<longrightarrow> k = length (concat (writes_of ops)))"
proof -
  have wf: "bws_wf (new_BufferedWriteSyncer sz interval)"
    using assms(2) by simp
  show ?thesis
    using appending_sink.BWS_run_prefix [OF assms(1) wf, of app ErrShortWrite ops s]
    unfolding new_bws_buf append_Nil by (elim exE conjE, intro exI conjI) assumption+
qed

theorem bws_stream_prefix_witness:
  "\<exists>k rs w' s'. BWS_run join_errors (disk_Write 5) disk_Sync ''short write''
        [OpWrite ''abcd'', OpWrite ''efgh'', OpSync, OpWrite ''ij''] (new_BufferedWriteSyncer 4 0) []
      = Some (rs, w', s')
    \<and> s' @ bw_buf (writer w') = take k ''abcdefghij''"
  using bws_stream_prefix [OF disk.appending_sink_axioms [of 5], of 0 join_errors "''short write''"
      "[OpWrite ''abcd'', OpWrite ''efgh'', OpSync, OpWrite ''ij'']" 4 "[]"]
  by (simp only: writes_of.simps concat.simps append.simps) blast

text \<open>An error of the sink is never forgotten: once the buffered writer has one, every write
  returns it with the count 0 and does not call the sink, and every sync returns an error, after
  syncing the sink.\<close>

theorem bws_error_sticky:
  assumes "multierr_ok app" and "initialized w" and "bw_err (writer w) = Some e"
  shows "BWS_Write wr ErrShortWrite p w s = Some ((0, Some e), w, s)
    \<and> (\<exists>e'. BWS_Sync app wr sy ErrShortWrite w s = (Some e', w, snd (sy s)))"
proof -
  have "app (Some e) (fst (sy s)) \<noteq> None"
    using multierr_None [OF assms(1)] by blast
  then show ?thesis
    using assms by (auto simp: BWS_Write_sticky BWS_Sync_def Flush_err split: prod.split)
qed

theorem bws_error_sticky_witness:
  "BWS_Write (disk_Write 5) ''short write'' ''ij''
      ((new_BufferedWriteSyncer 4 0)\<lparr>initialized := True,
         writer := \<lparr>bw_buf = ''fgh'', bw_size = 4, bw_err = Some ''disk full''\<rparr>\<rparr>) ''abcde''
    = Some ((0, Some ''disk full''), (new_BufferedWriteSyncer 4 0)\<lparr>initialized := True,
         writer := \<lparr>bw_buf = ''fgh'', bw_size = 4, bw_err = Some ''disk full''\<rparr>\<rparr>, ''abcde'')"
  using bws_error_sticky [OF multierr_ok_join_errors, of
      "(new_BufferedWriteSyncer 4 0)\<lparr>initialized := True,
         writer := \<lparr>bw_buf = ''fgh'', bw_size = 4, bw_err = Some ''disk full''\<rparr>\<rparr>" "''disk full''"
      "disk_Write 5" "''short write''" "''ij''" "''abcde''" disk_Sync]
  by simp

end
