(* ===== verification/Flush_Loop.thy ===== *)
theory Flush_Loop
  imports Buffered_Write_Syncer
begin

text \<open>
  \<^verbatim>\<open>src/zapcore/buffered_write_syncer.go\<close> with all its goroutines: any number of callers of
  \<^verbatim>\<open>Write\<close>, \<^verbatim>\<open>Sync\<close> and \<^verbatim>\<open>Stop\<close>, and the goroutine \<^verbatim>\<open>flushLoop\<close> that the first write starts.

  A state has a program counter for each goroutine.  Taking the mutex is a step of its own; a
  critical section and the unlock after it are one step, since everything the section touches is
  guarded by the mutex, which its goroutine holds from the step before.  The ticker may fire at
  any time, also after \<^verbatim>\<open>ticker.Stop\<close>, when a tick may still be in its channel.
\<close>

section \<open>States and steps\<close>

datatype caller_pc =
    CIdle
  | CWrite bytes | CWriting bytes    \<comment> \<open>in Write: waiting for the mutex, holding it\<close>
  | CSync bool | CSyncing bool       \<comment> \<open>in Sync, the same; True: called by Stop\<close>
  | CStop | CStopping                \<comment> \<open>in the critical section of Stop, the same\<close>
  | CStopWait                        \<comment> \<open>at <-s.done\<close>

datatype loop_pc =
    LNone                            \<comment> \<open>not started\<close>
  | LSelect
  | LSync | LSyncing                 \<comment> \<open>in Sync after a tick: waiting for the mutex, holding it\<close>
  | LExited

datatype agent = Caller nat | FlushLoop

record ('s, 'e) bws_state =
  bws :: "'e BufferedWriteSyncer"
  sink :: 's
  mu :: "agent option"
  pcs :: "nat \<Rightarrow> caller_pc"
  flushLoop :: loop_pc
  msgs :: "bytes list"               \<comment> \<open>the messages of the writes that returned, in order\<close>

definition bws_init :: "int \<Rightarrow> int \<Rightarrow> 's \<Rightarrow> ('s, 'e) bws_state" where
  "bws_init sz interval s =
     \<lparr>bws = new_BufferedWriteSyncer sz interval, sink = s, mu = None, pcs = (\<lambda>_. CIdle),
      flushLoop = LNone, msgs = []\<rparr>"

text \<open>A call is made.\<close>

inductive bws_call :: "('s, 'e) bws_state \<Rightarrow> ('s, 'e) bws_state \<Rightarrow> bool" where
  call_write: "pcs s i = CIdle \<Longrightarrow> bws_call s (s\<lparr>pcs := (pcs s)(i := CWrite p)\<rparr>)"
| call_sync: "pcs s i = CIdle \<Longrightarrow> bws_call s (s\<lparr>pcs := (pcs s)(i := CSync False)\<rparr>)"
| call_stop: "pcs s i = CIdle \<Longrightarrow> bws_call s (s\<lparr>pcs := (pcs s)(i := CStop)\<rparr>)"

text \<open>A goroutine in a call, or the flush loop, makes a step.\<close>

inductive bws_move ::
    "('e option \<Rightarrow> 'e option \<Rightarrow> 'e option) \<Rightarrow> ('s, 'e) write_fn \<Rightarrow> ('s, 'e) sync_fn \<Rightarrow> 'e
      \<Rightarrow> ('s, 'e) bws_state \<Rightarrow> ('s, 'e) bws_state \<Rightarrow> bool"
  for app wr sy es where
  lock_write: "pcs s i = CWrite p \<Longrightarrow> mu s = None
    \<Longrightarrow> bws_move app wr sy es s (s\<lparr>pcs := (pcs s)(i := CWriting p), mu := Some (Caller i)\<rparr>)"
| lock_sync: "pcs s i = CSync b \<Longrightarrow> mu s = None
    \<Longrightarrow> bws_move app wr sy es s (s\<lparr>pcs := (pcs s)(i := CSyncing b), mu := Some (Caller i)\<rparr>)"
| lock_stop: "pcs s i = CStop \<Longrightarrow> mu s = None
    \<Longrightarrow> bws_move app wr sy es s (s\<lparr>pcs := (pcs s)(i := CStopping), mu := Some (Caller i)\<rparr>)"
| do_write: "pcs s i = CWriting p \<Longrightarrow> BWS_Write wr es p (bws s) (sink s) = Some (r, w', s')
    \<Longrightarrow> bws_move app wr sy es s
          (s\<lparr>bws := w', sink := s', pcs := (pcs s)(i := CIdle), mu := None,
             flushLoop := (if initialized (bws s) then flushLoop s else LSelect),
             msgs := msgs s @ [p]\<rparr>)"
| do_sync: "pcs s i = CSyncing b \<Longrightarrow> BWS_Sync app wr sy es (bws s) (sink s) = (e, w', s')
    \<Longrightarrow> bws_move app wr sy es s
          (s\<lparr>bws := w', sink := s', pcs := (pcs s)(i := CIdle), mu := None\<rparr>)"
| do_stop: "pcs s i = CStopping \<Longrightarrow> BWS_Stop_critical (bws s) = (b, w')
    \<Longrightarrow> bws_move app wr sy es s
          (s\<lparr>bws := w', pcs := (pcs s)(i := (if b then CStopWait else CIdle)), mu := None\<rparr>)"
| stop_wait: "pcs s i = CStopWait \<Longrightarrow> done_closed (bws s)
    \<Longrightarrow> bws_move app wr sy es s (s\<lparr>pcs := (pcs s)(i := CSync True)\<rparr>)"
| loop_tick: "flushLoop s = LSelect \<Longrightarrow> bws_move app wr sy es s (s\<lparr>flushLoop := LSync\<rparr>)"
| loop_lock: "flushLoop s = LSync \<Longrightarrow> mu s = None
    \<Longrightarrow> bws_move app wr sy es s (s\<lparr>flushLoop := LSyncing, mu := Some FlushLoop\<rparr>)"
| loop_sync: "flushLoop s = LSyncing \<Longrightarrow> BWS_Sync app wr sy es (bws s) (sink s) = (e, w', s')
    \<Longrightarrow> bws_move app wr sy es s (s\<lparr>bws := w', sink := s', flushLoop := LSelect, mu := None\<rparr>)"
| loop_stop: "flushLoop s = LSelect \<Longrightarrow> stop_closed (bws s)
    \<Longrightarrow> bws_move app wr sy es s (s\<lparr>flushLoop := LExited, bws := (bws s)\<lparr>done_closed := True\<rparr>\<rparr>)"

inductive_cases bws_callE: "bws_call s t"
inductive_cases bws_moveE: "bws_move app wr sy es s t"

inductive bws_reachable ::
    "('e option \<Rightarrow> 'e option \<Rightarrow> 'e option) \<Rightarrow> ('s, 'e) write_fn \<Rightarrow> ('s, 'e) sync_fn \<Rightarrow> 'e
      \<Rightarrow> int \<Rightarrow> int \<Rightarrow> 's \<Rightarrow> ('s, 'e) bws_state \<Rightarrow> bool"
  for app wr sy es sz interval s0 where
  br_init: "bws_reachable app wr sy es sz interval s0 (bws_init sz interval s0)"
| br_call: "bws_reachable app wr sy es sz interval s0 s \<Longrightarrow> bws_call s t
    \<Longrightarrow> bws_reachable app wr sy es sz interval s0 t"
| br_move: "bws_reachable app wr sy es sz interval s0 s \<Longrightarrow> bws_move app wr sy es s t
    \<Longrightarrow> bws_reachable app wr sy es sz interval s0 t"

section \<open>Invariants\<close>

fun holds_mutex :: "caller_pc \<Rightarrow> bool" where
  "holds_mutex (CWriting _) = True"
| "holds_mutex (CSyncing _) = True"
| "holds_mutex CStopping = True"
| "holds_mutex _ = False"

text \<open>Past the critical section of the call of \<^verbatim>\<open>Stop\<close> that found the syncer running.\<close>

fun is_stopper :: "caller_pc \<Rightarrow> bool" where
  "is_stopper CStopWait = True"
| "is_stopper (CSync b) = b"
| "is_stopper (CSyncing b) = b"
| "is_stopper _ = False"

definition mutex_inv :: "('s, 'e) bws_state \<Rightarrow> bool" where
  "mutex_inv s \<longleftrightarrow> (\<forall>i. holds_mutex (pcs s i) \<longleftrightarrow> mu s = Some (Caller i))
     \<and> (flushLoop s = LSyncing \<longleftrightarrow> mu s = Some FlushLoop)"

definition stopper_inv :: "(nat \<Rightarrow> caller_pc) \<Rightarrow> 'e BufferedWriteSyncer \<Rightarrow> bool" where
  "stopper_inv P w \<longleftrightarrow>
     (\<forall>i. is_stopper (P i) \<longrightarrow> stopped w \<and> (P i = CStopWait \<or> done_closed w))
   \<and> (\<forall>i j. is_stopper (P i) \<and> is_stopper (P j) \<longrightarrow> i = j)"

definition lifecycle_inv :: "'e BufferedWriteSyncer \<Rightarrow> loop_pc \<Rightarrow> bool" where
  "lifecycle_inv w l \<longleftrightarrow>
     (initialized w \<longleftrightarrow> l \<noteq> LNone) \<and> (stopped w \<longleftrightarrow> stop_closed w)
   \<and> (stopped w \<longrightarrow> initialized w) \<and> (done_closed w \<longleftrightarrow> l = LExited)
   \<and> (done_closed w \<longrightarrow> stop_closed w)"

lemma stopper_inv_upd:
  assumes "stopper_inv P w" and "is_stopper c \<Longrightarrow> is_stopper (P i) \<and> (c = CStopWait \<or> done_closed w')"
    and "stopped w \<Longrightarrow> stopped w'" and "done_closed w \<Longrightarrow> done_closed w'"
  shows "stopper_inv (P(i := c)) w'"
proof -
  have old: "stopped w' \<and> (P j = CStopWait \<or> done_closed w')" if "is_stopper (P j)" for j
    using assms(1,3,4) that unfolding stopper_inv_def by blast
  have one: "is_stopper (P j) \<Longrightarrow> is_stopper (P k) \<Longrightarrow> j = k" for j k
    using assms(1) unfolding stopper_inv_def by blast
  show ?thesis
    unfolding stopper_inv_def using old one assms(2) by (simp add: fun_upd_def) metis
qed

lemmas stopper_inv_if = stopper_inv_upd [unfolded fun_upd_def]

lemma stopper_inv_mono:
  assumes "stopper_inv P w" and "stopped w \<Longrightarrow> stopped w'" and "done_closed w \<Longrightarrow> done_closed w'"
  shows "stopper_inv P w'"
  using assms unfolding stopper_inv_def by blast

text \<open>What the operations do to the fields that say where in its life the syncer is.\<close>

lemma BWS_Write_fields:
  "BWS_Write wr es p w s = Some (r, w', s') \<Longrightarrow> initialized w' \<and> stopped w' = stopped w
    \<and> (initialized w \<longrightarrow> stop_closed w' = stop_closed w \<and> done_closed w' = done_closed w)
    \<and> (\<not> initialized w \<longrightarrow> \<not> stop_closed w' \<and> \<not> done_closed w')"
  by (auto simp: BWS_Write_def BWS_initialize_def Let_def split: option.splits prod.splits if_splits)

lemma BWS_Sync_fields:
  "BWS_Sync app wr sy es w s = (e, w', s') \<Longrightarrow> initialized w' = initialized w \<and> stopped w' = stopped w
    \<and> stop_closed w' = stop_closed w \<and> done_closed w' = done_closed w"
  by (auto simp: BWS_Sync_def split: prod.splits if_splits)

lemma mutex_inv_call: "bws_call s t \<Longrightarrow> mutex_inv s \<Longrightarrow> mutex_inv t"
  by (induction rule: bws_call.induct) (force simp: mutex_inv_def)+

lemma mutex_inv_holder:
  "mutex_inv s \<Longrightarrow> holds_mutex (pcs s i)
    \<Longrightarrow> mu s = Some (Caller i) \<and> flushLoop s \<noteq> LSyncing \<and> (\<forall>j. j \<noteq> i \<longrightarrow> \<not> holds_mutex (pcs s j))"
  by (auto simp: mutex_inv_def)

lemma mutex_inv_move: "bws_move app wr sy es s t \<Longrightarrow> mutex_inv s \<Longrightarrow> mutex_inv t"
proof (induction rule: bws_move.induct)
  case (do_write s i p r w' s')
  then have "mu s = Some (Caller i) \<and> flushLoop s \<noteq> LSyncing \<and> (\<forall>j. j \<noteq> i \<longrightarrow> \<not> holds_mutex (pcs s j))"
    by (intro mutex_inv_holder) simp_all
  then show ?case
    by (simp add: mutex_inv_def)
next
  case (do_sync s i b e w' s')
  then have "mu s = Some (Caller i) \<and> flushLoop s \<noteq> LSyncing \<and> (\<forall>j. j \<noteq> i \<longrightarrow> \<not> holds_mutex (pcs s j))"
    by (intro mutex_inv_holder) simp_all
  then show ?case
    by (simp add: mutex_inv_def)
next
  case (do_stop s i b w')
  then have "mu s = Some (Caller i) \<and> flushLoop s \<noteq> LSyncing \<and> (\<forall>j. j \<noteq> i \<longrightarrow> \<not> holds_mutex (pcs s j))"
    by (intro mutex_inv_holder) simp_all
  then show ?case
    by (simp add: mutex_inv_def)
next
  case (stop_wait s i)
  then have "mu s \<noteq> Some (Caller i)"
    unfolding mutex_inv_def by (metis holds_mutex.simps)
  with stop_wait show ?case
    by (simp add: mutex_inv_def)
qed (simp_all add: mutex_inv_def)

definition bws_inv :: "('s, 'e) bws_state \<Rightarrow> bool" where
  "bws_inv s \<longleftrightarrow> mutex_inv s \<and> lifecycle_inv (bws s) (flushLoop s) \<and> stopper_inv (pcs s) (bws s)"

lemma bws_inv_call:
  assumes "bws_call s t" and "bws_inv s"
  shows "bws_inv t"
proof -
  have "mutex_inv t"
    using assms mutex_inv_call by (auto simp: bws_inv_def)
  moreover have "stopper_inv (pcs t) (bws t) \<and> bws t = bws s \<and> flushLoop t = flushLoop s"
    using assms by (induction rule: bws_call.induct) (auto simp: bws_inv_def fun_upd_def intro!: stopper_inv_if)
  ultimately show ?thesis
    using assms(2) by (metis bws_inv_def)
qed

lemma lifecycle_inv_move:
  "bws_move app wr sy es s t \<Longrightarrow> lifecycle_inv (bws s) (flushLoop s) \<Longrightarrow> lifecycle_inv (bws t) (flushLoop t)"
proof (induction rule: bws_move.induct)
  case (do_write s i p r w' s')
  then show ?case
    using BWS_Write_fields [OF do_write(2)] by (auto simp: lifecycle_inv_def)
next
  case (do_sync s i b e w' s')
  then show ?case
    using BWS_Sync_fields [OF do_sync(2)] by (auto simp: lifecycle_inv_def)
next
  case (loop_sync s e w' s')
  then show ?case
    using BWS_Sync_fields [OF loop_sync(2)] by (auto simp: lifecycle_inv_def)
next
  case (do_stop s i b w')
  then show ?case
    by (auto simp: lifecycle_inv_def BWS_Stop_critical_def split: if_splits)
qed (auto simp: lifecycle_inv_def)

lemma stopper_inv_move:
  "bws_move app wr sy es s t \<Longrightarrow> bws_inv s \<Longrightarrow> stopper_inv (pcs t) (bws t)"
proof (induction rule: bws_move.induct)
  case (do_write s i p r w' s')
  have "stopped w' = stopped (bws s)" "done_closed (bws s) \<Longrightarrow> done_closed w'"
    using BWS_Write_fields [OF do_write(2)] do_write(3) by (auto simp: bws_inv_def lifecycle_inv_def)
  then show ?case
    using do_write(3) by (auto simp: bws_inv_def fun_upd_def intro!: stopper_inv_if [of _ "bws s"])
next
  case (do_sync s i b e w' s')
  then show ?case
    using BWS_Sync_fields [OF do_sync(2)] by (auto simp: bws_inv_def fun_upd_def intro!: stopper_inv_if [of _ "bws s"])
next
  case (loop_sync s e w' s')
  then show ?case
    using BWS_Sync_fields [OF loop_sync(2)] by (auto simp: bws_inv_def intro: stopper_inv_mono)
next
  case (do_stop s i b w')
  have inv: "stopper_inv (pcs s) (bws s)"
    using do_stop(3) by (simp add: bws_inv_def)
  show ?case
  proof (cases b)
    case True
    then have "\<not> stopped (bws s)" "stopped w'"
      using do_stop(2) by (auto simp: BWS_Stop_critical_def split: if_splits)
    then show ?thesis
      using inv True by (simp add: stopper_inv_def)
  next
    case False
    then have "w' = bws s"
      using do_stop(2) by (auto simp: BWS_Stop_critical_def split: if_splits)
    then show ?thesis
      using inv False by (auto simp: fun_upd_def intro!: stopper_inv_if)
  qed
next
  case (lock_sync s i b)
  then have inv: "stopper_inv (pcs s) (bws s)"
    by (simp add: bws_inv_def)
  then have "b \<Longrightarrow> done_closed (bws s)"
    using lock_sync(1) by (auto simp: stopper_inv_def dest: spec [of _ i])
  with inv show ?case
    using lock_sync(1) by (auto simp: fun_upd_def intro!: stopper_inv_if)
next
  case (stop_wait s i)
  then show ?case
    by (auto simp: bws_inv_def fun_upd_def intro!: stopper_inv_if [of _ "bws s"])
next
  case (loop_stop s)
  then show ?case
    by (auto simp: bws_inv_def intro: stopper_inv_mono)
next
  case (lock_write s i p)
  then show ?case
    by (auto simp: bws_inv_def fun_upd_def intro!: stopper_inv_if)
next
  case (lock_stop s i)
  then show ?case
    by (auto simp: bws_inv_def fun_upd_def intro!: stopper_inv_if)
qed (simp_all add: bws_inv_def)

lemma bws_inv_move: "bws_move app wr sy es s t \<Longrightarrow> bws_inv s \<Longrightarrow> bws_inv t"
  using mutex_inv_move lifecycle_inv_move stopper_inv_move by (metis bws_inv_def)

lemma reachable_inv: "bws_reachable app wr sy es sz interval s0 s \<Longrightarrow> bws_inv s"
proof (induction rule: bws_reachable.induct)
  case br_init
  show ?case
    by (simp add: bws_inv_def mutex_inv_def lifecycle_inv_def stopper_inv_def bws_init_def
      new_BufferedWriteSyncer_def)
qed (auto dest: bws_inv_call bws_inv_move)
section \<open>Progress\<close>

lemma reachable_wf:
  assumes "appending_sink wr sy out" and "0 \<le> interval"
  shows "bws_reachable app wr sy es sz interval s0 s \<Longrightarrow> bws_wf (bws s)"
proof (induction rule: bws_reachable.induct)
  case br_init
  show ?case using assms(2) by (simp add: bws_init_def)
next
  case (br_call s t)
  then show ?case by (auto elim: bws_callE)
next
  case (br_move s t)
  have sync: "bws_wf w'" if "BWS_Sync app wr sy es (bws s) (sink s) = (e, w', s')" for e w' s'
    using appending_sink.BWS_do_total [OF assms(1) br_move.IH, of app es OpSync "sink s"] that by auto
  have wr: "bws_wf w'" if "BWS_Write wr es p (bws s) (sink s) = Some (r, w', s')" for p r w' s'
    using appending_sink.BWS_do_total [OF assms(1) br_move.IH, of app es "OpWrite p" "sink s"] that by auto
  show ?case
    using br_move.hyps(2) br_move.IH sync wr
    by (cases rule: bws_move.cases)
      (auto simp: BWS_Stop_critical_def bws_wf_def split: if_splits)
qed

text \<open>Whoever holds the mutex can finish, so the mutex can always be had.\<close>

lemma mutex_released:
  assumes "appending_sink wr sy out" and "bws_wf (bws s)" and "bws_inv s" and "mu s = Some a"
  shows "\<exists>t. bws_move app wr sy es s t \<and> mu t = None
    \<and> (\<forall>i. \<not> holds_mutex (pcs s i) \<longrightarrow> pcs t i = pcs s i)
    \<and> (\<forall>i. a = Caller i \<longrightarrow> pcs t i = CIdle \<or> pcs s i = CStopping \<and> pcs t i = CStopWait)
    \<and> (if a = FlushLoop then flushLoop t = LSelect
       else initialized (bws s) \<longrightarrow> flushLoop t = flushLoop s)"
proof (cases a)
  case FlushLoop
  then have "flushLoop s = LSyncing"
    using assms by (simp add: bws_inv_def mutex_inv_def)
  moreover obtain e w' s' where "BWS_Sync app wr sy es (bws s) (sink s) = (e, w', s')"
    by (metis prod.exhaust)
  ultimately show ?thesis
    using FlushLoop
    by (intro exI [of _ "s\<lparr>bws := w', sink := s', flushLoop := LSelect, mu := None\<rparr>"])
      (simp add: bws_move.loop_sync)
next
  case (Caller i)
  then have "holds_mutex (pcs s i)"
    using assms by (simp add: bws_inv_def mutex_inv_def)
  then consider p where "pcs s i = CWriting p" | b where "pcs s i = CSyncing b" | "pcs s i = CStopping"
    by (cases "pcs s i") auto
  then show ?thesis
  proof cases
    case 1
    obtain r w' s' where "BWS_Write wr es p (bws s) (sink s) = Some (r, w', s')"
      using appending_sink.BWS_do_total [OF assms(1,2), of app es "OpWrite p" "sink s"] by auto
    then show ?thesis
      using bws_move.do_write [OF 1] 1 Caller by (intro exI conjI) (assumption, auto)
  next
    case 2
    obtain e w' s' where "BWS_Sync app wr sy es (bws s) (sink s) = (e, w', s')"
      by (metis prod.exhaust)
    then show ?thesis
      using bws_move.do_sync [OF 2] 2 Caller by (intro exI conjI) (assumption, auto)
  next
    case 3
    obtain b w' where "BWS_Stop_critical (bws s) = (b, w')"
      by fastforce
    then show ?thesis
      using bws_move.do_stop [OF 3] 3 Caller by (intro exI conjI) (assumption, auto)
  qed
qed

text \<open>The three places where a caller waits for the mutex, and where it is once it has it.\<close>

fun waits_for_mutex :: "caller_pc \<Rightarrow> bool" where
  "waits_for_mutex (CWrite _) = True"
| "waits_for_mutex (CSync _) = True"
| "waits_for_mutex CStop = True"
| "waits_for_mutex _ = False"

fun locked_pc :: "caller_pc \<Rightarrow> caller_pc" where
  "locked_pc (CWrite p) = CWriting p"
| "locked_pc (CSync b) = CSyncing b"
| "locked_pc CStop = CStopping"
| "locked_pc c = c"

lemma waits_not_holds: "waits_for_mutex c \<Longrightarrow> \<not> holds_mutex c"
  by (cases c) auto

lemma waits_locked: "waits_for_mutex c \<Longrightarrow> holds_mutex (locked_pc c)"
  by (cases c) auto

lemma lock_move:
  "mu t = None \<Longrightarrow> waits_for_mutex (pcs t i)
    \<Longrightarrow> bws_move app wr sy es t (t\<lparr>pcs := (pcs t)(i := locked_pc (pcs t i)), mu := Some (Caller i)\<rparr>)"
  by (cases "pcs t i") (auto simp: lock_write lock_sync lock_stop)

text \<open>From here on, the syncer is over a sink that keeps the contract of \<^verbatim>\<open>io.Writer\<close>, so that
  the operations return.\<close>

locale running_bws = appending_sink wr sy out
  for wr :: "('s, 'e) write_fn" and sy :: "('s, 'e) sync_fn" and out :: "'s \<Rightarrow> bytes" +
  fixes app :: "'e option \<Rightarrow> 'e option \<Rightarrow> 'e option" and es :: 'e
    and sz :: int and interval :: int and s0 :: 's
  assumes interval_nonneg: "0 \<le> interval"
begin

abbreviation reach :: "('s, 'e) bws_state \<Rightarrow> bool" where
  "reach s \<equiv> bws_reachable app wr sy es sz interval s0 s"

abbreviation moves :: "('s, 'e) bws_state \<Rightarrow> ('s, 'e) bws_state \<Rightarrow> bool" where
  "moves s t \<equiv> (bws_move app wr sy es)\<^sup>*\<^sup>* s t"

lemma reach_moves: "moves s t \<Longrightarrow> reach s \<Longrightarrow> reach t"
  by (induction rule: rtranclp.induct) (auto intro: br_move)

lemma reach_inv: "reach s \<Longrightarrow> bws_inv s"
  by (rule reachable_inv)

lemma reach_wf: "reach s \<Longrightarrow> bws_wf (bws s)"
  by (rule reachable_wf [OF appending_sink_axioms interval_nonneg])

lemma free_mutex:
  assumes "reach s"
  shows "\<exists>t. moves s t \<and> mu t = None \<and> (\<forall>i. \<not> holds_mutex (pcs s i) \<longrightarrow> pcs t i = pcs s i)
    \<and> (flushLoop s = LSync \<longrightarrow> flushLoop t = LSync)"
proof (cases "mu s")
  case None
  then show ?thesis by blast
next
  case (Some a)
  have loop: "flushLoop s = LSync \<Longrightarrow> a \<noteq> FlushLoop \<and> initialized (bws s)"
    using reach_inv [OF assms] Some by (auto simp: bws_inv_def mutex_inv_def lifecycle_inv_def)
  from mutex_released [OF appending_sink_axioms reach_wf [OF assms] reach_inv [OF assms] Some, of app es]
  show ?thesis
    using loop by (metis r_into_rtranclp)
qed

lemma holder_returns:
  assumes "reach s" and "holds_mutex (pcs s i)"
  shows "\<exists>t. moves s t \<and> (pcs t i = CIdle \<or> pcs s i = CStopping \<and> pcs t i = CStopWait)"
proof -
  have "mu s = Some (Caller i)"
    using assms reach_inv [OF assms(1)] by (simp add: bws_inv_def mutex_inv_def)
  from mutex_released [OF appending_sink_axioms reach_wf [OF assms(1)] reach_inv [OF assms(1)] this, of app es]
  show ?thesis
    by (metis r_into_rtranclp)
qed

lemma waiter_returns:
  assumes "reach s" and "waits_for_mutex (pcs s i)"
  shows "\<exists>t. moves s t \<and> (pcs t i = CIdle \<or> pcs s i = CStop \<and> pcs t i = CStopWait)"
proof -
  obtain t where t: "moves s t" "mu t = None" "pcs t i = pcs s i"
    using free_mutex [OF assms(1)] waits_not_holds [OF assms(2)] by blast
  let ?u = "t\<lparr>pcs := (pcs t)(i := locked_pc (pcs t i)), mu := Some (Caller i)\<rparr>"
  have u: "moves s ?u" "holds_mutex (pcs ?u i)"
    using t lock_move [of t i app wr sy es] waits_locked [of "pcs t i"] assms(2)
    by (auto intro: rtranclp.rtrancl_into_rtrancl)
  obtain v where "moves ?u v" "pcs v i = CIdle \<or> pcs ?u i = CStopping \<and> pcs v i = CStopWait"
    using holder_returns [OF reach_moves [OF u(1) assms(1)] u(2)] by blast
  moreover have "pcs ?u i = CStopping \<Longrightarrow> pcs s i = CStop"
    using t(3) assms(2) by (cases "pcs s i") auto
  ultimately show ?thesis
    using u(1) by (meson rtranclp_trans)
qed

text \<open>The flush loop ends once the stop channel is closed.\<close>

lemma select_exits:
  assumes "reach s" and "pcs s i = CStopWait" and "flushLoop s = LSelect"
  shows "\<exists>t. moves s t \<and> pcs t i = CStopWait \<and> done_closed (bws t)"
proof -
  have "stop_closed (bws s)"
    using reach_inv [OF assms(1)] assms(2)
    by (auto simp: bws_inv_def lifecycle_inv_def stopper_inv_def dest: spec [of _ i])
  then show ?thesis
    using bws_move.loop_stop [of s app wr sy es] assms
    by (intro exI [of _ "s\<lparr>flushLoop := LExited, bws := (bws s)\<lparr>done_closed := True\<rparr>\<rparr>"]) auto
qed

lemma syncing_exits:
  assumes "reach s" and "pcs s i = CStopWait" and "flushLoop s = LSyncing"
  shows "\<exists>t. moves s t \<and> pcs t i = CStopWait \<and> done_closed (bws t)"
proof -
  have "mu s = Some FlushLoop"
    using assms reach_inv [OF assms(1)] by (simp add: bws_inv_def mutex_inv_def)
  from mutex_released [OF appending_sink_axioms reach_wf [OF assms(1)] reach_inv [OF assms(1)] this, of app es]
  obtain t where t: "bws_move app wr sy es s t" "pcs t i = CStopWait" "flushLoop t = LSelect"
    using assms(2) by auto
  then show ?thesis
    using select_exits [OF br_move [OF assms(1) t(1)] t(2,3)]
    by (meson converse_rtranclp_into_rtranclp)
qed

lemma loop_exits:
  assumes "reach s" and "pcs s i = CStopWait"
  shows "\<exists>t. moves s t \<and> pcs t i = CStopWait \<and> done_closed (bws t)"
proof (cases "flushLoop s")
  case LNone
  then show ?thesis
    using reach_inv [OF assms(1)] assms(2)
    by (auto simp: bws_inv_def lifecycle_inv_def stopper_inv_def dest: spec [of _ i])
next
  case LSync
  obtain t where t: "moves s t" "mu t = None" "pcs t i = CStopWait" "flushLoop t = LSync"
    using free_mutex [OF assms(1)] assms(2) LSync by fastforce
  let ?u = "t\<lparr>flushLoop := LSyncing, mu := Some FlushLoop\<rparr>"
  have "moves s ?u"
    using t bws_move.loop_lock [of t app wr sy es] by (auto intro: rtranclp.rtrancl_into_rtrancl)
  then show ?thesis
    using syncing_exits [of ?u i] t(3) reach_moves assms(1) by (auto intro: rtranclp_trans)
next
  case LExited
  then show ?thesis
    using reach_inv [OF assms(1)] assms(2) by (auto simp: bws_inv_def lifecycle_inv_def)
qed (use assms select_exits syncing_exits in blast)+

lemma stop_wait_returns:
  assumes "reach s" and "pcs s i = CStopWait"
  shows "\<exists>t. moves s t \<and> pcs t i = CIdle"
proof -
  obtain t where t: "moves s t" "pcs t i = CStopWait" "done_closed (bws t)"
    using loop_exits [OF assms] by blast
  let ?u = "t\<lparr>pcs := (pcs t)(i := CSync True)\<rparr>"
  have u: "moves s ?u"
    using t bws_move.stop_wait [of t i app wr sy es] by (auto intro: rtranclp.rtrancl_into_rtrancl)
  then show ?thesis
    using waiter_returns [OF reach_moves [OF u assms(1)], of i] by (auto intro: rtranclp_trans)
qed

lemma call_returns:
  assumes "reach s"
  shows "\<exists>t. moves s t \<and> pcs t i = CIdle"
proof -
  consider "pcs s i = CIdle" | "pcs s i = CStopWait" | "waits_for_mutex (pcs s i)"
    | "holds_mutex (pcs s i)" by (cases "pcs s i") auto
  then show ?thesis
  proof cases
    case 3
    then show ?thesis
      using waiter_returns [OF assms] stop_wait_returns reach_moves assms by (meson rtranclp_trans)
  next
    case 4
    then show ?thesis
      using holder_returns [OF assms] stop_wait_returns reach_moves assms by (meson rtranclp_trans)
  qed (use assms stop_wait_returns in blast)+
qed

end
interpretation running_test_buffer:
  running_bws TestBuffer_Write TestBuffer_Sync "\<lambda>s. concat (tb_writes s)"
    join_errors "''short write''" 0 0 new_TestBuffer
  by unfold_locales simp

section \<open>What the sink receives\<close>

definition batched :: "('s \<Rightarrow> bytes list) \<Rightarrow> int \<Rightarrow> 's \<Rightarrow> ('s, 'e) bws_state \<Rightarrow> batch \<Rightarrow> bool" where
  "batched chunks sz s0 s b \<longleftrightarrow>
     batch_rel (chunks s0) (bws_capacity sz) (bws s) (chunks (sink s)) b
   \<and> concat (snd b) @ fst b = msgs s"

lemma batched_move:
  assumes "recording_syncer wr chunks sy" and "bws_move app wr sy es s t" and "batched chunks sz s0 s b"
  shows "\<exists>b'. batched chunks sz s0 t b'"
proof -
  let ?N = "bws_capacity sz"
  have rel: "batch_rel (chunks s0) ?N (bws s) (chunks (sink s)) b" and str: "concat (snd b) @ fst b = msgs s"
    using assms(3) by (auto simp: batched_def)
  have sync: "\<exists>b'. batch_rel (chunks s0) ?N w' (chunks s') b' \<and> concat (snd b') @ fst b' = msgs s"
    if "BWS_Sync app wr sy es (bws s) (sink s) = (e, w', s')" for e w' s'
    using recording_syncer.do_batch [OF assms(1) rel, of app es OpSync]
      batch_op_stream [of ?N OpSync b] str that
    by (intro exI [of _ "batch_flush b"]) (auto simp del: batch_flush.simps)
  have wr: "\<exists>b'. batch_rel (chunks s0) ?N w' (chunks s') b' \<and> concat (snd b') @ fst b' = msgs s @ [p]"
    if "BWS_Write wr es p (bws s) (sink s) = Some (r, w', s')" for p r w' s'
  proof -
    have "concat (snd (batch_op ?N (OpWrite p) b)) @ fst (batch_op ?N (OpWrite p) b) = msgs s @ [p]"
      using batch_op_stream [of ?N "OpWrite p" b] by (simp add: str [symmetric] del: batch_op.simps)
    then show ?thesis
      using recording_syncer.do_batch [OF assms(1) rel, of app es "OpWrite p"] that
      by (intro exI [of _ "batch_op ?N (OpWrite p) b"]) (auto simp del: batch_op.simps)
  qed
  show ?thesis
    using assms(2) rel str
  proof (cases rule: bws_move.cases)
    case (do_stop i b' w')
    then show ?thesis
      using rel str
      by (intro exI [of _ b]) (auto simp: batched_def batch_rel_def BWS_Stop_critical_def split: if_splits)
  next
    case loop_stop
    then show ?thesis
      using rel str by (intro exI [of _ b]) (simp add: batched_def batch_rel_def)
  qed (use rel str in \<open>auto simp: batched_def simp del: split_paired_Ex dest!: sync wr\<close>)
qed

lemma reachable_batched:
  assumes "recording_syncer wr chunks sy" and "0 \<le> interval"
  shows "bws_reachable app wr sy es sz interval s0 s \<Longrightarrow> \<exists>b. batched chunks sz s0 s b"
proof (induction rule: bws_reachable.induct)
  case br_init
  show ?case
    using assms(2) by (intro exI [of _ "([], [])"])
      (simp add: batched_def bws_init_def batch_rel_def new_BufferedWriteSyncer_def batch_wf_def)
next
  case (br_call s t)
  then show ?case
    by (auto simp: batched_def simp del: split_paired_Ex elim!: bws_callE)
next
  case (br_move s t)
  then show ?case
    using batched_move [OF assms(1)] by blast
qed

section \<open>A run\<close>

text \<open>One goroutine writes a message, which starts the flush loop, and stops the syncer: up to the
  wait for the loop, and on to the last sync.\<close>

abbreviation test_reachable :: "(bytes TestBuffer, bytes) bws_state \<Rightarrow> bool" where
  "test_reachable s \<equiv>
     bws_reachable join_errors TestBuffer_Write TestBuffer_Sync ''short write'' 0 0 new_TestBuffer s"

lemma write_example:
  "\<exists>s. test_reachable s \<and> pcs s 0 = CIdle \<and> mu s = None \<and> initialized (bws s) \<and> \<not> stopped (bws s)
    \<and> flushLoop s = LSelect \<and> msgs s = [''ab'']"
proof -
  define s1 :: "(bytes TestBuffer, bytes) bws_state"
    where "s1 = (bws_init 0 0 new_TestBuffer)\<lparr>pcs := (\<lambda>_. CIdle)(0 := CWrite ''ab'')\<rparr>"
  define s2 where "s2 = s1\<lparr>pcs := (pcs s1)(0 := CWriting ''ab''), mu := Some (Caller 0)\<rparr>"
  have "test_reachable s1"
    using br_call [OF br_init call_write [of "bws_init 0 0 new_TestBuffer" 0 "''ab''"]]
    by (simp add: s1_def bws_init_def)
  then have s2: "test_reachable s2"
    using br_move [OF _ lock_write [of s1 0 "''ab''"]] by (simp add: s1_def s2_def bws_init_def)
  obtain r w' s' where w:
      "BWS_Write TestBuffer_Write ''short write'' ''ab'' (bws s2) (sink s2) = Some (r, w', s')"
    using buffer_syncer.BWS_do_total [of "bws s2" join_errors "''short write''" "OpWrite ''ab''" "sink s2"]
    by (auto simp: s1_def s2_def bws_init_def)
  have pc: "pcs s2 0 = CWriting ''ab''"
    by (simp add: s2_def)
  show ?thesis
    using br_move [OF s2 do_write [OF pc w]] BWS_Write_fields [OF w]
    by (intro exI conjI) (assumption, auto simp: s1_def s2_def bws_init_def new_BufferedWriteSyncer_def)
qed

lemma stop_wait_example:
  "\<exists>s. test_reachable s \<and> pcs s 0 = CStopWait \<and> mu s = None \<and> stop_closed (bws s)
    \<and> flushLoop s = LSelect \<and> msgs s = [''ab'']"
proof -
  obtain s where s: "test_reachable s" "pcs s 0 = CIdle" "mu s = None" "initialized (bws s)"
      "\<not> stopped (bws s)" "flushLoop s = LSelect" "msgs s = [''ab'']"
    using write_example by blast
  define s1 where "s1 = s\<lparr>pcs := (pcs s)(0 := CStop)\<rparr>"
  define s2 where "s2 = s1\<lparr>pcs := (pcs s1)(0 := CStopping), mu := Some (Caller 0)\<rparr>"
  have "test_reachable s1"
    using br_call [OF s(1) call_stop [OF s(2)]] by (simp add: s1_def)
  then have s2: "test_reachable s2"
    using br_move [OF _ lock_stop [of s1 0]] s(3) by (simp add: s1_def s2_def)
  have pc: "pcs s2 0 = CStopping"
    by (simp add: s2_def)
  have crit: "BWS_Stop_critical (bws s2) =
      (True, (bws s)\<lparr>stopped := True, ticker := None, stop_closed := True\<rparr>)"
    using s(4,5) by (simp add: s1_def s2_def BWS_Stop_critical_def)
  show ?thesis
    using br_move [OF s2 do_stop [OF pc crit]] s(6,7)
    by (intro exI conjI) (assumption, auto simp: s1_def s2_def)
qed

lemma stop_example:
  "\<exists>s t. test_reachable s \<and> bws_move join_errors TestBuffer_Write TestBuffer_Sync ''short write'' s t
    \<and> pcs s 0 = CSyncing True \<and> pcs t 0 = CIdle \<and> msgs t = [''ab'']"
proof -
  obtain s where s: "test_reachable s" "pcs s 0 = CStopWait" "mu s = None" "stop_closed (bws s)"
      "flushLoop s = LSelect" "msgs s = [''ab'']"
    using stop_wait_example by blast
  define s1 where "s1 = s\<lparr>flushLoop := LExited, bws := (bws s)\<lparr>done_closed := True\<rparr>\<rparr>"
  define s2 where "s2 = s1\<lparr>pcs := (pcs s1)(0 := CSync True)\<rparr>"
  define s3 where "s3 = s2\<lparr>pcs := (pcs s2)(0 := CSyncing True), mu := Some (Caller 0)\<rparr>"
  have "test_reachable s1"
    using br_move [OF s(1) loop_stop [OF s(5,4)]] by (simp add: s1_def)
  then have "test_reachable s2"
    using br_move [OF _ stop_wait [of s1 0]] s(2) by (simp add: s1_def s2_def)
  then have s3: "test_reachable s3"
    using br_move [OF _ lock_sync [of s2 0 True]] s(3) by (simp add: s1_def s2_def s3_def)
  obtain e w' s' where y: "BWS_Sync join_errors TestBuffer_Write TestBuffer_Sync ''short write'' (bws s3) (sink s3)
      = (e, w', s')"
    by (metis prod.exhaust)
  have pc: "pcs s3 0 = CSyncing True"
    by (simp add: s3_def)
  show ?thesis
    using do_sync [OF pc y] s3 pc s(6)
    by (intro exI conjI) (assumption, assumption, auto simp: s1_def s2_def s3_def)
qed

section \<open>Properties\<close>

text \<open>C8. In every interleaving the critical sections of \<^verbatim>\<open>Write\<close>, \<^verbatim>\<open>Sync\<close> and \<^verbatim>\<open>Stop\<close> and the
  periodic sync exclude each other; at most one call of \<^verbatim>\<open>Stop\<close> ever gets to the cleanup; and no
  channel is closed twice: a call of \<^verbatim>\<open>Stop\<close> about to close \<^verbatim>\<open>stop\<close> finds it open, and so does the
  flush loop, which closes \<^verbatim>\<open>done\<close>.\<close>

theorem bws_mutual_exclusion:
  assumes "bws_reachable app wr sy ErrShortWrite sz interval s0 s"
  shows "(holds_mutex (pcs s i) \<longrightarrow> flushLoop s \<noteq> LSyncing \<and> (holds_mutex (pcs s j) \<longrightarrow> j = i))
    \<and> (is_stopper (pcs s i) \<and> is_stopper (pcs s j) \<longrightarrow> i = j)
    \<and> (fst (BWS_Stop_critical (bws s)) \<longrightarrow> \<not> stop_closed (bws s))
    \<and> (flushLoop s = LSelect \<longrightarrow> \<not> done_closed (bws s))"
  using reachable_inv [OF assms]
  by (auto simp: bws_inv_def mutex_inv_def lifecycle_inv_def stopper_inv_def BWS_Stop_critical_def
      split: if_splits)

theorem bws_mutual_exclusion_witness:
  "\<exists>s :: (bytes TestBuffer, bytes) bws_state.
      bws_reachable join_errors TestBuffer_Write TestBuffer_Sync ''short write'' 0 0 new_TestBuffer s
    \<and> pcs s 0 = CSyncing True \<and> flushLoop s \<noteq> LSyncing \<and> \<not> holds_mutex (pcs s 1)"
proof -
  obtain s where s: "test_reachable s" "pcs s 0 = CSyncing True"
    using stop_example by blast
  then show ?thesis
    using bws_mutual_exclusion [OF s(1), of 0 1] by (intro exI [of _ s]) simp
qed

text \<open>C2. No deadlock: from every reachable state, over a sink that keeps the contract of
  \<^verbatim>\<open>io.Writer\<close>, the goroutines and the flush loop can move on, without any new call, until the
  call of the goroutine \<open>i\<close> has returned.  That includes \<^verbatim>\<open>Stop\<close>, which waits for the flush loop
  while the loop may be waiting for the mutex.\<close>

theorem bws_calls_return:
  assumes "appending_sink wr sy out" and "0 \<le> interval"
    and "bws_reachable app wr sy ErrShortWrite sz interval s0 s"
  shows "\<exists>t. (bws_move app wr sy ErrShortWrite)\<^sup>*\<^sup>* s t \<and> pcs t i = CIdle"
proof -
  have "running_bws wr sy out interval"
    using assms(1,2) by (simp add: running_bws_def running_bws_axioms_def)
  then show ?thesis
    by (rule running_bws.call_returns [OF _ assms(3)])
qed

theorem bws_calls_return_witness:
  "\<exists>s t :: (bytes TestBuffer, bytes) bws_state. pcs s 0 = CStopWait
    \<and> (bws_move join_errors TestBuffer_Write TestBuffer_Sync ''short write'')\<^sup>*\<^sup>* s t \<and> pcs t 0 = CIdle"
  using stop_wait_example bws_calls_return [OF buffer_syncer.appending_sink_axioms order_refl] by metis

text \<open>C7. No message is lost, split or reordered by concurrency either: over a sink that takes
  what it is given, in every reachable state the messages of the completed writes, in the order
  in which they held the mutex, are those of the groups the sink has received, one group of whole
  messages per call, followed by those still buffered.\<close>

theorem bws_concurrent_writes:
  assumes "recording_syncer wr chunks sy" and "0 \<le> interval"
    and "bws_reachable app wr sy ErrShortWrite sz interval s0 s"
  shows "\<exists>groups pending. msgs s = concat groups @ pending
    \<and> chunks (sink s) = chunks s0 @ map concat groups
    \<and> bw_buf (writer (bws s)) = concat pending"
proof -
  obtain b where "batched chunks sz s0 s b"
    using reachable_batched [OF assms] by blast
  then show ?thesis
    by (intro exI [of _ "snd b"] exI [of _ "fst b"]) (simp add: batched_def batch_rel_def)
qed

theorem bws_concurrent_writes_witness:
  "\<exists>(s :: (bytes TestBuffer, bytes) bws_state) groups pending. msgs s = [''ab'']
    \<and> [''ab''] = concat groups @ pending \<and> tb_writes (sink s) = map concat groups
    \<and> bw_buf (writer (bws s)) = concat pending"
proof -
  obtain s :: "(bytes TestBuffer, bytes) bws_state" where s: "msgs s = [''ab'']"
      "bws_reachable join_errors TestBuffer_Write TestBuffer_Sync ''short write'' 0 0 new_TestBuffer s"
    using stop_wait_example by blast
  from bws_concurrent_writes [OF buffer_syncer.recording_syncer_axioms order_refl s(2)] s(1)
  show ?thesis
    by (auto simp: new_TestBuffer_def)
qed

text \<open>C9. When the call of \<^verbatim>\<open>Stop\<close> that stops the syncer returns, the flush loop has ended and
  the sink has received the bytes of every completed write.\<close>

theorem bws_stop_flushes:
  assumes "recording_syncer wr chunks sy" and "0 \<le> interval"
    and "bws_reachable app wr sy ErrShortWrite sz interval s0 s"
    and "bws_move app wr sy ErrShortWrite s t" and "pcs s i = CSyncing True" and "pcs t i = CIdle"
  shows "flushLoop t = LExited
    \<and> concat (chunks (sink t)) = concat (chunks s0) @ concat (msgs t)"
proof -
  obtain e w' s' where y: "BWS_Sync app wr sy ErrShortWrite (bws s) (sink s) = (e, w', s')"
      "t = s\<lparr>bws := w', sink := s', pcs := (pcs s)(i := CIdle), mu := None\<rparr>"
    using assms(4-6) by (elim bws_moveE) (auto split: if_splits)
  obtain b where b: "batched chunks sz s0 s b"
    using reachable_batched [OF assms(1-3)] by blast
  then have "\<exists>b'. batch_rel (chunks s0) (bws_capacity sz) w' (chunks s') b'
      \<and> concat (snd b') @ fst b' = msgs s \<and> concat (fst b') = []"
    using recording_syncer.Sync_batch [OF assms(1), of "chunks s0" "bws_capacity sz" "bws s" "sink s" b app
        ErrShortWrite] y(1) batch_op_stream [of "bws_capacity sz" OpSync b] batch_flush_empty [of b]
    by (intro exI [of _ "batch_flush b"])
      (auto simp: batched_def simp del: concat_eq_Nil_conv batch_flush.simps)
  then have "concat (chunks s') = concat (chunks s0) @ concat (msgs s)"
    unfolding batch_rel_def by (metis append.right_neutral concat_append concat_map_concat)
  moreover have "done_closed (bws s)" "done_closed (bws s) \<longleftrightarrow> flushLoop s = LExited"
    using reachable_inv [OF assms(3)] assms(5)
    by (auto simp: bws_inv_def stopper_inv_def lifecycle_inv_def dest: spec [of _ i])
  ultimately show ?thesis
    using y(2) by simp
qed
theorem bws_stop_flushes_witness:
  "\<exists>s t :: (bytes TestBuffer, bytes) bws_state.
      bws_move join_errors TestBuffer_Write TestBuffer_Sync ''short write'' s t
    \<and> flushLoop t = LExited \<and> concat (tb_writes (sink t)) = ''ab''"
proof -
  obtain s t :: "(bytes TestBuffer, bytes) bws_state" where s:
      "bws_reachable join_errors TestBuffer_Write TestBuffer_Sync ''short write'' 0 0 new_TestBuffer s"
      "bws_move join_errors TestBuffer_Write TestBuffer_Sync ''short write'' s t"
      "pcs s 0 = CSyncing True" "pcs t 0 = CIdle" "msgs t = [''ab'']"
    using stop_example by blast
  from bws_stop_flushes [OF buffer_syncer.recording_syncer_axioms order_refl s(1-4)] s(2,5)
  show ?thesis
    by (auto simp: new_TestBuffer_def)
qed

end
