(* ===== verification/Buffer.thy ===== *)
theory Buffer
  imports Zap_Prelude
begin

text \<open>
  \<^verbatim>\<open>src/buffer/buffer.go\<close>, \<^verbatim>\<open>src/buffer/pool.go\<close>, \<^verbatim>\<open>src/internal/pool/pool.go\<close> and
  \<^verbatim>\<open>src/internal/bufferpool/bufferpool.go\<close>: the byte buffer and the pool it is recycled
  through.

  The first half models a \<^verbatim>\<open>Buffer\<close> as the record of its bytes and its pool, one definition per
  method.  The formatters of \<^verbatim>\<open>time\<close> and of floating-point numbers are parameters.  The second
  half models the pool with an explicit store of buffers, since what matters about a pool is
  aliasing: \<^verbatim>\<open>sync.Pool\<close> may hand back any buffer that was put, or a new one, and the choice is
  an argument of \<open>Pool_Get\<close>, so that a theorem for every choice covers every behaviour.
\<close>

section \<open>The buffer\<close>

record Buffer =
  bs :: bytes
  pool :: "nat option"  \<comment> \<open>the pool set by Get; None is the zero Pool of a buffer just made\<close>

definition Buffer_AppendByte :: "char \<Rightarrow> Buffer \<Rightarrow> Buffer" where
  "Buffer_AppendByte v b = b\<lparr>bs := bs b @ [v]\<rparr>"

definition Buffer_AppendBytes :: "bytes \<Rightarrow> Buffer \<Rightarrow> Buffer" where
  "Buffer_AppendBytes v b = b\<lparr>bs := bs b @ v\<rparr>"

definition Buffer_AppendString :: "bytes \<Rightarrow> Buffer \<Rightarrow> Buffer" where
  "Buffer_AppendString s b = b\<lparr>bs := bs b @ s\<rparr>"

definition Buffer_AppendInt :: "int64 \<Rightarrow> Buffer \<Rightarrow> Buffer" where
  "Buffer_AppendInt i b = b\<lparr>bs := bs b @ itoa (sint i)\<rparr>"

definition Buffer_AppendTime :: "('t \<Rightarrow> bytes \<Rightarrow> bytes) \<Rightarrow> 't \<Rightarrow> bytes \<Rightarrow> Buffer \<Rightarrow> Buffer" where
  "Buffer_AppendTime format t layout b = b\<lparr>bs := bs b @ format t layout\<rparr>"

definition Buffer_AppendUint :: "uint64 \<Rightarrow> Buffer \<Rightarrow> Buffer" where
  "Buffer_AppendUint i b = b\<lparr>bs := bs b @ digits (unat i)\<rparr>"

definition Buffer_AppendBool :: "bool \<Rightarrow> Buffer \<Rightarrow> Buffer" where
  "Buffer_AppendBool v b = b\<lparr>bs := bs b @ (if v then ''true'' else ''false'')\<rparr>"

definition Buffer_AppendFloat ::
    "('f \<Rightarrow> nat \<Rightarrow> bytes) \<Rightarrow> 'f \<Rightarrow> nat \<Rightarrow> Buffer \<Rightarrow> Buffer" where
  "Buffer_AppendFloat formatFloat f bitSize b = b\<lparr>bs := bs b @ formatFloat f bitSize\<rparr>"

definition Buffer_Len :: "Buffer \<Rightarrow> nat" where
  "Buffer_Len b = length (bs b)"

definition Buffer_Bytes :: "Buffer \<Rightarrow> bytes" where
  "Buffer_Bytes b = bs b"

definition Buffer_String :: "Buffer \<Rightarrow> bytes" where
  "Buffer_String b = bs b"

definition Buffer_Reset :: "Buffer \<Rightarrow> Buffer" where
  "Buffer_Reset b = b\<lparr>bs := []\<rparr>"

definition Buffer_Write :: "bytes \<Rightarrow> Buffer \<Rightarrow> (nat \<times> 'e option) \<times> Buffer" where
  "Buffer_Write p b = ((length p, None), b\<lparr>bs := bs b @ p\<rparr>)"

definition Buffer_WriteByte :: "char \<Rightarrow> Buffer \<Rightarrow> 'e option \<times> Buffer" where
  "Buffer_WriteByte v b = (None, Buffer_AppendByte v b)"

definition Buffer_WriteString :: "bytes \<Rightarrow> Buffer \<Rightarrow> (nat \<times> 'e option) \<times> Buffer" where
  "Buffer_WriteString s b = ((length s, None), Buffer_AppendString s b)"

text \<open>\<open>i := len(b.bs) - 1\<close> is a Go int, negative for an empty buffer.\<close>

definition Buffer_TrimNewline :: "Buffer \<Rightarrow> Buffer" where
  "Buffer_TrimNewline b =
     (let i = int (length (bs b)) - 1 in
      if i \<ge> 0 then
        if bs b ! nat i = newline then b\<lparr>bs := take (nat i) (bs b)\<rparr> else b
      else b)"

lemma buffer_bytes [buffer_simps]:
  "bs (Buffer_AppendByte v b) = bs b @ [v]"
  "bs (Buffer_AppendBytes p b) = bs b @ p"
  "bs (Buffer_AppendString p b) = bs b @ p"
  "bs (Buffer_AppendInt i b) = bs b @ itoa (sint i)"
  "bs (Buffer_AppendTime format t layout b) = bs b @ format t layout"
  "bs (Buffer_AppendUint u b) = bs b @ digits (unat u)"
  "bs (Buffer_AppendBool x b) = bs b @ (if x then ''true'' else ''false'')"
  "bs (Buffer_AppendFloat formatFloat f n b) = bs b @ formatFloat f n"
  "bs (Buffer_Reset b) = []"
  "bs (snd (Buffer_Write p b)) = bs b @ p"
  "bs (snd (Buffer_WriteByte v b)) = bs b @ [v]"
  "bs (snd (Buffer_WriteString p b)) = bs b @ p"
  by (simp_all add: Buffer_AppendByte_def Buffer_AppendBytes_def Buffer_AppendString_def
      Buffer_AppendInt_def Buffer_AppendTime_def Buffer_AppendUint_def Buffer_AppendBool_def
      Buffer_AppendFloat_def Buffer_Reset_def Buffer_Write_def Buffer_WriteByte_def
      Buffer_WriteString_def)

lemma buffer_read [buffer_simps]:
  "Buffer_Len b = length (bs b)" "Buffer_Bytes b = bs b" "Buffer_String b = bs b"
  by (simp_all add: Buffer_Len_def Buffer_Bytes_def Buffer_String_def)

lemma TrimNewline_snoc [buffer_simps]:
  "bs b = p @ [c] \<Longrightarrow> bs (Buffer_TrimNewline b) = (if c = newline then p else bs b)"
  by (simp add: Buffer_TrimNewline_def Let_def)

lemma TrimNewline_Nil [buffer_simps]: "bs b = [] \<Longrightarrow> Buffer_TrimNewline b = b"
  by (simp add: Buffer_TrimNewline_def Let_def)

text \<open>The abstract contract of \<^verbatim>\<open>TrimNewline\<close>: one final newline is removed, nothing else.\<close>

lemma TrimNewline_spec:
  "bs (Buffer_TrimNewline b)
     = (if bs b \<noteq> [] \<and> last (bs b) = newline then butlast (bs b) else bs b)"
  by (cases "bs b" rule: rev_cases) (simp_all add: buffer_simps)

section \<open>The pool\<close>

text \<open>Buffers live at addresses of a store.  Each pool holds addresses; \<open>fresh\<close> is the first
  address never used.\<close>

record PoolHeap =
  store :: "nat \<Rightarrow> Buffer"
  free :: "nat \<Rightarrow> nat list"
  fresh :: nat

definition new_Buffer :: Buffer where
  "new_Buffer = \<lparr>bs = [], pool = None\<rparr>"

text \<open>\<^verbatim>\<open>NewPool\<close> on a program that has no buffer yet: every pool is empty.\<close>

definition NewPool :: PoolHeap where
  "NewPool = \<lparr>store = (\<lambda>_. new_Buffer), free = (\<lambda>_. []), fresh = 0\<rparr>"

text \<open>\<^verbatim>\<open>internal/pool\<close>: \<^verbatim>\<open>Get\<close> removes one of the items of the pool (the \<open>ch\<close>-th) or calls
  the constructor; \<^verbatim>\<open>Put\<close> adds an item.\<close>

definition internal_Pool_Get :: "nat \<Rightarrow> nat option \<Rightarrow> PoolHeap \<Rightarrow> nat \<times> PoolHeap" where
  "internal_Pool_Get p ch h =
     (let new = (fresh h, h\<lparr>store := (store h)(fresh h := new_Buffer), fresh := Suc (fresh h)\<rparr>) in
      case ch of
        None \<Rightarrow> new
      | Some i \<Rightarrow>
          if i < length (free h p)
          then (free h p ! i,
                h\<lparr>free := (free h)(p := take i (free h p) @ drop (Suc i) (free h p))\<rparr>)
          else new)"

definition internal_Pool_Put :: "nat \<Rightarrow> nat \<Rightarrow> PoolHeap \<Rightarrow> PoolHeap" where
  "internal_Pool_Put p a h = h\<lparr>free := (free h)(p := a # free h p)\<rparr>"

definition Pool_Get :: "nat \<Rightarrow> nat option \<Rightarrow> PoolHeap \<Rightarrow> nat \<times> PoolHeap" where
  "Pool_Get p ch h =
     (let (a, h1) = internal_Pool_Get p ch h;
          buf = (Buffer_Reset (store h1 a))\<lparr>pool := Some p\<rparr>
      in (a, h1\<lparr>store := (store h1)(a := buf)\<rparr>))"

definition Pool_put :: "nat \<Rightarrow> nat \<Rightarrow> PoolHeap \<Rightarrow> PoolHeap" where
  "Pool_put p a h = internal_Pool_Put p a h"

text \<open>\<^verbatim>\<open>Free\<close> on a buffer that no pool made dereferences the nil pool: a panic, \<open>None\<close>.\<close>

definition Buffer_Free :: "nat \<Rightarrow> PoolHeap \<Rightarrow> PoolHeap option" where
  "Buffer_Free a h =
     (case pool (store h a) of None \<Rightarrow> None | Some p \<Rightarrow> Some (Pool_put p a h))"

definition heap_update :: "nat \<Rightarrow> (Buffer \<Rightarrow> Buffer) \<Rightarrow> PoolHeap \<Rightarrow> PoolHeap" where
  "heap_update a f h = h\<lparr>store := (store h)(a := f (store h a))\<rparr>"

text \<open>Histories of a program that uses buffers by the documented rule: it writes to and frees
  only buffers it got and has not freed.  \<open>m\<close> records, for each buffer in use, the bytes its
  owner appended since it got it.\<close>

inductive pool_history :: "PoolHeap \<Rightarrow> (nat \<rightharpoonup> bytes) \<Rightarrow> bool" where
  ph_new: "pool_history NewPool Map.empty"
| ph_get: "pool_history h m \<Longrightarrow> Pool_Get p ch h = (a, h') \<Longrightarrow> pool_history h' (m(a \<mapsto> []))"
| ph_append: "pool_history h m \<Longrightarrow> m a = Some c
    \<Longrightarrow> pool_history (heap_update a (Buffer_AppendBytes v) h) (m(a \<mapsto> c @ v))"
| ph_reset: "pool_history h m \<Longrightarrow> m a = Some c
    \<Longrightarrow> pool_history (heap_update a Buffer_Reset h) (m(a \<mapsto> []))"
| ph_free: "pool_history h m \<Longrightarrow> m a = Some c \<Longrightarrow> Buffer_Free a h = Some h'
    \<Longrightarrow> pool_history h' (m(a := None))"

text \<open>The invariant: pooled buffers are distinct, in one pool only, and not in use.\<close>

definition pool_wf :: "PoolHeap \<Rightarrow> nat set \<Rightarrow> bool" where
  "pool_wf h live \<longleftrightarrow>
     (\<forall>p. distinct (free h p)) \<and>
     (\<forall>p. \<forall>a \<in> set (free h p). a < fresh h \<and> a \<notin> live) \<and>
     (\<forall>p q. p \<noteq> q \<longrightarrow> set (free h p) \<inter> set (free h q) = {}) \<and>
     (\<forall>a \<in> live. a < fresh h \<and> pool (store h a) \<noteq> None)"

definition pool_agrees :: "PoolHeap \<Rightarrow> (nat \<rightharpoonup> bytes) \<Rightarrow> bool" where
  "pool_agrees h m \<longleftrightarrow> (\<forall>a c. m a = Some c \<longrightarrow> bs (store h a) = c)"

lemma remove_nth_distinct:
  assumes "distinct xs" "i < length xs"
  shows "distinct (take i xs @ drop (Suc i) xs)"
    and "set (take i xs @ drop (Suc i) xs) = set xs - {xs ! i}"
proof -
  have xs: "xs = take i xs @ xs ! i # drop (Suc i) xs"
    using assms(2) by (simp add: id_take_nth_drop)
  then have d: "distinct (take i xs @ xs ! i # drop (Suc i) xs)"
    using assms(1) by simp
  from d show "distinct (take i xs @ drop (Suc i) xs)" by simp
  from xs have "set xs = set (take i xs @ xs ! i # drop (Suc i) xs)" by simp
  with d show "set (take i xs @ drop (Suc i) xs) = set xs - {xs ! i}" by auto
qed

lemma internal_Get_cases:
  assumes "internal_Pool_Get p ch h = (a, h')"
  obtains (reused) i where "i < length (free h p)" "a = free h p ! i"
      "h' = h\<lparr>free := (free h)(p := take i (free h p) @ drop (Suc i) (free h p))\<rparr>"
    | (made) "a = fresh h"
      "h' = h\<lparr>store := (store h)(fresh h := new_Buffer), fresh := Suc (fresh h)\<rparr>"
  using assms by (auto simp: internal_Pool_Get_def Let_def split: option.splits if_splits)

lemma pool_wfD:
  assumes "pool_wf h live"
  shows "distinct (free h p)" "x \<in> set (free h p) \<Longrightarrow> x < fresh h"
    "x \<in> set (free h p) \<Longrightarrow> x \<notin> live"
    "x \<in> set (free h p) \<Longrightarrow> x \<in> set (free h q) \<Longrightarrow> p = q"
    "x \<in> live \<Longrightarrow> x < fresh h" "x \<in> live \<Longrightarrow> pool (store h x) \<noteq> None"
  using assms unfolding pool_wf_def by blast+

lemma pool_wfI:
  assumes "\<And>p. distinct (free h p)" "\<And>p x. x \<in> set (free h p) \<Longrightarrow> x < fresh h"
    "\<And>p x. x \<in> set (free h p) \<Longrightarrow> x \<notin> live"
    "\<And>p q x. x \<in> set (free h p) \<Longrightarrow> x \<in> set (free h q) \<Longrightarrow> p = q"
    "\<And>x. x \<in> live \<Longrightarrow> x < fresh h" "\<And>x. x \<in> live \<Longrightarrow> pool (store h x) \<noteq> None"
  shows "pool_wf h live"
  using assms unfolding pool_wf_def by blast

lemma internal_Get_wf:
  assumes wf: "pool_wf h live" and get: "internal_Pool_Get p ch h = (a, h')"
  shows "a \<notin> live" "a < fresh h'" "pool_wf h' live" "a \<notin> set (free h' q)"
    "x \<in> live \<Longrightarrow> store h' x = store h x"
proof -
  note wfD = pool_wfD [OF wf]
  have "a \<notin> live \<and> a < fresh h' \<and> pool_wf h' live \<and> a \<notin> set (free h' q)
      \<and> (x \<in> live \<longrightarrow> store h' x = store h x)" for q x
    using get
  proof (cases rule: internal_Get_cases)
    case (reused i)
    note rem = remove_nth_distinct [OF wfD(1) reused(1)]
    have a: "a \<in> set (free h p)" using reused by simp
    have sub: "set (free h' q) = (if q = p then set (free h p) - {a} else set (free h q))" for q
      using rem(2) reused by simp
    have "pool_wf h' live"
    proof (rule pool_wfI)
      show "distinct (free h' q)" for q
        using rem(1) wfD(1) reused(3) by simp
    qed (use sub wfD(2-6) reused(3) in \<open>auto split: if_splits\<close>)
    moreover have "a \<notin> set (free h' q)"
      using sub a wfD(4) by auto
    ultimately show ?thesis
      using a wfD(2,3) reused(3) by auto
  next
    case made
    have fr: "free h' = free h" using made by simp
    have "a \<notin> live" using made wfD(5) by blast
    moreover have "a \<notin> set (free h' q)" using made fr wfD(2) by fastforce
    moreover have "pool_wf h' live"
    proof (rule pool_wfI)
      show "x < fresh h'" if "x \<in> set (free h' q)" for q x
        using that wfD(2) made by (simp add: less_SucI)
      show "x < fresh h'" if "x \<in> live" for x
        using that wfD(5) made by (simp add: less_SucI)
      show "pool (store h' x) \<noteq> None" if "x \<in> live" for x
        using that wfD(5,6) made by fastforce
    qed (use fr wfD in auto)
    ultimately show ?thesis
      using made by auto
  qed
  then show "a \<notin> live" "a < fresh h'" "pool_wf h' live" "a \<notin> set (free h' q)"
    "x \<in> live \<Longrightarrow> store h' x = store h x" by blast+
qed

lemma Pool_Get_step:
  assumes wf: "pool_wf h live" and get: "Pool_Get p ch h = (a, h')"
  shows "a \<notin> live" and "pool_wf h' (insert a live)" and "bs (store h' a) = []"
    and "x \<in> live \<Longrightarrow> store h' x = store h x"
proof -
  obtain h1 where g: "internal_Pool_Get p ch h = (a, h1)"
    and h': "h' = h1\<lparr>store := (store h1)(a := (Buffer_Reset (store h1 a))\<lparr>pool := Some p\<rparr>)\<rparr>"
    using get by (auto simp: Pool_Get_def Let_def split: prod.splits)
  note step = internal_Get_wf [OF wf g]
  note wf1 = pool_wfD [OF step(3)]
  show "a \<notin> live" by (rule step(1))
  show "bs (store h' a) = []" by (simp add: h' Buffer_Reset_def)
  show "store h' x = store h x" if "x \<in> live"
    using step(1,5) that by (auto simp: h')
  show "pool_wf h' (insert a live)"
    by (rule pool_wfI) (use step(2,4) wf1 in \<open>auto simp: h'\<close>)
qed

lemma Buffer_Free_step:
  assumes "pool_wf h live" "a \<in> live"
  shows "\<exists>h'. Buffer_Free a h = Some h' \<and> pool_wf h' (live - {a}) \<and> store h' = store h"
proof -
  obtain p where p: "pool (store h a) = Some p"
    using assms by (auto simp: pool_wf_def)
  have "a \<notin> set (free h q)" for q
    using assms by (auto simp: pool_wf_def)
  then have "pool_wf (Pool_put p a h) (live - {a})"
    using assms by (auto simp: pool_wf_def Pool_put_def internal_Pool_Put_def)
  with p show ?thesis
    by (simp add: Buffer_Free_def Pool_put_def internal_Pool_Put_def)
qed

lemma pool_wf_heap_update:
  assumes "pool_wf h live" "\<And>b. pool (f b) = pool b"
  shows "pool_wf (heap_update a f h) live"
  using assms by (auto simp: pool_wf_def heap_update_def)

lemma dom_upd_if [simp]:
  "dom (\<lambda>b. if b = a then Some v else m b) = insert a (dom m)"
  "dom (\<lambda>b. if b = a then None else m b) = dom m - {a}"
  by (auto split: if_splits)

lemma pool_history_inv: "pool_history h m \<Longrightarrow> pool_wf h (dom m) \<and> pool_agrees h m"
proof (induction rule: pool_history.induct)
  case ph_new
  then show ?case by (simp add: pool_wf_def pool_agrees_def NewPool_def)
next
  case (ph_get h m p ch a h')
  then have wf: "pool_wf h (dom m)" and agrees: "pool_agrees h m" by simp_all
  note step = Pool_Get_step [OF wf ph_get.hyps(2)]
  have "pool_agrees h' (m(a \<mapsto> []))"
    unfolding pool_agrees_def
  proof (intro allI impI)
    fix x c
    assume "(m(a \<mapsto> [])) x = Some c"
    then show "bs (store h' x) = c"
      using step(3) step(4) [of x] agrees
      by (cases "x = a") (auto simp: pool_agrees_def domIff)
  qed
  with step(2) show ?case by (simp add: fun_upd_def)
next
  case (ph_append h m a c v)
  then have "pool_wf (heap_update a (Buffer_AppendBytes v) h) (dom m)"
    by (intro pool_wf_heap_update) (simp_all add: Buffer_AppendBytes_def)
  with ph_append show ?case
    by (auto simp: pool_agrees_def heap_update_def buffer_simps insert_absorb [OF domI])
next
  case (ph_reset h m a c)
  then have "pool_wf (heap_update a Buffer_Reset h) (dom m)"
    by (intro pool_wf_heap_update) (simp_all add: Buffer_Reset_def)
  with ph_reset show ?case
    by (auto simp: pool_agrees_def heap_update_def buffer_simps insert_absorb [OF domI])
next
  case (ph_free h m a c h')
  then show ?case
    using Buffer_Free_step [of h "dom m" a] by (auto simp: pool_agrees_def domI)
qed

section \<open>Properties\<close>

text \<open>C26. Buffers obtained from a pool are never shared.  In every program that follows the
  documented rule (write to and free only a buffer it got and has not freed), whatever buffer
  the pool hands out, the buffer is empty, it is not one that is in use, the bytes of every buffer
  in use are exactly what its owner wrote since it got it, and the new \<^verbatim>\<open>Get\<close> does not
  change them.\<close>

theorem pool_buffers_not_shared:
  assumes "pool_history h m"
    and "Pool_Get p ch h = (a, h')"
  shows "m a = None \<and> bs (store h' a) = []
    \<and> (\<forall>x c. m x = Some c \<longrightarrow> bs (store h x) = c \<and> bs (store h' x) = c)"
proof -
  from assms(1) have wf: "pool_wf h (dom m)" and agrees: "pool_agrees h m"
    using pool_history_inv by blast+
  note step = Pool_Get_step [OF wf assms(2)]
  have "bs (store h x) = c \<and> bs (store h' x) = c" if "m x = Some c" for x c
    using that agrees step(4) [of x] by (auto simp: pool_agrees_def domI)
  then show ?thesis
    using step(1,3) by (auto simp: domIff)
qed

definition pool_example :: PoolHeap where
  "pool_example = snd (Pool_Get 0 None (the (Buffer_Free 0
     (heap_update 0 (Buffer_AppendBytes ''abc'') (snd (Pool_Get 0 None NewPool))))))"

lemma pool_example_history: "pool_history pool_example [1 \<mapsto> []]"
proof -
  let ?h1 = "snd (Pool_Get 0 None NewPool)"
  let ?h2 = "heap_update 0 (Buffer_AppendBytes ''abc'') ?h1"
  have g: "Pool_Get 0 None NewPool = (0, ?h1)"
    by (simp add: Pool_Get_def internal_Pool_Get_def NewPool_def Let_def)
  have "pool_history ?h1 [0 \<mapsto> []]"
    using ph_get [OF ph_new g] by simp
  then have h2: "pool_history ?h2 [0 \<mapsto> ''abc'']"
    using ph_append [of ?h1 "[0 \<mapsto> []]" 0 "[]" "''abc''"] by simp
  obtain h3 where f: "Buffer_Free 0 ?h2 = Some h3"
    using Buffer_Free_step [of ?h2 "dom [0 \<mapsto> ''abc'']" 0] pool_history_inv [OF h2] by auto
  have h3: "pool_history h3 Map.empty"
    using ph_free [OF h2 _ f] by simp
  have "fst (Pool_Get 0 None h3) = 1"
    using f by (auto simp: Pool_Get_def internal_Pool_Get_def NewPool_def Let_def Buffer_Free_def
        heap_update_def Pool_put_def internal_Pool_Put_def Buffer_AppendBytes_def)
  then have "Pool_Get 0 None h3 = (1, pool_example)"
    using f by (simp add: pool_example_def prod_eq_iff)
  then show ?thesis
    using ph_get [OF h3] by simp
qed

text \<open>The witness reuses the address of a buffer that was filled and freed: it comes back empty
  while the buffer in use keeps its contents.\<close>

theorem pool_buffers_not_shared_witness:
  "fst (Pool_Get 0 (Some 0) pool_example) = 0
     \<and> bs (store pool_example 0) = ''abc''
     \<and> bs (store (snd (Pool_Get 0 (Some 0) pool_example)) 0) = []"
proof -
  have "fst (Pool_Get 0 (Some 0) pool_example) = 0 \<and> bs (store pool_example 0) = ''abc''"
    by (simp add: pool_example_def Pool_Get_def internal_Pool_Get_def NewPool_def Let_def
        Buffer_Free_def heap_update_def Pool_put_def internal_Pool_Put_def Buffer_AppendBytes_def
        Buffer_Reset_def new_Buffer_def)
  moreover from this have "Pool_Get 0 (Some 0) pool_example = (0, snd (Pool_Get 0 (Some 0) pool_example))"
    by (simp add: prod_eq_iff)
  ultimately show ?thesis
    using pool_buffers_not_shared [OF pool_example_history] by blast
qed

text \<open>Integers appended to a buffer read back as themselves: after the bytes already
  there, \<^verbatim>\<open>AppendInt\<close> leaves the decimal text of the signed value and \<^verbatim>\<open>AppendUint\<close> that of
  the unsigned value, for every 64-bit pattern, the smallest negative one included.\<close>

theorem append_int_roundtrip:
  "take (length (bs b)) (bs (Buffer_AppendInt i b)) = bs b
   \<and> atoi (drop (length (bs b)) (bs (Buffer_AppendInt i b))) = sint i
   \<and> take (length (bs b)) (bs (Buffer_AppendUint u b)) = bs b
   \<and> dec_val (drop (length (bs b)) (bs (Buffer_AppendUint u b))) = unat u"
  by (simp add: buffer_simps)

end
