(* ===== verification/Json_String.thy ===== *)
theory Json_String
  imports Buffer
begin

text \<open>
  The string escaper of \<^verbatim>\<open>src/zapcore/json_encoder.go\<close> (\<^verbatim>\<open>safeAppendStringLike\<close> and its two
  callers), over a model of the standard library's \<^verbatim>\<open>utf8.DecodeRune\<close>.

  The source scans with two indices and copies runs of safe bytes in one go.  It is shown
  equivalent to a byte-by-byte reference escaper, and a reader of JSON strings gets back the
  escaped text, each invalid UTF-8 byte replaced by U+FFFD.
\<close>

section \<open>UTF-8\<close>

definition RuneSelf :: nat where
  "RuneSelf = 0x80"

definition RuneError :: nat where
  "RuneError = 0xFFFD"

text \<open>A continuation byte in the given range.\<close>

definition cont :: "nat \<Rightarrow> nat \<Rightarrow> char \<Rightarrow> bool" where
  "cont lo hi c \<longleftrightarrow> lo \<le> bval c \<and> bval c \<le> hi"

definition DecodeRune2 :: "nat \<Rightarrow> bytes \<Rightarrow> nat \<times> nat" where
  "DecodeRune2 b0 cs =
     (case cs of
        c1 # _ \<Rightarrow> if cont 0x80 0xBF c1 then ((b0 mod 32) * 64 + bval c1 mod 64, 2) else (RuneError, 1)
      | [] \<Rightarrow> (RuneError, 1))"

definition DecodeRune3 :: "nat \<Rightarrow> bytes \<Rightarrow> nat \<times> nat" where
  "DecodeRune3 b0 cs =
     (case cs of
        c1 # c2 # _ \<Rightarrow>
          if cont (if b0 = 0xE0 then 0xA0 else 0x80) (if b0 = 0xED then 0x9F else 0xBF) c1 \<and> cont 0x80 0xBF c2
          then ((b0 mod 16) * 4096 + (bval c1 mod 64) * 64 + bval c2 mod 64, 3)
          else (RuneError, 1)
      | _ \<Rightarrow> (RuneError, 1))"

definition DecodeRune4 :: "nat \<Rightarrow> bytes \<Rightarrow> nat \<times> nat" where
  "DecodeRune4 b0 cs =
     (case cs of
        c1 # c2 # c3 # _ \<Rightarrow>
          if cont (if b0 = 0xF0 then 0x90 else 0x80) (if b0 = 0xF4 then 0x8F else 0xBF) c1
             \<and> cont 0x80 0xBF c2 \<and> cont 0x80 0xBF c3
          then ((b0 mod 8) * 262144 + (bval c1 mod 64) * 4096 + (bval c2 mod 64) * 64 + bval c3 mod 64, 4)
          else (RuneError, 1)
      | _ \<Rightarrow> (RuneError, 1))"

text \<open>\<^verbatim>\<open>utf8.DecodeRune\<close>: the first rune of the bytes and its width.\<close>

definition DecodeRune :: "bytes \<Rightarrow> nat \<times> nat" where
  "DecodeRune p =
     (case p of
        [] \<Rightarrow> (RuneError, 0)
      | c # cs \<Rightarrow>
          let b0 = bval c in
          if b0 < RuneSelf then (b0, 1)
          else if 0xC2 \<le> b0 \<and> b0 \<le> 0xDF then DecodeRune2 b0 cs
          else if 0xE0 \<le> b0 \<and> b0 \<le> 0xEF then DecodeRune3 b0 cs
          else if 0xF0 \<le> b0 \<and> b0 \<le> 0xF4 then DecodeRune4 b0 cs
          else (RuneError, 1))"

lemmas decode_defs = DecodeRune_def DecodeRune2_def DecodeRune3_def DecodeRune4_def Let_def

lemma DecodeRune_size:
  "p \<noteq> [] \<Longrightarrow> DecodeRune p = (r, n) \<Longrightarrow> 1 \<le> n \<and> n \<le> length p"
  by (cases p) (auto simp: decode_defs split: if_splits list.splits)

lemma DecodeRune_drop:
  "(r, n) = DecodeRune (drop i s) \<Longrightarrow> i < length s \<longrightarrow> length s - (i + n) < length s - i"
  using DecodeRune_size [of "drop i s" r n] by auto

text \<open>A width other than 1 means a sequence of bytes none of which is ASCII.\<close>

lemma DecodeRune_wide:
  "RuneSelf \<le> bval c \<Longrightarrow> DecodeRune (c # cs) = (r, n) \<Longrightarrow> n \<noteq> 1
    \<Longrightarrow> \<forall>d \<in> set (take n (c # cs)). RuneSelf \<le> bval d"
  by (auto simp: decode_defs RuneSelf_def cont_def split: if_splits list.splits)

lemma DecodeRune_narrow:
  "RuneSelf \<le> bval c \<Longrightarrow> DecodeRune (c # cs) = (r, n) \<Longrightarrow> n = 1 \<Longrightarrow> r = RuneError"
  by (auto simp: decode_defs split: if_splits list.splits)

section \<open>The escaper\<close>

definition hex :: bytes where
  "hex = ''0123456789abcdef''"

text \<open>The bytes appended for a byte below \<open>RuneSelf\<close> that needs escaping.\<close>

definition append_escaped :: "char \<Rightarrow> Buffer \<Rightarrow> Buffer" where
  "append_escaped c buf =
     (if c = CHR 0x5C \<or> c = CHR 0x22 then Buffer_AppendByte c (Buffer_AppendByte (CHR 0x5C) buf)
      else if c = CHR 0x0A then Buffer_AppendByte (CHR ''n'') (Buffer_AppendByte (CHR 0x5C) buf)
      else if c = CHR 0x0D then Buffer_AppendByte (CHR ''r'') (Buffer_AppendByte (CHR 0x5C) buf)
      else if c = CHR 0x09 then Buffer_AppendByte (CHR ''t'') (Buffer_AppendByte (CHR 0x5C) buf)
      else Buffer_AppendByte (hex ! (bval c mod 16))
             (Buffer_AppendByte (hex ! (bval c div 16))
               (Buffer_AppendString (CHR 0x5C # ''u00'') buf)))"

text \<open>The loop, with its variables \<open>lst\<close> (\<^verbatim>\<open>last\<close>) and \<open>i\<close>; \<open>s[last:i]\<close> is \<open>drop lst (take i s)\<close>.\<close>

function safeAppendStringLike_loop ::
    "(bytes \<Rightarrow> Buffer \<Rightarrow> Buffer) \<Rightarrow> bytes \<Rightarrow> nat \<Rightarrow> nat \<Rightarrow> Buffer \<Rightarrow> Buffer" where
  "safeAppendStringLike_loop appendTo s lst i buf =
     (if i < length s then
        if RuneSelf \<le> bval (s ! i) then
          (case DecodeRune (drop i s) of (r, n) \<Rightarrow>
             if r \<noteq> RuneError \<or> n \<noteq> 1 then safeAppendStringLike_loop appendTo s lst (i + n) buf
             else safeAppendStringLike_loop appendTo s (i + 1) (i + 1)
                    (Buffer_AppendString (CHR 0x5C # ''ufffd'') (appendTo (drop lst (take i s)) buf)))
        else if 0x20 \<le> bval (s ! i) \<and> s ! i \<noteq> CHR 0x5C \<and> s ! i \<noteq> CHR 0x22 then
          safeAppendStringLike_loop appendTo s lst (i + 1) buf
        else safeAppendStringLike_loop appendTo s (i + 1) (i + 1)
               (append_escaped (s ! i) (appendTo (drop lst (take i s)) buf))
      else appendTo (drop lst s) buf)"
  by pat_completeness auto
termination
  by (relation "measure (\<lambda>(appendTo, s, lst, i, buf). length s - i)")
    (auto dest!: DecodeRune_drop)

declare safeAppendStringLike_loop.simps [simp del]

definition safeAppendStringLike :: "(bytes \<Rightarrow> Buffer \<Rightarrow> Buffer) \<Rightarrow> Buffer \<Rightarrow> bytes \<Rightarrow> Buffer" where
  "safeAppendStringLike appendTo buf s = safeAppendStringLike_loop appendTo s 0 0 buf"

definition safeAddString :: "bytes \<Rightarrow> Buffer \<Rightarrow> Buffer" where
  "safeAddString s buf = safeAppendStringLike Buffer_AppendString buf s"

definition safeAddByteString :: "bytes \<Rightarrow> Buffer \<Rightarrow> Buffer" where
  "safeAddByteString s buf = safeAppendStringLike Buffer_AppendBytes buf s"

section \<open>Reference escaper and reader\<close>

definition escape_byte :: "char \<Rightarrow> bytes" where
  "escape_byte c =
     (if c = CHR 0x5C \<or> c = CHR 0x22 then [CHR 0x5C, c]
      else if c = CHR 0x0A then [CHR 0x5C, CHR ''n'']
      else if c = CHR 0x0D then [CHR 0x5C, CHR ''r'']
      else if c = CHR 0x09 then [CHR 0x5C, CHR ''t'']
      else if bval c < 0x20 then (CHR 0x5C # ''u00'') @ [hex ! (bval c div 16), hex ! (bval c mod 16)]
      else [c])"

function json_escape :: "bytes \<Rightarrow> bytes" where
  "json_escape [] = []"
| "json_escape (c # cs) =
     (if bval c < RuneSelf then escape_byte c @ json_escape cs
      else let n = snd (DecodeRune (c # cs)) in
        if n = 1 then (CHR 0x5C # ''ufffd'') @ json_escape cs
        else take n (c # cs) @ json_escape (drop n (c # cs)))"
  by pat_completeness auto
termination
proof (relation "measure length")
  fix c cs n
  assume "n = snd (DecodeRune (c # cs))"
  then have "1 \<le> n"
    using DecodeRune_size [of "c # cs" "fst (DecodeRune (c # cs))" n] by simp
  then show "(drop n (c # cs), c # cs) \<in> measure length"
    by simp
qed auto

text \<open>The text with every byte that is not part of valid UTF-8 replaced by U+FFFD.\<close>

function to_valid :: "bytes \<Rightarrow> bytes" where
  "to_valid [] = []"
| "to_valid (c # cs) =
     (if bval c < RuneSelf then c # to_valid cs
      else let n = snd (DecodeRune (c # cs)) in
        if n = 1 then [CHR 0xEF, CHR 0xBF, CHR 0xBD] @ to_valid cs
        else take n (c # cs) @ to_valid (drop n (c # cs)))"
  by pat_completeness auto
termination
proof (relation "measure length")
  fix c cs n
  assume "n = snd (DecodeRune (c # cs))"
  then have "1 \<le> n"
    using DecodeRune_size [of "c # cs" "fst (DecodeRune (c # cs))" n] by simp
  then show "(drop n (c # cs), c # cs) \<in> measure length"
    by simp
qed auto
text \<open>A reader of JSON strings (RFC 8259, section 7), from just after the opening quote: the text
  as UTF-8 and what follows the closing quote.  Escaped surrogates are left out.\<close>

definition hexval :: "char \<Rightarrow> nat option" where
  "hexval c = IndexByte hex c"

definition utf8_encode :: "nat \<Rightarrow> bytes option" where
  "utf8_encode r =
     (if r < 0x80 then Some [char_of r]
      else if r < 0x800 then Some [char_of (0xC0 + r div 64), char_of (0x80 + r mod 64)]
      else if 0xD800 \<le> r \<and> r < 0xE000 then None
      else Some [char_of (0xE0 + r div 4096), char_of (0x80 + (r div 64) mod 64), char_of (0x80 + r mod 64)])"

definition unescape_u :: "char \<Rightarrow> char \<Rightarrow> char \<Rightarrow> char \<Rightarrow> bytes option" where
  "unescape_u a b c d =
     (case (hexval a, hexval b, hexval c, hexval d) of
        (Some va, Some vb, Some vc, Some vd) \<Rightarrow> utf8_encode (va * 4096 + vb * 256 + vc * 16 + vd)
      | _ \<Rightarrow> None)"

definition unescape_letter :: "char \<Rightarrow> bytes option" where
  "unescape_letter e =
     (if e = CHR 0x22 \<or> e = CHR 0x5C \<or> e = CHR ''/'' then Some [e]
      else if e = CHR ''b'' then Some [CHR 0x08]
      else if e = CHR ''f'' then Some [CHR 0x0C]
      else if e = CHR ''n'' then Some [CHR 0x0A]
      else if e = CHR ''r'' then Some [CHR 0x0D]
      else if e = CHR ''t'' then Some [CHR 0x09]
      else None)"

definition prepend :: "bytes option \<Rightarrow> (bytes \<times> bytes) option \<Rightarrow> (bytes \<times> bytes) option" where
  "prepend x r = (case (x, r) of (Some xs, Some (t, rest)) \<Rightarrow> Some (xs @ t, rest) | _ \<Rightarrow> None)"

fun read_string :: "bytes \<Rightarrow> (bytes \<times> bytes) option" where
  "read_string [] = None"
| "read_string (c # cs) =
     (if c = CHR 0x22 then Some ([], cs)
      else if c = CHR 0x5C then
        (case cs of
           [] \<Rightarrow> None
         | e # es \<Rightarrow>
             if e = CHR ''u'' then
               (case es of
                  h1 # h2 # h3 # h4 # hs \<Rightarrow> prepend (unescape_u h1 h2 h3 h4) (read_string hs)
                | _ \<Rightarrow> None)
             else prepend (unescape_letter e) (read_string es))
      else if bval c < 0x20 then None
      else prepend (Some [c]) (read_string cs))"

section \<open>The escaper agrees with the reference\<close>

lemma append_escaped:
  "bval c < 0x20 \<or> c = CHR 0x5C \<or> c = CHR 0x22
    \<Longrightarrow> append_escaped c b = b\<lparr>bs := bs b @ escape_byte c\<rparr>"
  by (auto simp: append_escaped_def escape_byte_def Buffer_AppendByte_def Buffer_AppendString_def)

lemma escape_plain: "0x20 \<le> bval c \<Longrightarrow> c \<noteq> CHR 0x5C \<Longrightarrow> c \<noteq> CHR 0x22 \<Longrightarrow> escape_byte c = [c]"
  by (auto simp: escape_byte_def)

lemma json_escape_drop:
  assumes "i < length s"
  shows "json_escape (drop i s) =
     (if bval (s ! i) < RuneSelf then escape_byte (s ! i) @ json_escape (drop (i + 1) s)
      else let n = snd (DecodeRune (drop i s)) in
        if n = 1 then (CHR 0x5C # ''ufffd'') @ json_escape (drop (i + 1) s)
        else take n (drop i s) @ json_escape (drop (i + n) s))"
proof -
  have ds: "drop i s = s ! i # drop (i + 1) s"
    using assms by (simp add: Cons_nth_drop_Suc)
  show ?thesis
    using json_escape.simps(2) [of "s ! i" "drop (i + 1) s", folded ds]
    by (simp add: Let_def add.commute)
qed

lemma slice_step: "lst \<le> i \<Longrightarrow> i + n \<le> length s \<Longrightarrow> drop lst (take (i + n) s) = drop lst (take i s) @ take n (drop i s)"
  by (simp add: take_add)

lemma safeAppend_loop_escape:
  assumes "appendTo = (\<lambda>p b. b\<lparr>bs := bs b @ p\<rparr>)" and "lst \<le> i" and "i \<le> length s"
  shows "safeAppendStringLike_loop appendTo s lst i buf
    = buf\<lparr>bs := bs buf @ drop lst (take i s) @ json_escape (drop i s)\<rparr>"
  using assms
proof (induction appendTo s lst i buf rule: safeAppendStringLike_loop.induct)
  case (1 appendTo s lst i buf)
  show ?case
  proof (cases "i < length s")
    case False
    then show ?thesis
      using 1(5-7) by (subst safeAppendStringLike_loop.simps) simp
  next
    case True
    note esc = json_escape_drop [OF True] and IH = 1(1-4) [OF True] and pre = 1(5-7)
    obtain r n where d: "DecodeRune (drop i s) = (r, n)"
      by fastforce
    have n: "1 \<le> n" "n \<le> length s - i"
      using DecodeRune_size [OF _ d] True by auto
    have dd: "drop i s \<noteq> []"
      using True by simp
    consider "bval (s ! i) \<ge> RuneSelf" "n \<noteq> 1" | "bval (s ! i) \<ge> RuneSelf" "n = 1" "r = RuneError"
      | "bval (s ! i) < RuneSelf" "0x20 \<le> bval (s ! i) \<and> s ! i \<noteq> CHR 0x5C \<and> s ! i \<noteq> CHR 0x22"
      | "bval (s ! i) < RuneSelf" "\<not> (0x20 \<le> bval (s ! i) \<and> s ! i \<noteq> CHR 0x5C \<and> s ! i \<noteq> CHR 0x22)"
      using DecodeRune_narrow [of "s ! i" "drop (Suc i) s" r n] d True
      by (simp add: Cons_nth_drop_Suc) (metis not_le)
    then show ?thesis
    proof cases
      case c: 1
      have "safeAppendStringLike_loop appendTo s lst (i + n) buf
          = buf\<lparr>bs := bs buf @ drop lst (take (i + n) s) @ json_escape (drop (i + n) s)\<rparr>"
        using c n pre by (intro IH(1) [OF _ d [symmetric]]) auto
      then show ?thesis
        using True c d esc pre n slice_step [OF pre(2), of n s]
        by (subst safeAppendStringLike_loop.simps) (simp add: Let_def)
    next
      case c: 2
      then show ?thesis
        using True d esc pre IH(2) [OF _ d [symmetric]]
        by (subst safeAppendStringLike_loop.simps) (simp add: Let_def Buffer_AppendString_def)
    next
      case c: 3
      then show ?thesis
        using True esc pre IH(3) slice_step [OF pre(2), of 1 s] hd_drop_conv_nth [OF True]
        by (subst safeAppendStringLike_loop.simps) (simp add: escape_plain take_Suc dd)
    next
      case c: 4
      then show ?thesis
        using True esc pre IH(4)
        by (subst safeAppendStringLike_loop.simps) (auto simp: append_escaped not_le)
    qed
  qed
qed
lemma safeAddString_escape: "safeAddString s b = b\<lparr>bs := bs b @ json_escape s\<rparr>"
  by (simp add: safeAddString_def safeAppendStringLike_def safeAppend_loop_escape fun_eq_iff
      Buffer_AppendString_def)

lemma safeAddByteString_escape: "safeAddByteString s b = b\<lparr>bs := bs b @ json_escape s\<rparr>"
  by (simp add: safeAddByteString_def safeAppendStringLike_def safeAppend_loop_escape fun_eq_iff
      Buffer_AppendBytes_def)

section \<open>Reading back\<close>

definition plain :: "char \<Rightarrow> bool" where
  "plain c \<longleftrightarrow> 0x20 \<le> bval c \<and> c \<noteq> CHR 0x22 \<and> c \<noteq> CHR 0x5C"

lemma prepend_Some [simp]: "prepend (Some xs) (prepend (Some ys) r) = prepend (Some (xs @ ys)) r"
  by (simp add: prepend_def split: option.splits prod.splits)

lemma prepend_Nil [simp]: "prepend (Some []) r = r"
  by (simp add: prepend_def split: option.splits prod.splits)

lemma read_plain: "list_all plain xs \<Longrightarrow> read_string (xs @ ys) = prepend (Some xs) (read_string ys)"
  by (induction xs) (auto simp: plain_def)

lemma plain_high: "RuneSelf \<le> bval c \<Longrightarrow> plain c"
  by (auto simp: plain_def RuneSelf_def)

lemma hexval_hex: "k < 16 \<Longrightarrow> hexval (hex ! k) = Some k"
proof -
  have "\<forall>k \<in> set [0..<16]. hexval (hex ! k) = Some k"
    by code_simp
  then show "k < 16 \<Longrightarrow> hexval (hex ! k) = Some k"
    by simp
qed

lemma unescape_control:
  assumes "bval c < 0x20"
  shows "unescape_u (CHR ''0'') (CHR ''0'') (hex ! (bval c div 16)) (hex ! (bval c mod 16)) = Some [c]"
proof -
  have "hexval (CHR ''0'') = Some 0"
    by code_simp
  moreover have "bval c div 16 * 16 + bval c mod 16 = bval c"
    by simp
  ultimately show ?thesis
    using assms hexval_hex [of "bval c div 16"] hexval_hex [of "bval c mod 16"]
    by (simp add: unescape_u_def utf8_encode_def)
qed

lemma unescape_fffd:
  "unescape_u (CHR ''f'') (CHR ''f'') (CHR ''f'') (CHR ''d'') = Some [CHR 0xEF, CHR 0xBF, CHR 0xBD]"
proof -
  have "hexval (CHR ''f'') = Some 15" "hexval (CHR ''d'') = Some 13"
    by (code_simp, code_simp)
  moreover have "char_of (239 :: nat) = CHR 0xEF" "char_of (191 :: nat) = CHR 0xBF"
      "char_of (189 :: nat) = CHR 0xBD"
    by (code_simp, code_simp, code_simp)
  ultimately show ?thesis
    by (simp add: unescape_u_def utf8_encode_def)
qed

lemma read_letter:
  "e \<noteq> CHR ''u'' \<Longrightarrow> read_string (CHR 0x5C # e # ys) = prepend (unescape_letter e) (read_string ys)"
  by simp

lemma read_u:
  "read_string (CHR 0x5C # CHR ''u'' # a # b # c # d # ys) = prepend (unescape_u a b c d) (read_string ys)"
  by simp

lemma read_escape_byte: "read_string (escape_byte c @ ys) = prepend (Some [c]) (read_string ys)"
proof -
  consider "c = CHR 0x5C" | "c = CHR 0x22" | "c = CHR 0x0A" | "c = CHR 0x0D" | "c = CHR 0x09"
    | "c \<noteq> CHR 0x5C" "c \<noteq> CHR 0x22" "c \<noteq> CHR 0x0A" "c \<noteq> CHR 0x0D" "c \<noteq> CHR 0x09" "bval c < 0x20"
    | "plain c" unfolding plain_def by force
  then show ?thesis
  proof cases
    case 6
    then have "escape_byte c @ ys = CHR 0x5C # CHR ''u'' # CHR ''0'' # CHR ''0''
        # hex ! (bval c div 16) # hex ! (bval c mod 16) # ys"
      by (simp add: escape_byte_def)
    then show ?thesis
      by (simp only: read_u unescape_control [OF 6(6)])
  next
    case 7
    then have "escape_byte c = [c]" "list_all plain [c]"
      by (auto simp: escape_byte_def plain_def)
    then show ?thesis
      using read_plain [of "[c]" ys] by (simp only:)
  qed (simp_all add: escape_byte_def read_letter unescape_letter_def del: read_string.simps)
qed

lemma read_json_escape:
  "read_string (json_escape s @ CHR 0x22 # rest) = Some (to_valid s, rest)"
proof (induction s rule: json_escape.induct)
  case 1
  then show ?case by simp
next
  case (2 c cs)
  obtain r n where d: "DecodeRune (c # cs) = (r, n)"
    by fastforce
  consider "bval c < RuneSelf" | "RuneSelf \<le> bval c" "n = 1" | "RuneSelf \<le> bval c" "n \<noteq> 1"
    by fastforce
  then show ?case
  proof cases
    case 1
    then show ?thesis
      using 2(1) by (simp add: read_escape_byte prepend_def del: read_string.simps)
  next
    case c: 2
    then show ?thesis
      using 2(2) [of n] d by (simp add: prepend_def read_u unescape_fffd del: read_string.simps)
  next
    case c: 3
    have "list_all plain (take n (c # cs))"
      using DecodeRune_wide [OF c(1) d c(2)] plain_high by (auto simp: list_all_iff)
    then show ?thesis
      using 2(3) [of n] c d read_plain
      by (simp add: prepend_def Let_def del: read_string.simps take_Cons drop_Cons)
  qed
qed

lemma hex_printable: "k < 16 \<Longrightarrow> 0x20 \<le> bval (hex ! k)"
proof -
  have "\<forall>k \<in> set [0..<16]. 0x20 \<le> bval (hex ! k)"
    by code_simp
  then show "k < 16 \<Longrightarrow> 0x20 \<le> bval (hex ! k)"
    by simp
qed

lemma escape_byte_printable: "list_all (\<lambda>d. 0x20 \<le> bval d) (escape_byte c)"
proof -
  have "bval c div 16 < 16"
    by (rule less_mult_imp_div_less) simp
  then have "0x20 \<le> bval (hex ! (bval c div 16))" "0x20 \<le> bval (hex ! (bval c mod 16))"
    by (auto intro!: hex_printable)
  then show ?thesis
    by (auto simp: escape_byte_def)
qed

lemma json_escape_printable: "list_all (\<lambda>d. 0x20 \<le> bval d) (json_escape s)"
proof (induction s rule: json_escape.induct)
  case (2 c cs)
  obtain r n where d: "DecodeRune (c # cs) = (r, n)"
    by fastforce
  have "RuneSelf \<le> bval c \<Longrightarrow> n \<noteq> 1 \<Longrightarrow> list_all (\<lambda>d. 0x20 \<le> bval d) (take n (c # cs))"
    using DecodeRune_wide [of c cs r n] d by (fastforce simp: list_all_iff RuneSelf_def)
  then show ?case
    using 2 d by (auto simp: Let_def escape_byte_printable simp del: take_Cons drop_Cons)
qed simp

section \<open>Properties\<close>

text \<open>C27. The escaper, which copies runs of bytes between two indices, appends exactly what the
  byte-by-byte reference escaper gives, for strings and for byte slices alike.\<close>

theorem escape_equals_reference:
  "bs (safeAddString s buf) = bs buf @ json_escape s
   \<and> bs (safeAddByteString s buf) = bs buf @ json_escape s"
  by (simp add: safeAddString_escape safeAddByteString_escape)

text \<open>C10. Escaped text is a JSON string: it has no control characters, and a reader that starts
  after the opening quote stops at the closing quote that follows and gets the text, in which
  exactly the bytes that are not valid UTF-8 are replaced by U+FFFD.\<close>

theorem escaped_string_reads_back:
  "\<exists>out. bs (safeAddString s buf) = bs buf @ out
    \<and> list_all (\<lambda>c. 0x20 \<le> bval c) out
    \<and> read_string (out @ CHR 0x22 # rest) = Some (to_valid s, rest)"
  by (intro exI [of _ "json_escape s"])
    (simp add: safeAddString_escape json_escape_printable read_json_escape)

end
