(* ===== verification/Marshal.thy ===== *)
theory Marshal
  imports Zap_Prelude
begin

text \<open>
  \<^verbatim>\<open>src/zapcore/marshaler.go\<close>, the encoder interfaces of \<^verbatim>\<open>src/zapcore/encoder.go\<close>,
  \<^verbatim>\<open>src/zapcore/error.go\<close> and the array types of \<^verbatim>\<open>src/array.go\<close> and \<^verbatim>\<open>src/error.go\<close>.

  A marshaler is what it does to the encoder it is given: a tree of the calls it makes, each
  followed by what it does next, which may depend on the error the call returned.  An encoder is
  an interpreter of these trees, so user-defined marshalers are covered and every encoder sees the
  same calls.  A call that panics ends the tree with \<open>OPanic\<close> or \<open>APanic\<close>.

  The types of instants (\<open>'t\<close>) and of values for reflection (\<open>'v\<close>) are parameters.  A
  floating-point number is its IEEE 754 bits, a complex number the bits of its two parts, and an
  error is the text its \<^verbatim>\<open>Error\<close> method returns.
\<close>

section \<open>The calls of an encoder\<close>

text \<open>The methods of \<^verbatim>\<open>PrimitiveArrayEncoder\<close>; \<open>PTimeLayout\<close> is \<^verbatim>\<open>AppendTimeLayout\<close>, which the
  encoders of this package have in addition.\<close>

datatype 't prim =
    PBool bool
  | PByteString bytes
  | PComplex128 uint64 uint64 | PComplex64 uint32 uint32
  | PFloat64 uint64 | PFloat32 uint32
  | PInt int64 | PInt64 int64 | PInt32 int32 | PInt16 "16 word" | PInt8 int8
  | PString bytes
  | PUint uint64 | PUint64 uint64 | PUint32 uint32 | PUint16 "16 word" | PUint8 "8 word"
  | PUintptr uint64
  | PTimeLayout 't bytes

text \<open>What is added under a key or appended to an array; \<open>'o\<close> and \<open>'a\<close> are the marshalers.\<close>

datatype ('t, 'v, 'o, 'a) val =
    VPrim "'t prim"
  | VDuration int64
  | VTime 't
  | VArray 'a
  | VObject 'o
  | VReflected "'v option"    \<comment> \<open>None is nil\<close>

datatype ('t, 'v) omarsh =
    ORet "bytes option"
  | OAdd bytes "('t, 'v, ('t, 'v) omarsh, ('t, 'v) amarsh) val"
      "bytes option \<Rightarrow> ('t, 'v) omarsh"
  | OAddBinary bytes bytes "('t, 'v) omarsh"
  | OOpenNamespace bytes "('t, 'v) omarsh"
  | OPanic
and ('t, 'v) amarsh =
    ARet "bytes option"
  | AAppend "('t, 'v, ('t, 'v) omarsh, ('t, 'v) amarsh) val"
      "bytes option \<Rightarrow> ('t, 'v) amarsh"
  | APanic

type_synonym ('t, 'v) mval = "('t, 'v, ('t, 'v) omarsh, ('t, 'v) amarsh) val"

text \<open>Running one marshaler on the encoder and then, with the error it returned, another.\<close>

primrec obind :: "('t, 'v) omarsh \<Rightarrow> (bytes option \<Rightarrow> ('t, 'v) omarsh) \<Rightarrow> ('t, 'v) omarsh" where
  "obind (ORet e) k = k e"
| "obind (OAdd key v next) k = OAdd key v (\<lambda>e. obind (next e) k)"
| "obind (OAddBinary key b next) k = OAddBinary key b (obind next k)"
| "obind (OOpenNamespace key next) k = OOpenNamespace key (obind next k)"
| "obind OPanic k = OPanic"

lemmas omarsh_induct = omarsh.induct [where ?P2.0 = "\<lambda>_. True"]
lemmas amarsh_induct = amarsh.induct [where ?P1.0 = "\<lambda>_. True"]

lemma obind_assoc: "obind (obind m f) g = obind m (\<lambda>e. obind (f e) g)"
  by (induction m rule: omarsh_induct) auto

lemma obind_ORet: "obind m ORet = m"
  by (induction m rule: omarsh_induct) auto

section \<open>Arrays\<close>

text \<open>The loop of the slice types whose \<^verbatim>\<open>MarshalLogArray\<close> appends each element.\<close>

fun append_each :: "('a \<Rightarrow> ('t, 'v) mval) \<Rightarrow> 'a list \<Rightarrow> ('t, 'v) amarsh" where
  "append_each f [] = ARet None"
| "append_each f (x # xs) = AAppend (f x) (\<lambda>_. append_each f xs)"

definition bools :: "bool list \<Rightarrow> ('t, 'v) amarsh" where
  "bools = append_each (\<lambda>v. VPrim (PBool v))"

definition byteStringsArray :: "bytes list \<Rightarrow> ('t, 'v) amarsh" where
  "byteStringsArray = append_each (\<lambda>v. VPrim (PByteString v))"

definition float64s :: "uint64 list \<Rightarrow> ('t, 'v) amarsh" where
  "float64s = append_each (\<lambda>v. VPrim (PFloat64 v))"

definition float32s :: "uint32 list \<Rightarrow> ('t, 'v) amarsh" where
  "float32s = append_each (\<lambda>v. VPrim (PFloat32 v))"

definition ints :: "int64 list \<Rightarrow> ('t, 'v) amarsh" where
  "ints = append_each (\<lambda>v. VPrim (PInt v))"

definition int64s :: "int64 list \<Rightarrow> ('t, 'v) amarsh" where
  "int64s = append_each (\<lambda>v. VPrim (PInt64 v))"

definition int32s :: "int32 list \<Rightarrow> ('t, 'v) amarsh" where
  "int32s = append_each (\<lambda>v. VPrim (PInt32 v))"

definition int16s :: "16 word list \<Rightarrow> ('t, 'v) amarsh" where
  "int16s = append_each (\<lambda>v. VPrim (PInt16 v))"

definition int8s :: "int8 list \<Rightarrow> ('t, 'v) amarsh" where
  "int8s = append_each (\<lambda>v. VPrim (PInt8 v))"

definition stringArray :: "bytes list \<Rightarrow> ('t, 'v) amarsh" where
  "stringArray = append_each (\<lambda>v. VPrim (PString v))"

definition uints :: "uint64 list \<Rightarrow> ('t, 'v) amarsh" where
  "uints = append_each (\<lambda>v. VPrim (PUint v))"

definition uint64s :: "uint64 list \<Rightarrow> ('t, 'v) amarsh" where
  "uint64s = append_each (\<lambda>v. VPrim (PUint64 v))"

definition uint32s :: "uint32 list \<Rightarrow> ('t, 'v) amarsh" where
  "uint32s = append_each (\<lambda>v. VPrim (PUint32 v))"

definition uint16s :: "16 word list \<Rightarrow> ('t, 'v) amarsh" where
  "uint16s = append_each (\<lambda>v. VPrim (PUint16 v))"

definition uint8s :: "8 word list \<Rightarrow> ('t, 'v) amarsh" where
  "uint8s = append_each (\<lambda>v. VPrim (PUint8 v))"

definition uintptrs :: "uint64 list \<Rightarrow> ('t, 'v) amarsh" where
  "uintptrs = append_each (\<lambda>v. VPrim (PUintptr v))"

definition complex128s :: "(uint64 \<times> uint64) list \<Rightarrow> ('t, 'v) amarsh" where
  "complex128s = append_each (\<lambda>(r, i). VPrim (PComplex128 r i))"

definition complex64s :: "(uint32 \<times> uint32) list \<Rightarrow> ('t, 'v) amarsh" where
  "complex64s = append_each (\<lambda>(r, i). VPrim (PComplex64 r i))"

definition durations :: "int64 list \<Rightarrow> ('t, 'v) amarsh" where
  "durations = append_each VDuration"

definition times :: "'t list \<Rightarrow> ('t, 'v) amarsh" where
  "times = append_each VTime"

fun objects :: "('t, 'v) omarsh list \<Rightarrow> ('t, 'v) amarsh" where
  "objects [] = ARet None"
| "objects (ob # os) =
     AAppend (VObject ob) (\<lambda>err. case err of Some e \<Rightarrow> ARet (Some e) | None \<Rightarrow> objects os)"

fun objectValues :: "('x \<Rightarrow> ('t, 'v) omarsh) \<Rightarrow> 'x list \<Rightarrow> ('t, 'v) amarsh" where
  "objectValues marshal [] = ARet None"
| "objectValues marshal (x # xs) =
     AAppend (VObject (marshal x))
       (\<lambda>err. case err of Some e \<Rightarrow> ARet (Some e) | None \<Rightarrow> objectValues marshal xs)"

text \<open>What calling \<^verbatim>\<open>String\<close> or \<^verbatim>\<open>Error\<close> does: the text, or a panic with a value printed as the
  given text, on a nil pointer or not.\<close>

datatype stringer = SOk bytes | SPanic bool bytes

fun stringers :: "stringer list \<Rightarrow> ('t, 'v) amarsh" where
  "stringers [] = ARet None"
| "stringers (SOk s # os) = AAppend (VPrim (PString s)) (\<lambda>_. stringers os)"
| "stringers (SPanic _ _ # os) = APanic"

section \<open>Errors\<close>

text \<open>An error with what its methods do: \<^verbatim>\<open>Error\<close>, and \<^verbatim>\<open>Errors\<close> (which may panic) if it is an
  \<^verbatim>\<open>errorGroup\<close>, or else the \<^verbatim>\<open>%+v\<close> text if it is a \<^verbatim>\<open>fmt.Formatter\<close>.  A nil error in a group is
  \<open>None\<close>.\<close>

datatype goerror = GoError stringer error_kind
and error_kind = EPlain | EGroup "goerror option list" | EGroupPanic bool bytes | EFormatter bytes

definition recovered :: "bytes \<Rightarrow> bool \<Rightarrow> bytes \<Rightarrow> ('t, 'v) omarsh" where
  "recovered key isnil msg =
     (if isnil then OAdd key (VPrim (PString ''<nil>'')) (\<lambda>_. ORet None)
      else ORet (Some (''PANIC='' @ msg)))"

fun encodeError :: "bytes \<Rightarrow> goerror \<Rightarrow> ('t, 'v) omarsh"
  and errArray :: "goerror option list \<Rightarrow> ('t, 'v) amarsh" where
  "encodeError key (GoError (SPanic isnil msg) kind) = recovered key isnil msg"
| "encodeError key (GoError (SOk basic) EPlain) =
     OAdd key (VPrim (PString basic)) (\<lambda>_. ORet None)"
| "encodeError key (GoError (SOk basic) (EGroup errs)) =
     OAdd key (VPrim (PString basic)) (\<lambda>_. OAdd (key @ ''Causes'') (VArray (errArray errs)) ORet)"
| "encodeError key (GoError (SOk basic) (EGroupPanic isnil msg)) =
     OAdd key (VPrim (PString basic)) (\<lambda>_. recovered key isnil msg)"
| "encodeError key (GoError (SOk basic) (EFormatter verbose)) =
     OAdd key (VPrim (PString basic))
       (\<lambda>_. if verbose \<noteq> basic
            then OAdd (key @ ''Verbose'') (VPrim (PString verbose)) (\<lambda>_. ORet None)
            else ORet None)"
| "errArray [] = ARet None"
| "errArray (None # errs) = errArray errs"
| "errArray (Some e # errs) =
     AAppend (VObject (encodeError ''error'' e))
       (\<lambda>err. case err of Some x \<Rightarrow> ARet (Some x) | None \<Rightarrow> errArray errs)"

definition encodeStringer :: "bytes \<Rightarrow> stringer \<Rightarrow> ('t, 'v) omarsh" where
  "encodeStringer key st =
     (case st of
        SOk s \<Rightarrow> OAdd key (VPrim (PString s)) (\<lambda>_. ORet None)
      | SPanic isnil msg \<Rightarrow> recovered key isnil msg)"

end
