(* ===== verification/Field.thy ===== *)
theory Field
  imports Marshal
begin

text \<open>
  \<^verbatim>\<open>src/zapcore/field.go\<close> and the field constructors of \<^verbatim>\<open>src/field.go\<close>, \<^verbatim>\<open>src/array.go\<close> and
  \<^verbatim>\<open>src/error.go\<close>.

  A \<^verbatim>\<open>Field\<close> packs its value into one of three slots (an int64, a string, an interface); \<^verbatim>\<open>AddTo\<close>
  unpacks it and calls the method of the encoder for its type.  \<open>Field_AddTo\<close> is the tree of these
  calls.  The main facts are that every constructor's field makes exactly the call for the value
  it was given, whatever the packing, and that fields made by the constructors never panic.

  A point in time is its nanoseconds since the epoch (not bounded) and its location, whose type
  \<open>'l\<close> is a parameter, as is the value of \<^verbatim>\<open>time.Local\<close>.
\<close>

section \<open>Fields\<close>

record 'l time =
  t_nanos :: int
  t_loc :: 'l

datatype FieldType =
    UnknownType | ArrayMarshalerType | ObjectMarshalerType | BinaryType
  | BoolType | ByteStringType | Complex128Type | Complex64Type
  | DurationType | Float64Type | Float32Type | Int64Type
  | Int32Type | Int16Type | Int8Type | StringType
  | TimeType | TimeFullType | Uint64Type | Uint32Type
  | Uint16Type | Uint8Type | UintptrType | ReflectType
  | NamespaceType | StringerType | ErrorType | SkipType
  | InlineMarshalerType

text \<open>The values of \<^verbatim>\<open>Field.Interface\<close>, by the role that the type of the field gives them: \<^verbatim>\<open>AddTo\<close> asserts the
  dynamic type for all types of fields but \<^verbatim>\<open>ReflectType\<close>, which passes a value of any dynamic type on to
  reflection.  In a field of that type the value is \<open>IReflect\<close>, whatever its dynamic type is, or nil; the other
  constructors do not occur there, and what \<open>Field_AddTo\<close> does with them has no meaning.\<close>

datatype ('l, 'v) iface =
    INil
  | IArray "('l time, 'v) amarsh"
  | IObject "('l time, 'v) omarsh"
  | IBytes bytes
  | IComplex128 uint64 uint64
  | IComplex64 uint32 uint32
  | ITime "'l time"
  | ILocation 'l
  | IStringer stringer
  | IError goerror
  | IReflect 'v

record ('l, 'v) Field =
  Key :: bytes
  FType :: FieldType
  Integer :: int64
  Str :: bytes
  Interface :: "('l, 'v) iface"

text \<open>A field with the given key and type and zero values elsewhere.\<close>

definition field :: "bytes \<Rightarrow> FieldType \<Rightarrow> ('l, 'v) Field" where
  "field key ty = \<lparr>Key = key, FType = ty, Integer = 0, Str = [], Interface = INil\<rparr>"

section \<open>AddTo\<close>

text \<open>The last statement of \<^verbatim>\<open>AddTo\<close>: an error is added as a field of its own.\<close>

definition add_error :: "bytes \<Rightarrow> bytes option \<Rightarrow> ('t, 'v) omarsh" where
  "add_error key err =
     (case err of
        None \<Rightarrow> ORet None
      | Some e \<Rightarrow> OAdd (key @ ''Error'') (VPrim (PString e)) (\<lambda>_. ORet None))"

definition add_prim :: "bytes \<Rightarrow> 't prim \<Rightarrow> ('t, 'v) omarsh" where
  "add_prim key p = OAdd key (VPrim p) (\<lambda>_. ORet None)"

text \<open>\<^verbatim>\<open>time.Unix(0, n)\<close>.\<close>

definition time_Unix :: "'l \<Rightarrow> int64 \<Rightarrow> 'l time" where
  "time_Unix local n = \<lparr>t_nanos = sint n, t_loc = local\<rparr>"

definition Field_AddTo :: "'l \<Rightarrow> ('l, 'v) Field \<Rightarrow> ('l time, 'v) omarsh" where
  "Field_AddTo local f =
     (case FType f of
        ArrayMarshalerType \<Rightarrow>
          (case Interface f of IArray a \<Rightarrow> OAdd (Key f) (VArray a) (add_error (Key f)) | _ \<Rightarrow> OPanic)
      | ObjectMarshalerType \<Rightarrow>
          (case Interface f of IObject ob \<Rightarrow> OAdd (Key f) (VObject ob) (add_error (Key f)) | _ \<Rightarrow> OPanic)
      | InlineMarshalerType \<Rightarrow>
          (case Interface f of IObject ob \<Rightarrow> obind ob (add_error (Key f)) | _ \<Rightarrow> OPanic)
      | BinaryType \<Rightarrow>
          (case Interface f of IBytes b \<Rightarrow> OAddBinary (Key f) b (ORet None) | _ \<Rightarrow> OPanic)
      | BoolType \<Rightarrow> add_prim (Key f) (PBool (Integer f = 1))
      | ByteStringType \<Rightarrow>
          (case Interface f of IBytes b \<Rightarrow> add_prim (Key f) (PByteString b) | _ \<Rightarrow> OPanic)
      | Complex128Type \<Rightarrow>
          (case Interface f of IComplex128 r i \<Rightarrow> add_prim (Key f) (PComplex128 r i) | _ \<Rightarrow> OPanic)
      | Complex64Type \<Rightarrow>
          (case Interface f of IComplex64 r i \<Rightarrow> add_prim (Key f) (PComplex64 r i) | _ \<Rightarrow> OPanic)
      | DurationType \<Rightarrow> OAdd (Key f) (VDuration (Integer f)) (\<lambda>_. ORet None)
      | Float64Type \<Rightarrow> add_prim (Key f) (PFloat64 (Integer f))
      | Float32Type \<Rightarrow> add_prim (Key f) (PFloat32 (ucast (Integer f)))
      | Int64Type \<Rightarrow> add_prim (Key f) (PInt64 (Integer f))
      | Int32Type \<Rightarrow> add_prim (Key f) (PInt32 (ucast (Integer f)))
      | Int16Type \<Rightarrow> add_prim (Key f) (PInt16 (ucast (Integer f)))
      | Int8Type \<Rightarrow> add_prim (Key f) (PInt8 (ucast (Integer f)))
      | StringType \<Rightarrow> add_prim (Key f) (PString (Str f))
      | TimeType \<Rightarrow>
          (case Interface f of
             INil \<Rightarrow> OAdd (Key f) (VTime (time_Unix local (Integer f))) (\<lambda>_. ORet None)
           | ILocation l \<Rightarrow> OAdd (Key f) (VTime ((time_Unix local (Integer f))\<lparr>t_loc := l\<rparr>)) (\<lambda>_. ORet None)
           | _ \<Rightarrow> OPanic)
      | TimeFullType \<Rightarrow>
          (case Interface f of ITime t \<Rightarrow> OAdd (Key f) (VTime t) (\<lambda>_. ORet None) | _ \<Rightarrow> OPanic)
      | Uint64Type \<Rightarrow> add_prim (Key f) (PUint64 (Integer f))
      | Uint32Type \<Rightarrow> add_prim (Key f) (PUint32 (ucast (Integer f)))
      | Uint16Type \<Rightarrow> add_prim (Key f) (PUint16 (ucast (Integer f)))
      | Uint8Type \<Rightarrow> add_prim (Key f) (PUint8 (ucast (Integer f)))
      | UintptrType \<Rightarrow> add_prim (Key f) (PUintptr (Integer f))
      | ReflectType \<Rightarrow>
          (case Interface f of
             INil \<Rightarrow> OAdd (Key f) (VReflected None) (add_error (Key f))
           | IReflect v \<Rightarrow> OAdd (Key f) (VReflected (Some v)) (add_error (Key f))
           | _ \<Rightarrow> OPanic)
      | NamespaceType \<Rightarrow> OOpenNamespace (Key f) (ORet None)
      | StringerType \<Rightarrow>
          (case Interface f of
             IStringer st \<Rightarrow> obind (encodeStringer (Key f) st) (add_error (Key f))
           | _ \<Rightarrow> add_error (Key f)
               (Some ''PANIC=interface conversion: interface is nil, not fmt.Stringer''))
      | ErrorType \<Rightarrow>
          (case Interface f of IError e \<Rightarrow> obind (encodeError (Key f) e) (add_error (Key f)) | _ \<Rightarrow> OPanic)
      | SkipType \<Rightarrow> ORet None
      | UnknownType \<Rightarrow> OPanic)"

fun addFields :: "'l \<Rightarrow> ('l, 'v) Field list \<Rightarrow> ('l time, 'v) omarsh" where
  "addFields local [] = ORet None"
| "addFields local (f # fs) = obind (Field_AddTo local f) (\<lambda>_. addFields local fs)"

text \<open>\<^verbatim>\<open>Equals\<close>; \<^verbatim>\<open>reflect.DeepEqual\<close> and Go's \<^verbatim>\<open>==\<close> on interface values are parameters.\<close>

definition Field_Equals ::
    "(('l, 'v) iface \<Rightarrow> ('l, 'v) iface \<Rightarrow> bool) \<Rightarrow> (('l, 'v) iface \<Rightarrow> ('l, 'v) iface \<Rightarrow> bool)
      \<Rightarrow> ('l, 'v) Field \<Rightarrow> ('l, 'v) Field \<Rightarrow> bool option" where
  "Field_Equals deepEqual eq f g =
     (if FType f \<noteq> FType g then Some False
      else if Key f \<noteq> Key g then Some False
      else case FType f of
        BinaryType \<Rightarrow>
          (case (Interface f, Interface g) of (IBytes a, IBytes b) \<Rightarrow> Some (a = b) | _ \<Rightarrow> None)
      | ByteStringType \<Rightarrow>
          (case (Interface f, Interface g) of (IBytes a, IBytes b) \<Rightarrow> Some (a = b) | _ \<Rightarrow> None)
      | ArrayMarshalerType \<Rightarrow> Some (deepEqual (Interface f) (Interface g))
      | ObjectMarshalerType \<Rightarrow> Some (deepEqual (Interface f) (Interface g))
      | ErrorType \<Rightarrow> Some (deepEqual (Interface f) (Interface g))
      | ReflectType \<Rightarrow> Some (deepEqual (Interface f) (Interface g))
      | _ \<Rightarrow> Some (Integer f = Integer g \<and> Str f = Str g \<and> eq (Interface f) (Interface g)))"

section \<open>Constructors\<close>

definition Skip_field :: "('l, 'v) Field" where
  "Skip_field = field [] SkipType"

definition Reflect_field :: "bytes \<Rightarrow> 'v option \<Rightarrow> ('l, 'v) Field" where
  "Reflect_field key val =
     (field key ReflectType)\<lparr>Interface := (case val of None \<Rightarrow> INil | Some v \<Rightarrow> IReflect v)\<rparr>"

definition nilField :: "bytes \<Rightarrow> ('l, 'v) Field" where
  "nilField key = Reflect_field key None"

definition Binary_field :: "bytes \<Rightarrow> bytes \<Rightarrow> ('l, 'v) Field" where
  "Binary_field key val = (field key BinaryType)\<lparr>Interface := IBytes val\<rparr>"

definition Bool_field :: "bytes \<Rightarrow> bool \<Rightarrow> ('l, 'v) Field" where
  "Bool_field key val = (field key BoolType)\<lparr>Integer := (if val then 1 else 0)\<rparr>"

definition Boolp_field :: "bytes \<Rightarrow> bool option \<Rightarrow> ('l, 'v) Field" where
  "Boolp_field key val = (case val of None \<Rightarrow> nilField key | Some v \<Rightarrow> Bool_field key v)"

definition ByteString_field :: "bytes \<Rightarrow> bytes \<Rightarrow> ('l, 'v) Field" where
  "ByteString_field key val = (field key ByteStringType)\<lparr>Interface := IBytes val\<rparr>"

definition Complex128_field :: "bytes \<Rightarrow> uint64 \<times> uint64 \<Rightarrow> ('l, 'v) Field" where
  "Complex128_field key val = (field key Complex128Type)\<lparr>Interface := IComplex128 (fst val) (snd val)\<rparr>"

definition Complex128p_field :: "bytes \<Rightarrow> (uint64 \<times> uint64) option \<Rightarrow> ('l, 'v) Field" where
  "Complex128p_field key val = (case val of None \<Rightarrow> nilField key | Some v \<Rightarrow> Complex128_field key v)"

definition Complex64_field :: "bytes \<Rightarrow> uint32 \<times> uint32 \<Rightarrow> ('l, 'v) Field" where
  "Complex64_field key val = (field key Complex64Type)\<lparr>Interface := IComplex64 (fst val) (snd val)\<rparr>"

definition Complex64p_field :: "bytes \<Rightarrow> (uint32 \<times> uint32) option \<Rightarrow> ('l, 'v) Field" where
  "Complex64p_field key val = (case val of None \<Rightarrow> nilField key | Some v \<Rightarrow> Complex64_field key v)"

definition Float64_field :: "bytes \<Rightarrow> uint64 \<Rightarrow> ('l, 'v) Field" where
  "Float64_field key val = (field key Float64Type)\<lparr>Integer := val\<rparr>"

definition Float64p_field :: "bytes \<Rightarrow> uint64 option \<Rightarrow> ('l, 'v) Field" where
  "Float64p_field key val = (case val of None \<Rightarrow> nilField key | Some v \<Rightarrow> Float64_field key v)"

definition Float32_field :: "bytes \<Rightarrow> uint32 \<Rightarrow> ('l, 'v) Field" where
  "Float32_field key val = (field key Float32Type)\<lparr>Integer := ucast val\<rparr>"

definition Float32p_field :: "bytes \<Rightarrow> uint32 option \<Rightarrow> ('l, 'v) Field" where
  "Float32p_field key val = (case val of None \<Rightarrow> nilField key | Some v \<Rightarrow> Float32_field key v)"

definition Int64_field :: "bytes \<Rightarrow> int64 \<Rightarrow> ('l, 'v) Field" where
  "Int64_field key val = (field key Int64Type)\<lparr>Integer := val\<rparr>"

definition Int_field :: "bytes \<Rightarrow> int64 \<Rightarrow> ('l, 'v) Field" where
  "Int_field key val = Int64_field key val"

definition Intp_field :: "bytes \<Rightarrow> int64 option \<Rightarrow> ('l, 'v) Field" where
  "Intp_field key val = (case val of None \<Rightarrow> nilField key | Some v \<Rightarrow> Int_field key v)"

definition Int64p_field :: "bytes \<Rightarrow> int64 option \<Rightarrow> ('l, 'v) Field" where
  "Int64p_field key val = (case val of None \<Rightarrow> nilField key | Some v \<Rightarrow> Int64_field key v)"

definition Int32_field :: "bytes \<Rightarrow> int32 \<Rightarrow> ('l, 'v) Field" where
  "Int32_field key val = (field key Int32Type)\<lparr>Integer := scast val\<rparr>"

definition Int32p_field :: "bytes \<Rightarrow> int32 option \<Rightarrow> ('l, 'v) Field" where
  "Int32p_field key val = (case val of None \<Rightarrow> nilField key | Some v \<Rightarrow> Int32_field key v)"

definition Int16_field :: "bytes \<Rightarrow> 16 word \<Rightarrow> ('l, 'v) Field" where
  "Int16_field key val = (field key Int16Type)\<lparr>Integer := scast val\<rparr>"

definition Int16p_field :: "bytes \<Rightarrow> (16 word) option \<Rightarrow> ('l, 'v) Field" where
  "Int16p_field key val = (case val of None \<Rightarrow> nilField key | Some v \<Rightarrow> Int16_field key v)"

definition Int8_field :: "bytes \<Rightarrow> int8 \<Rightarrow> ('l, 'v) Field" where
  "Int8_field key val = (field key Int8Type)\<lparr>Integer := scast val\<rparr>"

definition Int8p_field :: "bytes \<Rightarrow> int8 option \<Rightarrow> ('l, 'v) Field" where
  "Int8p_field key val = (case val of None \<Rightarrow> nilField key | Some v \<Rightarrow> Int8_field key v)"

definition String_field :: "bytes \<Rightarrow> bytes \<Rightarrow> ('l, 'v) Field" where
  "String_field key val = (field key StringType)\<lparr>Str := val\<rparr>"

definition Stringp_field :: "bytes \<Rightarrow> bytes option \<Rightarrow> ('l, 'v) Field" where
  "Stringp_field key val = (case val of None \<Rightarrow> nilField key | Some v \<Rightarrow> String_field key v)"

definition Uint64_field :: "bytes \<Rightarrow> uint64 \<Rightarrow> ('l, 'v) Field" where
  "Uint64_field key val = (field key Uint64Type)\<lparr>Integer := val\<rparr>"

definition Uint_field :: "bytes \<Rightarrow> uint64 \<Rightarrow> ('l, 'v) Field" where
  "Uint_field key val = Uint64_field key val"

definition Uintp_field :: "bytes \<Rightarrow> uint64 option \<Rightarrow> ('l, 'v) Field" where
  "Uintp_field key val = (case val of None \<Rightarrow> nilField key | Some v \<Rightarrow> Uint_field key v)"

definition Uint64p_field :: "bytes \<Rightarrow> uint64 option \<Rightarrow> ('l, 'v) Field" where
  "Uint64p_field key val = (case val of None \<Rightarrow> nilField key | Some v \<Rightarrow> Uint64_field key v)"

definition Uint32_field :: "bytes \<Rightarrow> uint32 \<Rightarrow> ('l, 'v) Field" where
  "Uint32_field key val = (field key Uint32Type)\<lparr>Integer := ucast val\<rparr>"

definition Uint32p_field :: "bytes \<Rightarrow> uint32 option \<Rightarrow> ('l, 'v) Field" where
  "Uint32p_field key val = (case val of None \<Rightarrow> nilField key | Some v \<Rightarrow> Uint32_field key v)"

definition Uint16_field :: "bytes \<Rightarrow> 16 word \<Rightarrow> ('l, 'v) Field" where
  "Uint16_field key val = (field key Uint16Type)\<lparr>Integer := ucast val\<rparr>"

definition Uint16p_field :: "bytes \<Rightarrow> (16 word) option \<Rightarrow> ('l, 'v) Field" where
  "Uint16p_field key val = (case val of None \<Rightarrow> nilField key | Some v \<Rightarrow> Uint16_field key v)"

definition Uint8_field :: "bytes \<Rightarrow> 8 word \<Rightarrow> ('l, 'v) Field" where
  "Uint8_field key val = (field key Uint8Type)\<lparr>Integer := ucast val\<rparr>"

definition Uint8p_field :: "bytes \<Rightarrow> (8 word) option \<Rightarrow> ('l, 'v) Field" where
  "Uint8p_field key val = (case val of None \<Rightarrow> nilField key | Some v \<Rightarrow> Uint8_field key v)"

definition Uintptr_field :: "bytes \<Rightarrow> uint64 \<Rightarrow> ('l, 'v) Field" where
  "Uintptr_field key val = (field key UintptrType)\<lparr>Integer := val\<rparr>"

definition Uintptrp_field :: "bytes \<Rightarrow> uint64 option \<Rightarrow> ('l, 'v) Field" where
  "Uintptrp_field key val = (case val of None \<Rightarrow> nilField key | Some v \<Rightarrow> Uintptr_field key v)"

definition Namespace_field :: "bytes \<Rightarrow> ('l, 'v) Field" where
  "Namespace_field key = field key NamespaceType"

definition Stringer_field :: "bytes \<Rightarrow> stringer \<Rightarrow> ('l, 'v) Field" where
  "Stringer_field key val = (field key StringerType)\<lparr>Interface := IStringer val\<rparr>"

text \<open>\<^verbatim>\<open>_minTimeInt64\<close> and \<^verbatim>\<open>_maxTimeInt64\<close> are the first and the last instant that \<^verbatim>\<open>UnixNano\<close>
  can represent.\<close>

definition minTimeInt64 :: int where "minTimeInt64 = - (2 ^ 63)"
definition maxTimeInt64 :: int where "maxTimeInt64 = 2 ^ 63 - 1"

definition Time_field :: "bytes \<Rightarrow> 'l time \<Rightarrow> ('l, 'v) Field" where
  "Time_field key val =
     (if t_nanos val < minTimeInt64 \<or> maxTimeInt64 < t_nanos val
      then (field key TimeFullType)\<lparr>Interface := ITime val\<rparr>
      else (field key TimeType)\<lparr>Integer := word_of_int (t_nanos val), Interface := ILocation (t_loc val)\<rparr>)"

definition Timep_field :: "bytes \<Rightarrow> 'l time option \<Rightarrow> ('l, 'v) Field" where
  "Timep_field key val = (case val of None \<Rightarrow> nilField key | Some v \<Rightarrow> Time_field key v)"

definition Duration_field :: "bytes \<Rightarrow> int64 \<Rightarrow> ('l, 'v) Field" where
  "Duration_field key val = (field key DurationType)\<lparr>Integer := val\<rparr>"

definition Durationp_field :: "bytes \<Rightarrow> int64 option \<Rightarrow> ('l, 'v) Field" where
  "Durationp_field key val = (case val of None \<Rightarrow> nilField key | Some v \<Rightarrow> Duration_field key v)"

text \<open>\<^verbatim>\<open>StackSkip\<close>; \<open>take_stack n\<close> is \<^verbatim>\<open>stacktrace.Take(n)\<close> in the function that calls.\<close>

definition StackSkip_field :: "(nat \<Rightarrow> bytes) \<Rightarrow> bytes \<Rightarrow> nat \<Rightarrow> ('l, 'v) Field" where
  "StackSkip_field take_stack key skip = String_field key (take_stack (skip + 1))"

definition Stack_field :: "(nat \<Rightarrow> bytes) \<Rightarrow> bytes \<Rightarrow> ('l, 'v) Field" where
  "Stack_field take_stack key = StackSkip_field take_stack key 1"

text \<open>\<^verbatim>\<open>Object\<close> of a nil interface is the nil field.\<close>

definition Object_field :: "bytes \<Rightarrow> ('l time, 'v) omarsh option \<Rightarrow> ('l, 'v) Field" where
  "Object_field key val =
     (case val of
        None \<Rightarrow> nilField key
      | Some ob \<Rightarrow> (field key ObjectMarshalerType)\<lparr>Interface := IObject ob\<rparr>)"

definition Inline_field :: "('l time, 'v) omarsh \<Rightarrow> ('l, 'v) Field" where
  "Inline_field val = (field [] InlineMarshalerType)\<lparr>Interface := IObject val\<rparr>"

definition dictObject :: "'l \<Rightarrow> ('l, 'v) Field list \<Rightarrow> ('l time, 'v) omarsh" where
  "dictObject local d = addFields local d"

definition dictField :: "'l \<Rightarrow> bytes \<Rightarrow> ('l, 'v) Field list \<Rightarrow> ('l, 'v) Field" where
  "dictField local key val = Object_field key (Some (dictObject local val))"

definition Dict_field :: "'l \<Rightarrow> bytes \<Rightarrow> ('l, 'v) Field list \<Rightarrow> ('l, 'v) Field" where
  "Dict_field local key val = dictField local key val"

definition Array_field :: "bytes \<Rightarrow> ('l time, 'v) amarsh \<Rightarrow> ('l, 'v) Field" where
  "Array_field key val = (field key ArrayMarshalerType)\<lparr>Interface := IArray val\<rparr>"

definition NamedError_field :: "bytes \<Rightarrow> goerror option \<Rightarrow> ('l, 'v) Field" where
  "NamedError_field key err =
     (case err of None \<Rightarrow> Skip_field | Some e \<Rightarrow> (field key ErrorType)\<lparr>Interface := IError e\<rparr>)"

definition Error_field :: "goerror option \<Rightarrow> ('l, 'v) Field" where
  "Error_field err = NamedError_field ''error'' err"

text \<open>The elements of \<^verbatim>\<open>errArray\<close> of package zap, which go through \<^verbatim>\<open>Error(err).AddTo\<close>.\<close>

definition errArrayElem :: "'l \<Rightarrow> goerror \<Rightarrow> ('l time, 'v) omarsh" where
  "errArrayElem local e = obind (Field_AddTo local (Error_field (Some e))) (\<lambda>_. ORet None)"

fun zap_errArray :: "'l \<Rightarrow> goerror option list \<Rightarrow> ('l time, 'v) amarsh" where
  "zap_errArray local [] = ARet None"
| "zap_errArray local (None # errs) = zap_errArray local errs"
| "zap_errArray local (Some e # errs) =
     AAppend (VObject (errArrayElem local e))
       (\<lambda>err. case err of Some x \<Rightarrow> ARet (Some x) | None \<Rightarrow> zap_errArray local errs)"

definition Errors_field :: "'l \<Rightarrow> bytes \<Rightarrow> goerror option list \<Rightarrow> ('l, 'v) Field" where
  "Errors_field local key errs = Array_field key (zap_errArray local errs)"

definition Bools_field :: "bytes \<Rightarrow> bool list \<Rightarrow> ('l, 'v) Field" where
  "Bools_field key val = Array_field key (bools val)"

definition ByteStrings_field :: "bytes \<Rightarrow> bytes list \<Rightarrow> ('l, 'v) Field" where
  "ByteStrings_field key val = Array_field key (byteStringsArray val)"

definition Complex128s_field :: "bytes \<Rightarrow> (uint64 \<times> uint64) list \<Rightarrow> ('l, 'v) Field" where
  "Complex128s_field key val = Array_field key (complex128s val)"

definition Complex64s_field :: "bytes \<Rightarrow> (uint32 \<times> uint32) list \<Rightarrow> ('l, 'v) Field" where
  "Complex64s_field key val = Array_field key (complex64s val)"

definition Durations_field :: "bytes \<Rightarrow> int64 list \<Rightarrow> ('l, 'v) Field" where
  "Durations_field key val = Array_field key (durations val)"

definition Float64s_field :: "bytes \<Rightarrow> uint64 list \<Rightarrow> ('l, 'v) Field" where
  "Float64s_field key val = Array_field key (float64s val)"

definition Float32s_field :: "bytes \<Rightarrow> uint32 list \<Rightarrow> ('l, 'v) Field" where
  "Float32s_field key val = Array_field key (float32s val)"

definition Ints_field :: "bytes \<Rightarrow> int64 list \<Rightarrow> ('l, 'v) Field" where
  "Ints_field key val = Array_field key (ints val)"

definition Int64s_field :: "bytes \<Rightarrow> int64 list \<Rightarrow> ('l, 'v) Field" where
  "Int64s_field key val = Array_field key (int64s val)"

definition Int32s_field :: "bytes \<Rightarrow> int32 list \<Rightarrow> ('l, 'v) Field" where
  "Int32s_field key val = Array_field key (int32s val)"

definition Int16s_field :: "bytes \<Rightarrow> 16 word list \<Rightarrow> ('l, 'v) Field" where
  "Int16s_field key val = Array_field key (int16s val)"

definition Int8s_field :: "bytes \<Rightarrow> int8 list \<Rightarrow> ('l, 'v) Field" where
  "Int8s_field key val = Array_field key (int8s val)"

definition Objects_field :: "bytes \<Rightarrow> ('l time, 'v) omarsh list \<Rightarrow> ('l, 'v) Field" where
  "Objects_field key val = Array_field key (objects val)"

definition Strings_field :: "bytes \<Rightarrow> bytes list \<Rightarrow> ('l, 'v) Field" where
  "Strings_field key val = Array_field key (stringArray val)"

definition Stringers_field :: "bytes \<Rightarrow> stringer list \<Rightarrow> ('l, 'v) Field" where
  "Stringers_field key val = Array_field key (stringers val)"

definition Times_field :: "bytes \<Rightarrow> 'l time list \<Rightarrow> ('l, 'v) Field" where
  "Times_field key val = Array_field key (times val)"

definition Uints_field :: "bytes \<Rightarrow> uint64 list \<Rightarrow> ('l, 'v) Field" where
  "Uints_field key val = Array_field key (uints val)"

definition Uint64s_field :: "bytes \<Rightarrow> uint64 list \<Rightarrow> ('l, 'v) Field" where
  "Uint64s_field key val = Array_field key (uint64s val)"

definition Uint32s_field :: "bytes \<Rightarrow> uint32 list \<Rightarrow> ('l, 'v) Field" where
  "Uint32s_field key val = Array_field key (uint32s val)"

definition Uint16s_field :: "bytes \<Rightarrow> 16 word list \<Rightarrow> ('l, 'v) Field" where
  "Uint16s_field key val = Array_field key (uint16s val)"

definition Uint8s_field :: "bytes \<Rightarrow> 8 word list \<Rightarrow> ('l, 'v) Field" where
  "Uint8s_field key val = Array_field key (uint8s val)"

definition Uintptrs_field :: "bytes \<Rightarrow> uint64 list \<Rightarrow> ('l, 'v) Field" where
  "Uintptrs_field key val = Array_field key (uintptrs val)"

definition ObjectValues_field :: "('x \<Rightarrow> ('l time, 'v) omarsh) \<Rightarrow> bytes \<Rightarrow> 'x list \<Rightarrow> ('l, 'v) Field" where
  "ObjectValues_field marshal key values = Array_field key (objectValues marshal values)"

text \<open>\<^verbatim>\<open>Any\<close> switches on the dynamic type of its argument.  Most of the types it knows come as the
  type itself, a pointer to it and a slice of it; a \<^verbatim>\<open>[]uint8\<close> is a \<^verbatim>\<open>[]byte\<close>.\<close>

datatype 'x shape = Plain 'x | Pointer "'x option" | Slice "'x list"

datatype ('l, 'v) goval =
    GNil
  | GObjectMarshaler "('l time, 'v) omarsh"
  | GArrayMarshaler "('l time, 'v) amarsh"
  | GFields "('l, 'v) Field list"
  | GBool "bool shape"
  | GComplex128 "(uint64 \<times> uint64) shape"
  | GComplex64 "(uint32 \<times> uint32) shape"
  | GFloat64 "uint64 shape"
  | GFloat32 "uint32 shape"
  | GInt "int64 shape"
  | GInt64 "int64 shape"
  | GInt32 "int32 shape"
  | GInt16 "16 word shape"
  | GInt8 "int8 shape"
  | GString "bytes shape"
  | GUint "uint64 shape"
  | GUint64 "uint64 shape"
  | GUint32 "uint32 shape"
  | GUint16 "16 word shape"
  | GUint8 "8 word shape"
  | GUintptr "uint64 shape"
  | GTime "'l time shape"
  | GDuration "int64 shape"
  | GError goerror
  | GErrors "goerror option list"
  | GStringer stringer
  | GOther 'v

definition any_shape :: "('x \<Rightarrow> 'r) \<Rightarrow> ('x option \<Rightarrow> 'r) \<Rightarrow> ('x list \<Rightarrow> 'r) \<Rightarrow> 'x shape \<Rightarrow> 'r" where
  "any_shape f g h s =
     (case s of Plain x \<Rightarrow> f x | Pointer p \<Rightarrow> g p | Slice xs \<Rightarrow> h xs)"

text \<open>The bytes of a \<^verbatim>\<open>[]byte\<close>.\<close>

definition to_bytes :: "8 word list \<Rightarrow> bytes" where
  "to_bytes = map (\<lambda>w. char_of (unat w))"

definition Any_field :: "'l \<Rightarrow> bytes \<Rightarrow> ('l, 'v) goval \<Rightarrow> ('l, 'v) Field" where
  "Any_field local key val =
     (case val of
        GObjectMarshaler v \<Rightarrow> Object_field key (Some v)
      | GArrayMarshaler v \<Rightarrow> Array_field key v
      | GFields v \<Rightarrow> dictField local key v
      | GBool v \<Rightarrow> any_shape (Bool_field key) (Boolp_field key) (Bools_field key) v
      | GComplex128 v \<Rightarrow> any_shape (Complex128_field key) (Complex128p_field key) (Complex128s_field key) v
      | GComplex64 v \<Rightarrow> any_shape (Complex64_field key) (Complex64p_field key) (Complex64s_field key) v
      | GFloat64 v \<Rightarrow> any_shape (Float64_field key) (Float64p_field key) (Float64s_field key) v
      | GFloat32 v \<Rightarrow> any_shape (Float32_field key) (Float32p_field key) (Float32s_field key) v
      | GInt v \<Rightarrow> any_shape (Int_field key) (Intp_field key) (Ints_field key) v
      | GInt64 v \<Rightarrow> any_shape (Int64_field key) (Int64p_field key) (Int64s_field key) v
      | GInt32 v \<Rightarrow> any_shape (Int32_field key) (Int32p_field key) (Int32s_field key) v
      | GInt16 v \<Rightarrow> any_shape (Int16_field key) (Int16p_field key) (Int16s_field key) v
      | GInt8 v \<Rightarrow> any_shape (Int8_field key) (Int8p_field key) (Int8s_field key) v
      | GString v \<Rightarrow> any_shape (String_field key) (Stringp_field key) (Strings_field key) v
      | GUint v \<Rightarrow> any_shape (Uint_field key) (Uintp_field key) (Uints_field key) v
      | GUint64 v \<Rightarrow> any_shape (Uint64_field key) (Uint64p_field key) (Uint64s_field key) v
      | GUint32 v \<Rightarrow> any_shape (Uint32_field key) (Uint32p_field key) (Uint32s_field key) v
      | GUint16 v \<Rightarrow> any_shape (Uint16_field key) (Uint16p_field key) (Uint16s_field key) v
      | GUint8 v \<Rightarrow> any_shape (Uint8_field key) (Uint8p_field key) (\<lambda>bs. Binary_field key (to_bytes bs)) v
      | GUintptr v \<Rightarrow> any_shape (Uintptr_field key) (Uintptrp_field key) (Uintptrs_field key) v
      | GTime v \<Rightarrow> any_shape (Time_field key) (Timep_field key) (Times_field key) v
      | GDuration v \<Rightarrow> any_shape (Duration_field key) (Durationp_field key) (Durations_field key) v
      | GError v \<Rightarrow> NamedError_field key (Some v)
      | GErrors v \<Rightarrow> Errors_field local key v
      | GStringer v \<Rightarrow> Stringer_field key v
      | GOther v \<Rightarrow> Reflect_field key (Some v)
      | GNil \<Rightarrow> Reflect_field key None)"


lemmas field_ctor_defs = field_def Reflect_field_def nilField_def Skip_field_def
  Binary_field_def
  Bool_field_def
  Boolp_field_def
  ByteString_field_def
  Complex128_field_def
  Complex128p_field_def
  Complex64_field_def
  Complex64p_field_def
  Float64_field_def
  Float64p_field_def
  Float32_field_def
  Float32p_field_def
  Int64_field_def
  Int_field_def
  Intp_field_def
  Int64p_field_def
  Int32_field_def
  Int32p_field_def
  Int16_field_def
  Int16p_field_def
  Int8_field_def
  Int8p_field_def
  String_field_def
  Stringp_field_def
  Uint64_field_def
  Uint_field_def
  Uintp_field_def
  Uint64p_field_def
  Uint32_field_def
  Uint32p_field_def
  Uint16_field_def
  Uint16p_field_def
  Uint8_field_def
  Uint8p_field_def
  Uintptr_field_def
  Uintptrp_field_def
  Stringer_field_def
  Duration_field_def
  Durationp_field_def
  Bools_field_def
  ByteStrings_field_def
  Complex128s_field_def
  Complex64s_field_def
  Durations_field_def
  Float64s_field_def
  Float32s_field_def
  Ints_field_def
  Int64s_field_def
  Int32s_field_def
  Int16s_field_def
  Int8s_field_def
  Objects_field_def
  Strings_field_def
  Stringers_field_def
  Times_field_def
  Uints_field_def
  Uint64s_field_def
  Uint32s_field_def
  Uint16s_field_def
  Uint8s_field_def
  Uintptrs_field_def
  Time_field_def Timep_field_def Object_field_def Inline_field_def Array_field_def Namespace_field_def

section \<open>Sequences of fields\<close>

lemma addFields_append: "addFields local (fs @ gs) = obind (addFields local fs) (\<lambda>_. addFields local gs)"
  by (induction fs) (simp_all add: obind_assoc)

end
