(* ===== verification/Level.thy ===== *)
theory Level
  imports Zap_Prelude
begin

text \<open>
  \<^verbatim>\<open>src/zapcore/level.go\<close>, \<^verbatim>\<open>src/zapcore/level_strings.go\<close>, \<^verbatim>\<open>src/internal/color/color.go\<close>
  and \<^verbatim>\<open>src/level.go\<close>: log levels, their text forms, the enablers that decide which levels are
  logged, and the dynamic level.

  A \<^verbatim>\<open>Level\<close> is Go's \<^verbatim>\<open>int8\<close>, an 8-bit word compared as a signed number.  A \<^verbatim>\<open>*Level\<close> is a
  \<open>Level option\<close>, \<open>None\<close> being the nil pointer; a method with a pointer receiver returns the
  pointed-to value after the call.  An \<^verbatim>\<open>AtomicLevel\<close> is the 32-bit cell it points to, or nil.
\<close>

section \<open>Levels\<close>

type_synonym Level = int8

definition DebugLevel :: Level where "DebugLevel = -1"
definition InfoLevel :: Level where "InfoLevel = 0"
definition WarnLevel :: Level where "WarnLevel = 1"
definition ErrorLevel :: Level where "ErrorLevel = 2"
definition DPanicLevel :: Level where "DPanicLevel = 3"
definition PanicLevel :: Level where "PanicLevel = 4"
definition FatalLevel :: Level where "FatalLevel = 5"

definition minLevel :: Level where "minLevel = DebugLevel"
definition maxLevel :: Level where "maxLevel = FatalLevel"
definition InvalidLevel :: Level where "InvalidLevel = maxLevel + 1"

lemmas level_defs = DebugLevel_def InfoLevel_def WarnLevel_def ErrorLevel_def DPanicLevel_def
  PanicLevel_def FatalLevel_def minLevel_def maxLevel_def InvalidLevel_def

lemma sint_levels [level_simps]:
  "sint DebugLevel = -1" "sint InfoLevel = 0" "sint WarnLevel = 1" "sint ErrorLevel = 2"
  "sint DPanicLevel = 3" "sint PanicLevel = 4" "sint FatalLevel = 5" "sint minLevel = -1"
  "sint maxLevel = 5" "sint InvalidLevel = 6"
  by (simp_all add: level_defs)

text \<open>\<^verbatim>\<open>Level.Enabled\<close>: \<^verbatim>\<open>lvl >= l\<close> on signed bytes.\<close>

definition Level_Enabled :: "Level \<Rightarrow> Level \<Rightarrow> bool" where
  "Level_Enabled l lvl \<longleftrightarrow> sint lvl \<ge> sint l"

definition valid_level :: "Level \<Rightarrow> bool" where
  "valid_level l \<longleftrightarrow> sint minLevel \<le> sint l \<and> sint l \<le> sint maxLevel"

section \<open>Text forms\<close>

definition Level_String :: "Level \<Rightarrow> bytes" where
  "Level_String l =
     (if l = DebugLevel then ''debug''
      else if l = InfoLevel then ''info''
      else if l = WarnLevel then ''warn''
      else if l = ErrorLevel then ''error''
      else if l = DPanicLevel then ''dpanic''
      else if l = PanicLevel then ''panic''
      else if l = FatalLevel then ''fatal''
      else ''Level('' @ itoa (sint l) @ '')'')"

definition Level_CapitalString :: "Level \<Rightarrow> bytes" where
  "Level_CapitalString l =
     (if l = DebugLevel then ''DEBUG''
      else if l = InfoLevel then ''INFO''
      else if l = WarnLevel then ''WARN''
      else if l = ErrorLevel then ''ERROR''
      else if l = DPanicLevel then ''DPANIC''
      else if l = PanicLevel then ''PANIC''
      else if l = FatalLevel then ''FATAL''
      else ''LEVEL('' @ itoa (sint l) @ '')'')"

definition Level_MarshalText :: "Level \<Rightarrow> bytes \<times> 'e option" where
  "Level_MarshalText l = (Level_String l, None)"

datatype level_error = ErrUnmarshalNilLevel | ErrUnrecognizedLevel bytes

text \<open>\<^verbatim>\<open>unmarshalText\<close> returns whether it recognized the text, and the level after the call.\<close>

definition Level_unmarshalText :: "Level \<Rightarrow> bytes \<Rightarrow> bool \<times> Level" where
  "Level_unmarshalText l text =
     (if text = ''debug'' then (True, DebugLevel)
      else if text = ''info'' \<or> text = '''' then (True, InfoLevel)
      else if text = ''warn'' \<or> text = ''warning'' then (True, WarnLevel)
      else if text = ''error'' then (True, ErrorLevel)
      else if text = ''dpanic'' then (True, DPanicLevel)
      else if text = ''panic'' then (True, PanicLevel)
      else if text = ''fatal'' then (True, FatalLevel)
      else (False, l))"

definition Level_UnmarshalText ::
    "(bytes \<Rightarrow> bytes) \<Rightarrow> Level option \<Rightarrow> bytes \<Rightarrow> level_error option \<times> Level option" where
  "Level_UnmarshalText uni p text =
     (case p of
        None \<Rightarrow> (Some ErrUnmarshalNilLevel, None)
      | Some l \<Rightarrow>
          let (ok1, l1) = Level_unmarshalText l text in
          if ok1 then (None, Some l1)
          else
            let (ok2, l2) = Level_unmarshalText l1 (ToLower uni text) in
            if ok2 then (None, Some l2)
            else (Some (ErrUnrecognizedLevel text), Some l2))"

text \<open>\<^verbatim>\<open>var level Level\<close> starts at the zero value, which is \<^verbatim>\<open>InfoLevel\<close>.\<close>

definition ParseLevel :: "(bytes \<Rightarrow> bytes) \<Rightarrow> bytes \<Rightarrow> Level \<times> level_error option" where
  "ParseLevel uni text =
     (case Level_UnmarshalText uni (Some 0) text of
        (err, p) \<Rightarrow> (case p of Some l \<Rightarrow> (l, err) | None \<Rightarrow> (0, err)))"

definition Level_Set ::
    "(bytes \<Rightarrow> bytes) \<Rightarrow> Level option \<Rightarrow> bytes \<Rightarrow> level_error option \<times> Level option" where
  "Level_Set uni p s = Level_UnmarshalText uni p s"

definition Level_Get :: "Level option \<Rightarrow> Level option" where
  "Level_Get p = p"  \<comment> \<open>None is the panic of dereferencing a nil pointer\<close>

section \<open>Colored level strings\<close>

datatype Color = Black | Red | Green | Yellow | Blue | Magenta | Cyan | White

fun Color_code :: "Color \<Rightarrow> nat" where
  "Color_code Black = 30" | "Color_code Red = 31" | "Color_code Green = 32"
| "Color_code Yellow = 33" | "Color_code Blue = 34" | "Color_code Magenta = 35"
| "Color_code Cyan = 36" | "Color_code White = 37"

definition Color_Add :: "Color \<Rightarrow> bytes \<Rightarrow> bytes" where
  "Color_Add c s = [CHR 0x1B] @ ''['' @ digits (Color_code c) @ ''m'' @ s @ [CHR 0x1B] @ ''[0m''"

definition levelToColor :: "(Level \<times> Color) list" where
  "levelToColor =
     [(DebugLevel, Magenta), (InfoLevel, Blue), (WarnLevel, Yellow), (ErrorLevel, Red),
      (DPanicLevel, Red), (PanicLevel, Red), (FatalLevel, Red)]"

definition unknownLevelColor :: Color where
  "unknownLevelColor = Red"

definition levelToLowercaseColorString :: "Level \<Rightarrow> bytes option" where
  "levelToLowercaseColorString l =
     map_of (map (\<lambda>(lv, c). (lv, Color_Add c (Level_String lv))) levelToColor) l"

definition levelToCapitalColorString :: "Level \<Rightarrow> bytes option" where
  "levelToCapitalColorString l =
     map_of (map (\<lambda>(lv, c). (lv, Color_Add c (Level_CapitalString lv))) levelToColor) l"

section \<open>The enabled level of an enabler\<close>

text \<open>\<^verbatim>\<open>LevelOf\<close> asks the enabler for its level if it has a \<^verbatim>\<open>Level\<close> method (\<open>Some l\<close>), and
  otherwise tries the levels in increasing order.  The loop variable stays between \<open>-1\<close> and \<open>6\<close>,
  so it does not wrap.\<close>

function LevelOf_loop :: "(Level \<Rightarrow> bool) \<Rightarrow> int \<Rightarrow> Level" where
  "LevelOf_loop enabled lvl =
     (if lvl \<le> sint maxLevel then
        if enabled (word_of_int lvl) then word_of_int lvl
        else LevelOf_loop enabled (lvl + 1)
      else InvalidLevel)"
  by pat_completeness auto
termination
  by (relation "measure (\<lambda>(_, lvl). nat (6 - lvl))") (auto simp: level_simps)

declare LevelOf_loop.simps [simp del]

definition LevelOf :: "Level option \<Rightarrow> (Level \<Rightarrow> bool) \<Rightarrow> Level" where
  "LevelOf lvler enabled =
     (case lvler of Some l \<Rightarrow> l | None \<Rightarrow> LevelOf_loop enabled (sint minLevel))"

section \<open>The dynamic level\<close>

text \<open>\<^verbatim>\<open>level.go\<close>.  \<open>Some c\<close> is a level whose cell holds \<open>c\<close>, \<open>None\<close> the zero AtomicLevel,
  whose pointer is nil: reading or setting it panics, which is the result \<open>None\<close>.\<close>

type_synonym AtomicLevel = "int32 option"

definition AtomicLevel_Level :: "AtomicLevel \<Rightarrow> Level option" where
  "AtomicLevel_Level a = map_option (\<lambda>c. ucast c) a"

definition AtomicLevel_SetLevel :: "AtomicLevel \<Rightarrow> Level \<Rightarrow> AtomicLevel option" where
  "AtomicLevel_SetLevel a l = map_option (\<lambda>_. Some (scast l)) a"

definition NewAtomicLevel :: AtomicLevel where
  "NewAtomicLevel = Some (scast InfoLevel)"

definition NewAtomicLevelAt :: "Level \<Rightarrow> AtomicLevel option" where
  "NewAtomicLevelAt l = AtomicLevel_SetLevel NewAtomicLevel l"

definition ParseAtomicLevel ::
    "(bytes \<Rightarrow> bytes) \<Rightarrow> bytes \<Rightarrow> (AtomicLevel \<times> level_error option) option" where
  "ParseAtomicLevel uni text =
     (let a = NewAtomicLevel; (l, err) = ParseLevel uni text in
      case err of
        Some e \<Rightarrow> Some (a, Some e)
      | None \<Rightarrow> map_option (\<lambda>a'. (a', None)) (AtomicLevel_SetLevel a l))"

definition AtomicLevel_Enabled :: "AtomicLevel \<Rightarrow> Level \<Rightarrow> bool option" where
  "AtomicLevel_Enabled a l = map_option (\<lambda>cur. Level_Enabled cur l) (AtomicLevel_Level a)"

definition AtomicLevel_String :: "AtomicLevel \<Rightarrow> bytes option" where
  "AtomicLevel_String a = map_option Level_String (AtomicLevel_Level a)"

definition AtomicLevel_MarshalText :: "AtomicLevel \<Rightarrow> (bytes \<times> 'e option) option" where
  "AtomicLevel_MarshalText a = map_option Level_MarshalText (AtomicLevel_Level a)"

text \<open>\<^verbatim>\<open>UnmarshalText\<close> has a pointer receiver: it allocates the cell (zero, the info level) when
  there is none, before it looks at the text.\<close>

definition AtomicLevel_UnmarshalText ::
    "(bytes \<Rightarrow> bytes) \<Rightarrow> AtomicLevel \<Rightarrow> bytes \<Rightarrow> level_error option \<times> AtomicLevel" where
  "AtomicLevel_UnmarshalText uni a text =
     (let a1 = (case a of None \<Rightarrow> Some 0 | Some c \<Rightarrow> Some c) in
      case Level_UnmarshalText uni (Some 0) text of
        (Some e, _) \<Rightarrow> (Some e, a1)
      | (None, p) \<Rightarrow>
          (case p of
             None \<Rightarrow> (None, a1)
           | Some l \<Rightarrow>
               (case AtomicLevel_SetLevel a1 l of Some a2 \<Rightarrow> (None, a2) | None \<Rightarrow> (None, a1))))"

section \<open>Facts about levels\<close>

lemma level_eq_iff: "l = m \<longleftrightarrow> sint l = sint (m :: Level)"
  by (auto intro: signed_word_eqI)

lemma valid_level_cases:
  assumes "valid_level l"
  obtains "l = DebugLevel" | "l = InfoLevel" | "l = WarnLevel" | "l = ErrorLevel"
    | "l = DPanicLevel" | "l = PanicLevel" | "l = FatalLevel"
proof -
  have "sint l \<in> {-1..5}"
    using assms by (simp add: valid_level_def level_simps)
  then have "sint l = -1 \<or> sint l = 0 \<or> sint l = 1 \<or> sint l = 2 \<or> sint l = 3 \<or> sint l = 4
    \<or> sint l = 5"
    by (simp, arith)
  then show thesis
    using that by (auto simp: level_eq_iff level_simps)
qed

lemma level_distinct [simp]:
  "DebugLevel \<noteq> InfoLevel" "DebugLevel \<noteq> WarnLevel" "DebugLevel \<noteq> ErrorLevel"
  "DebugLevel \<noteq> DPanicLevel" "DebugLevel \<noteq> PanicLevel" "DebugLevel \<noteq> FatalLevel"
  "InfoLevel \<noteq> DebugLevel" "InfoLevel \<noteq> WarnLevel" "InfoLevel \<noteq> ErrorLevel"
  "InfoLevel \<noteq> DPanicLevel" "InfoLevel \<noteq> PanicLevel" "InfoLevel \<noteq> FatalLevel"
  "WarnLevel \<noteq> DebugLevel" "WarnLevel \<noteq> InfoLevel" "WarnLevel \<noteq> ErrorLevel"
  "WarnLevel \<noteq> DPanicLevel" "WarnLevel \<noteq> PanicLevel" "WarnLevel \<noteq> FatalLevel"
  "ErrorLevel \<noteq> DebugLevel" "ErrorLevel \<noteq> InfoLevel" "ErrorLevel \<noteq> WarnLevel"
  "ErrorLevel \<noteq> DPanicLevel" "ErrorLevel \<noteq> PanicLevel" "ErrorLevel \<noteq> FatalLevel"
  "DPanicLevel \<noteq> DebugLevel" "DPanicLevel \<noteq> InfoLevel" "DPanicLevel \<noteq> WarnLevel"
  "DPanicLevel \<noteq> ErrorLevel" "DPanicLevel \<noteq> PanicLevel" "DPanicLevel \<noteq> FatalLevel"
  "PanicLevel \<noteq> DebugLevel" "PanicLevel \<noteq> InfoLevel" "PanicLevel \<noteq> WarnLevel"
  "PanicLevel \<noteq> ErrorLevel" "PanicLevel \<noteq> DPanicLevel" "PanicLevel \<noteq> FatalLevel"
  "FatalLevel \<noteq> DebugLevel" "FatalLevel \<noteq> InfoLevel" "FatalLevel \<noteq> WarnLevel"
  "FatalLevel \<noteq> ErrorLevel" "FatalLevel \<noteq> DPanicLevel" "FatalLevel \<noteq> PanicLevel"
  by (simp_all add: level_eq_iff level_simps)

lemma valid_levels [simp]:
  "valid_level DebugLevel" "valid_level InfoLevel" "valid_level WarnLevel"
  "valid_level ErrorLevel" "valid_level DPanicLevel" "valid_level PanicLevel"
  "valid_level FatalLevel"
  by (simp_all add: valid_level_def level_simps)

lemma Level_String_valid [simp]:
  "Level_String DebugLevel = ''debug''" "Level_String InfoLevel = ''info''"
  "Level_String WarnLevel = ''warn''" "Level_String ErrorLevel = ''error''"
  "Level_String DPanicLevel = ''dpanic''" "Level_String PanicLevel = ''panic''"
  "Level_String FatalLevel = ''fatal''"
  by (simp_all add: Level_String_def)

lemma Level_CapitalString_valid [simp]:
  "Level_CapitalString DebugLevel = ''DEBUG''" "Level_CapitalString InfoLevel = ''INFO''"
  "Level_CapitalString WarnLevel = ''WARN''" "Level_CapitalString ErrorLevel = ''ERROR''"
  "Level_CapitalString DPanicLevel = ''DPANIC''" "Level_CapitalString PanicLevel = ''PANIC''"
  "Level_CapitalString FatalLevel = ''FATAL''"
  by (simp_all add: Level_CapitalString_def)

lemma Level_String_invalid:
  "\<not> valid_level l \<Longrightarrow> Level_String l = ''Level('' @ itoa (sint l) @ '')''"
  "\<not> valid_level l \<Longrightarrow> Level_CapitalString l = ''LEVEL('' @ itoa (sint l) @ '')''"
  by (auto simp: Level_String_def Level_CapitalString_def)

lemma ascii_itoa: "list_all ascii (itoa i)"
proof -
  have "list_all ascii (digits n)" for n
    using digits_are_digits [of n]
    by (rule list.pred_mono_strong) (simp add: is_digit_def ascii_def)
  then show ?thesis
    by (simp add: itoa_def ascii_def)
qed

text \<open>No text that starts with the letter \<open>L\<close>, in either case, is the name of a level.\<close>

lemma unmarshalText_L:
  "Level_unmarshalText l (CHR ''L'' # s) = (False, l)"
  "Level_unmarshalText l (CHR ''l'' # s) = (False, l)"
  by (simp_all add: Level_unmarshalText_def)

lemma lower_byte_L: "lower_byte CHR ''L'' = CHR ''l''"
  by code_simp

lemma ToLower_L: "list_all ascii s \<Longrightarrow> ToLower uni (CHR ''L'' # s) = CHR ''l'' # map lower_byte s"
  by (simp add: ToLower_def ascii_def lower_byte_L)

lemma LevelOf_loop_spec:
  "lvl \<le> 6 \<Longrightarrow> -1 \<le> lvl \<Longrightarrow>
   (LevelOf_loop en lvl = InvalidLevel \<and> (\<forall>k. lvl \<le> k \<and> k \<le> 5 \<longrightarrow> \<not> en (word_of_int k)))
   \<or> (\<exists>k. lvl \<le> k \<and> k \<le> 5 \<and> LevelOf_loop en lvl = word_of_int k \<and> en (word_of_int k)
        \<and> (\<forall>j. lvl \<le> j \<and> j < k \<longrightarrow> \<not> en (word_of_int j)))"
proof (induction en lvl rule: LevelOf_loop.induct)
  case (1 en lvl)
  show ?case
  proof (cases "lvl \<le> 5 \<and> \<not> en (word_of_int lvl)")
    case False
    then show ?thesis
      by (subst (1 2) LevelOf_loop.simps) (auto simp: level_simps)
  next
    case True
    have step: "LevelOf_loop en lvl = LevelOf_loop en (lvl + 1)"
      using True by (subst LevelOf_loop.simps) (simp add: level_simps)
    have split: "lvl \<le> k \<longleftrightarrow> k = lvl \<or> lvl + 1 \<le> k" for k by auto
    from True "1.prems" have "(LevelOf_loop en (lvl + 1) = InvalidLevel
         \<and> (\<forall>k. lvl + 1 \<le> k \<and> k \<le> 5 \<longrightarrow> \<not> en (word_of_int k)))
       \<or> (\<exists>k. lvl + 1 \<le> k \<and> k \<le> 5 \<and> LevelOf_loop en (lvl + 1) = word_of_int k
         \<and> en (word_of_int k) \<and> (\<forall>j. lvl + 1 \<le> j \<and> j < k \<longrightarrow> \<not> en (word_of_int j)))"
      by (intro "1.IH") (simp_all add: level_simps)
    then show ?thesis
    proof
      assume "LevelOf_loop en (lvl + 1) = InvalidLevel
         \<and> (\<forall>k. lvl + 1 \<le> k \<and> k \<le> 5 \<longrightarrow> \<not> en (word_of_int k))"
      with True step split show ?thesis by metis
    next
      assume "\<exists>k. lvl + 1 \<le> k \<and> k \<le> 5 \<and> LevelOf_loop en (lvl + 1) = word_of_int k
         \<and> en (word_of_int k) \<and> (\<forall>j. lvl + 1 \<le> j \<and> j < k \<longrightarrow> \<not> en (word_of_int j))"
      with True step split show ?thesis by metis
    qed
  qed
qed

lemma valid_level_word_of_int:
  "valid_level l \<longleftrightarrow> (\<exists>k. -1 \<le> k \<and> k \<le> 5 \<and> l = word_of_int k)"
proof
  assume "valid_level l"
  then show "\<exists>k. -1 \<le> k \<and> k \<le> 5 \<and> l = word_of_int k"
    by (intro exI [of _ "sint l"]) (simp add: valid_level_def level_simps)
next
  assume "\<exists>k. -1 \<le> k \<and> k \<le> 5 \<and> l = word_of_int k"
  then obtain k :: int where k: "-1 \<le> k" "k \<le> 5" "l = word_of_int k" by blast
  then have "sint l = k"
    by (simp add: sint_sbintrunc' signed_take_bit_int_eq_self)
  with k show "valid_level l"
    by (simp add: valid_level_def level_simps)
qed

lemma lower_capital:
  "valid_level l \<Longrightarrow> ToLower uni (Level_CapitalString l) = Level_String l"
  by (erule valid_level_cases; simp; code_simp)

lemma unmarshal_String: "valid_level l \<Longrightarrow> Level_unmarshalText x (Level_String l) = (True, l)"
  by (erule valid_level_cases) (simp_all add: Level_unmarshalText_def)

lemma unmarshal_CapitalString:
  "valid_level l \<Longrightarrow> Level_unmarshalText x (Level_CapitalString l) = (False, x)"
  by (erule valid_level_cases) (simp_all add: Level_unmarshalText_def)

lemma ucast_scast_level: "ucast (scast (l :: Level) :: int32) = l"
proof (rule bit_word_eqI)
  fix n
  assume "n < LENGTH(8)"
  then have "n \<le> 7 \<and> (7 \<le> n \<longrightarrow> n = 7)" by simp
  then show "bit (ucast (scast l :: int32) :: Level) n = bit l n"
    by (auto simp: bit_unsigned_iff bit_signed_iff min_def)
qed

section \<open>An interface: level thresholds\<close>

text \<open>What a client of an enabler may rely on: there is a threshold, every level at or above it
  is enabled, and the level the enabler reports is that threshold.\<close>

locale level_threshold =
  fixes enabled :: "Level \<Rightarrow> bool"
    and threshold :: Level
  assumes enabled_iff: "enabled lvl \<longleftrightarrow> sint threshold \<le> sint lvl"
begin

lemma enabled_mono: "enabled l \<Longrightarrow> sint l \<le> sint m \<Longrightarrow> enabled m"
  by (simp add: enabled_iff)

lemma LevelOf_loop_threshold:
  assumes "valid_level threshold"
  shows "LevelOf_loop enabled (sint minLevel) = threshold"
proof -
  have t: "-1 \<le> sint threshold" "sint threshold \<le> 5"
    using assms by (simp_all add: valid_level_def level_simps)
  have en: "enabled (word_of_int k) \<longleftrightarrow> sint threshold \<le> k" if "-1 \<le> k" "k \<le> 5" for k
    using that by (simp add: enabled_iff sint_sbintrunc' signed_take_bit_int_eq_self)
  from LevelOf_loop_spec [of "-1" enabled] t show ?thesis
  proof (simp add: level_simps, elim disjE exE conjE)
    assume none: "\<forall>k. - 1 \<le> k \<and> k \<le> 5 \<longrightarrow> \<not> enabled (word_of_int k)"
    then show "LevelOf_loop enabled (- 1) = threshold"
      using en [of "sint threshold"] t by blast
  next
    fix k :: int
    assume k: "- 1 \<le> k" "k \<le> 5" "LevelOf_loop enabled (- 1) = word_of_int k"
      "enabled (word_of_int k)" "\<forall>j. - 1 \<le> j \<and> j < k \<longrightarrow> \<not> enabled (word_of_int j)"
    then have "k = sint threshold"
      using en [of k] en [of "sint threshold"] t by force
    with k show "LevelOf_loop enabled (- 1) = threshold" by simp
  qed
qed

end

text \<open>A static level and the level of an AtomicLevel cell are thresholds.\<close>

interpretation static_level: level_threshold "Level_Enabled l" l
  by unfold_locales (simp add: Level_Enabled_def)

interpretation atomic_level:
  level_threshold "\<lambda>lvl. the (AtomicLevel_Enabled (Some c) lvl)" "ucast c"
  by unfold_locales (simp add: AtomicLevel_Enabled_def AtomicLevel_Level_def Level_Enabled_def)

section \<open>Properties\<close>

text \<open>Printing and parsing levels are inverse.  Every level zap defines reads back from
  its lower-case and from its all-caps text; the text printed for any other value is refused and
  leaves the receiver as it was.\<close>

theorem level_text_roundtrip:
  "Level_UnmarshalText uni (Some x) (fst (Level_MarshalText l)) =
     (if valid_level l then (None, Some l)
      else (Some (ErrUnrecognizedLevel (Level_String l)), Some x))
   \<and> Level_UnmarshalText uni (Some x) (Level_CapitalString l) =
     (if valid_level l then (None, Some l)
      else (Some (ErrUnrecognizedLevel (Level_CapitalString l)), Some x))"
proof (cases "valid_level l")
  case True
  then show ?thesis
    by (simp add: Level_MarshalText_def Level_UnmarshalText_def unmarshal_String
        unmarshal_CapitalString lower_capital)
next
  case False
  have a: "list_all ascii (itoa (sint l) @ '')'')"
    by (simp add: ascii_itoa) (simp add: ascii_def)
  show ?thesis
    using False a by (simp add: Level_MarshalText_def Level_UnmarshalText_def
        Level_String_invalid ToLower_L unmarshalText_L ascii_def)
qed

text \<open>\<^verbatim>\<open>LevelOf\<close> reports the minimum enabled level.  For an enabler without a
  \<^verbatim>\<open>Level\<close> method it returns an enabled level zap supports below which no supported level
  is enabled, or InvalidLevel exactly when no supported level is enabled.\<close>

theorem LevelOf_minimum:
  "(LevelOf None en = InvalidLevel \<and> (\<forall>l. valid_level l \<longrightarrow> \<not> en l))
   \<or> (valid_level (LevelOf None en) \<and> en (LevelOf None en)
      \<and> (\<forall>l. valid_level l \<and> sint l < sint (LevelOf None en) \<longrightarrow> \<not> en l))"
proof -
  let ?r = "LevelOf_loop en (-1)"
  have r: "LevelOf None en = ?r"
    by (simp add: LevelOf_def level_simps)
  have w: "\<exists>k. -1 \<le> k \<and> k \<le> 5 \<and> l = word_of_int k \<and> sint l = k" if "valid_level l" for l
    using that by (intro exI [of _ "sint l"]) (simp add: valid_level_def level_simps)
  from LevelOf_loop_spec [of "-1" en] show ?thesis
  proof (simp, elim disjE exE conjE)
    assume "?r = InvalidLevel" "\<forall>k. - 1 \<le> k \<and> k \<le> 5 \<longrightarrow> \<not> en (word_of_int k)"
    then show ?thesis using r w by metis
  next
    fix k :: int
    assume k: "- 1 \<le> k" "k \<le> 5" "?r = word_of_int k" "en (word_of_int k)"
      "\<forall>j. - 1 \<le> j \<and> j < k \<longrightarrow> \<not> en (word_of_int j)"
    then have "valid_level ?r" using valid_level_word_of_int by metis
    moreover have "sint ?r = k"
      using k by (simp add: sint_sbintrunc' signed_take_bit_int_eq_self)
    ultimately show ?thesis using r k w by metis
  qed
qed

theorem LevelOf_minimum_witness:
  "LevelOf None (Level_Enabled WarnLevel) = WarnLevel \<and> \<not> Level_Enabled WarnLevel InfoLevel"
proof -
  have "LevelOf None (Level_Enabled WarnLevel) = WarnLevel"
    using static_level.LevelOf_loop_threshold [of WarnLevel] by (auto simp: LevelOf_def)
  then show ?thesis
    using LevelOf_minimum [of "Level_Enabled WarnLevel"]
    by (auto simp: valid_level_def level_simps dest: spec [of _ InfoLevel])
qed

text \<open>A level set on an AtomicLevel is the level it reports and enforces: after
  \<^verbatim>\<open>SetLevel(l)\<close> on a level that was constructed, \<^verbatim>\<open>Level()\<close> is \<open>l\<close> for every 8-bit
  \<open>l\<close>, exactly the levels at or above \<open>l\<close> are enabled, and the marshaled text is that of \<open>l\<close>.
  On a nil AtomicLevel the call does not return.\<close>

theorem atomic_level_set_get:
  "AtomicLevel_SetLevel None l = None
   \<and> (\<exists>a. AtomicLevel_SetLevel (Some c) l = Some a
        \<and> AtomicLevel_Level a = Some l
        \<and> (\<forall>x. AtomicLevel_Enabled a x = Some (sint l \<le> sint x))
        \<and> AtomicLevel_MarshalText a = Some (Level_MarshalText l))"
  by (simp add: ucast_scast_level AtomicLevel_SetLevel_def AtomicLevel_Level_def
      AtomicLevel_Enabled_def AtomicLevel_MarshalText_def Level_Enabled_def)

text \<open>\<^verbatim>\<open>AtomicLevel.UnmarshalText\<close> always leaves a usable level, sets it to the parsed
  level when the text is one, and on an error keeps the level it had (info when it had none).\<close>

theorem atomic_level_unmarshal:
  "\<exists>c'. snd (AtomicLevel_UnmarshalText uni a text) = Some c'
     \<and> (case ParseLevel uni text of
          (l, None) \<Rightarrow> fst (AtomicLevel_UnmarshalText uni a text) = None \<and> ucast c' = l
        | (_, Some e) \<Rightarrow> fst (AtomicLevel_UnmarshalText uni a text) = Some e
            \<and> c' = (case a of None \<Rightarrow> 0 | Some c \<Rightarrow> c))"
proof -
  have s: "\<exists>l. snd (Level_UnmarshalText uni (Some 0) text) = Some l"
    by (simp add: Level_UnmarshalText_def Let_def split: prod.split)
  obtain e p where u: "Level_UnmarshalText uni (Some 0) text = (e, p)" by fastforce
  with s obtain l where "p = Some l" by auto
  with u show ?thesis
    by (cases e; cases a) (simp_all add: ucast_scast_level ParseLevel_def AtomicLevel_UnmarshalText_def
        AtomicLevel_SetLevel_def)
qed

end
