(* ===== verification/Encoder_Config.thy ===== *)
theory Encoder_Config
  imports Field Level Buffer
begin

text \<open>
  \<^verbatim>\<open>src/zapcore/encoder.go\<close> (the encoders of levels, times, durations, callers and names, and
  their configuration) and the entries of \<^verbatim>\<open>src/zapcore/entry.go\<close> that encoders are given.

  An encoder of a level or a time appends primitive values to an encoder, so it is a function to the
  list of its calls.  Rounding to floating point, the text of a duration and the layouts of
  package time are parameters.
\<close>

section \<open>Entries\<close>

record EntryCaller =
  Defined :: bool
  PC :: uint64
  File :: bytes
  Line :: int64
  Function :: bytes

definition NewEntryCaller :: "uint64 \<Rightarrow> bytes \<Rightarrow> int64 \<Rightarrow> bool \<Rightarrow> EntryCaller" where
  "NewEntryCaller pc file line ok =
     (if \<not> ok then \<lparr>Defined = False, PC = 0, File = [], Line = 0, Function = []\<rparr>
      else \<lparr>Defined = True, PC = pc, File = file, Line = line, Function = []\<rparr>)"

text \<open>A buffer from the pool is empty.\<close>

definition bufferpool_Get :: Buffer where
  "bufferpool_Get = \<lparr>bs = [], pool = Some 0\<rparr>"

definition EntryCaller_FullPath :: "EntryCaller \<Rightarrow> bytes" where
  "EntryCaller_FullPath ec =
     (if \<not> Defined ec then ''undefined''
      else Buffer_String (Buffer_AppendInt (Line ec) (Buffer_AppendByte (CHR '':'')
             (Buffer_AppendString (File ec) bufferpool_Get))))"

definition EntryCaller_String :: "EntryCaller \<Rightarrow> bytes" where
  "EntryCaller_String ec = EntryCaller_FullPath ec"

definition EntryCaller_TrimmedPath :: "EntryCaller \<Rightarrow> bytes" where
  "EntryCaller_TrimmedPath ec =
     (if \<not> Defined ec then ''undefined''
      else case LastIndexByte (File ec) (CHR ''/'') of
        None \<Rightarrow> EntryCaller_FullPath ec
      | Some idx \<Rightarrow>
          (case LastIndexByte (take idx (File ec)) (CHR ''/'') of
             None \<Rightarrow> EntryCaller_FullPath ec
           | Some idx \<Rightarrow>
               Buffer_String (Buffer_AppendInt (Line ec) (Buffer_AppendByte (CHR '':'')
                 (Buffer_AppendString (drop (idx + 1) (File ec)) bufferpool_Get)))))"

record 'l Entry =
  ent_Level :: Level
  ent_Time :: "'l time"
  LoggerName :: bytes
  Message :: bytes
  ent_Caller :: EntryCaller
  Stack :: bytes

text \<open>The zero time is the first of January of the year 1.\<close>

definition time_IsZero :: "'l time \<Rightarrow> bool" where
  "time_IsZero t \<longleftrightarrow> t_nanos t = - 62135596800000000000"

definition time_UnixNano :: "'l time \<Rightarrow> int64" where
  "time_UnixNano t = word_of_int (t_nanos t)"

section \<open>Encoders of levels, times, durations, callers and names\<close>

type_synonym 'l prims = "'l time prim list"

definition LowercaseLevelEncoder :: "Level \<Rightarrow> 'l prims" where
  "LowercaseLevelEncoder l = [PString (Level_String l)]"

definition LowercaseColorLevelEncoder :: "Level \<Rightarrow> 'l prims" where
  "LowercaseColorLevelEncoder l =
     [PString (case levelToLowercaseColorString l of
                 Some s \<Rightarrow> s | None \<Rightarrow> Color_Add unknownLevelColor (Level_String l))]"

definition CapitalLevelEncoder :: "Level \<Rightarrow> 'l prims" where
  "CapitalLevelEncoder l = [PString (Level_CapitalString l)]"

definition CapitalColorLevelEncoder :: "Level \<Rightarrow> 'l prims" where
  "CapitalColorLevelEncoder l =
     [PString (case levelToCapitalColorString l of
                 Some s \<Rightarrow> s | None \<Rightarrow> Color_Add unknownLevelColor (Level_CapitalString l))]"

definition LevelEncoder_UnmarshalText :: "bytes \<Rightarrow> Level \<Rightarrow> 'l prims" where
  "LevelEncoder_UnmarshalText txt =
     (if txt = ''capital'' then CapitalLevelEncoder
      else if txt = ''capitalColor'' then CapitalColorLevelEncoder
      else if txt = ''color'' then LowercaseColorLevelEncoder
      else LowercaseLevelEncoder)"

text \<open>\<open>fdiv a b\<close> are the bits of \<^verbatim>\<open>float64(a) / float64(b)\<close>.\<close>

definition EpochTimeEncoder :: "(int \<Rightarrow> int \<Rightarrow> uint64) \<Rightarrow> 'l time \<Rightarrow> 'l prims" where
  "EpochTimeEncoder fdiv t = [PFloat64 (fdiv (sint (time_UnixNano t)) 1000000000)]"

definition EpochMillisTimeEncoder :: "(int \<Rightarrow> int \<Rightarrow> uint64) \<Rightarrow> 'l time \<Rightarrow> 'l prims" where
  "EpochMillisTimeEncoder fdiv t = [PFloat64 (fdiv (sint (time_UnixNano t)) 1000000)]"

definition EpochNanosTimeEncoder :: "'l time \<Rightarrow> 'l prims" where
  "EpochNanosTimeEncoder t = [PInt64 (time_UnixNano t)]"

text \<open>The encoders of this development have \<^verbatim>\<open>AppendTimeLayout\<close> or treat \<open>PTimeLayout\<close> as the
  other branch of \<^verbatim>\<open>encodeTimeLayout\<close> does.\<close>

definition encodeTimeLayout :: "'l time \<Rightarrow> bytes \<Rightarrow> 'l prims" where
  "encodeTimeLayout t layout = [PTimeLayout t layout]"

definition ISO8601TimeEncoder :: "'l time \<Rightarrow> 'l prims" where
  "ISO8601TimeEncoder t = encodeTimeLayout t ''2006-01-02T15:04:05.000Z0700''"

definition RFC3339TimeEncoder :: "'l time \<Rightarrow> 'l prims" where
  "RFC3339TimeEncoder t = encodeTimeLayout t ''2006-01-02T15:04:05Z07:00''"

definition RFC3339NanoTimeEncoder :: "'l time \<Rightarrow> 'l prims" where
  "RFC3339NanoTimeEncoder t = encodeTimeLayout t ''2006-01-02T15:04:05.999999999Z07:00''"

definition TimeEncoderOfLayout :: "bytes \<Rightarrow> 'l time \<Rightarrow> 'l prims" where
  "TimeEncoderOfLayout layout t = encodeTimeLayout t layout"

definition TimeEncoder_UnmarshalText :: "(int \<Rightarrow> int \<Rightarrow> uint64) \<Rightarrow> bytes \<Rightarrow> 'l time \<Rightarrow> 'l prims" where
  "TimeEncoder_UnmarshalText fdiv txt =
     (if txt = ''rfc3339nano'' \<or> txt = ''RFC3339Nano'' then RFC3339NanoTimeEncoder
      else if txt = ''rfc3339'' \<or> txt = ''RFC3339'' then RFC3339TimeEncoder
      else if txt = ''iso8601'' \<or> txt = ''ISO8601'' then ISO8601TimeEncoder
      else if txt = ''millis'' then EpochMillisTimeEncoder fdiv
      else if txt = ''nanos'' then EpochNanosTimeEncoder
      else EpochTimeEncoder fdiv)"

text \<open>\<^verbatim>\<open>UnmarshalYAML\<close>: the two attempts of decoding, as an object with a layout and as a string,
  each with its error (\<open>Inl\<close>) or result.  The encoder is unchanged when an error is returned.\<close>

definition TimeEncoder_UnmarshalYAML ::
    "(int \<Rightarrow> int \<Rightarrow> uint64) \<Rightarrow> 'e + bytes \<Rightarrow> 'e + bytes \<Rightarrow> ('l time \<Rightarrow> 'l prims)
      \<Rightarrow> 'e option \<times> ('l time \<Rightarrow> 'l prims)" where
  "TimeEncoder_UnmarshalYAML fdiv as_object as_string e =
     (case as_object of
        Inr layout \<Rightarrow> (None, TimeEncoderOfLayout layout)
      | Inl _ \<Rightarrow>
          (case as_string of
             Inl err \<Rightarrow> (Some err, e)
           | Inr s \<Rightarrow> (None, TimeEncoder_UnmarshalText fdiv s)))"

definition SecondsDurationEncoder :: "(int \<Rightarrow> int \<Rightarrow> uint64) \<Rightarrow> int64 \<Rightarrow> 'l prims" where
  "SecondsDurationEncoder fdiv d = [PFloat64 (fdiv (sint d) 1000000000)]"

definition NanosDurationEncoder :: "int64 \<Rightarrow> 'l prims" where
  "NanosDurationEncoder d = [PInt64 d]"

text \<open>Go's division rounds towards zero.\<close>

definition MillisDurationEncoder :: "int64 \<Rightarrow> 'l prims" where
  "MillisDurationEncoder d = [PInt64 (word_of_int (sgn (sint d) * (\<bar>sint d\<bar> div 1000000)))]"

definition StringDurationEncoder :: "(int64 \<Rightarrow> bytes) \<Rightarrow> int64 \<Rightarrow> 'l prims" where
  "StringDurationEncoder dstring d = [PString (dstring d)]"

definition DurationEncoder_UnmarshalText ::
    "(int \<Rightarrow> int \<Rightarrow> uint64) \<Rightarrow> (int64 \<Rightarrow> bytes) \<Rightarrow> bytes \<Rightarrow> int64 \<Rightarrow> 'l prims" where
  "DurationEncoder_UnmarshalText fdiv dstring txt =
     (if txt = ''string'' then StringDurationEncoder dstring
      else if txt = ''nanos'' then NanosDurationEncoder
      else if txt = ''ms'' then MillisDurationEncoder
      else SecondsDurationEncoder fdiv)"

definition FullCallerEncoder :: "EntryCaller \<Rightarrow> 'l prims" where
  "FullCallerEncoder caller = [PString (EntryCaller_String caller)]"

definition ShortCallerEncoder :: "EntryCaller \<Rightarrow> 'l prims" where
  "ShortCallerEncoder caller = [PString (EntryCaller_TrimmedPath caller)]"

definition CallerEncoder_UnmarshalText :: "bytes \<Rightarrow> EntryCaller \<Rightarrow> 'l prims" where
  "CallerEncoder_UnmarshalText txt = (if txt = ''full'' then FullCallerEncoder else ShortCallerEncoder)"

definition FullNameEncoder :: "bytes \<Rightarrow> 'l prims" where
  "FullNameEncoder loggerName = [PString loggerName]"

definition NameEncoder_UnmarshalText :: "bytes \<Rightarrow> bytes \<Rightarrow> 'l prims" where
  "NameEncoder_UnmarshalText txt = (if txt = ''full'' then FullNameEncoder else FullNameEncoder)"

section \<open>Configuration\<close>

text \<open>A reflected encoder maps a value to an error or to the bytes it writes.\<close>

record ('l, 'v) EncoderConfig =
  MessageKey :: bytes
  LevelKey :: bytes
  TimeKey :: bytes
  NameKey :: bytes
  CallerKey :: bytes
  FunctionKey :: bytes
  StacktraceKey :: bytes
  SkipLineEnding :: bool
  LineEnding :: bytes
  EncodeLevel :: "(Level \<Rightarrow> 'l prims) option"
  EncodeTime :: "('l time \<Rightarrow> 'l prims) option"
  EncodeDuration :: "(int64 \<Rightarrow> 'l prims) option"
  EncodeCaller :: "(EntryCaller \<Rightarrow> 'l prims) option"
  EncodeName :: "(bytes \<Rightarrow> 'l prims) option"
  NewReflectedEncoder :: "('v \<Rightarrow> bytes + bytes) option"
  ConsoleSeparator :: bytes

definition DefaultLineEnding :: bytes where
  "DefaultLineEnding = [newline]"

text \<open>The presets of \<^verbatim>\<open>src/config.go\<close>; an empty key leaves the part out.\<close>

definition NewProductionEncoderConfig :: "(int \<Rightarrow> int \<Rightarrow> uint64) \<Rightarrow> ('l, 'v) EncoderConfig" where
  "NewProductionEncoderConfig fdiv =
     \<lparr>MessageKey = ''msg'', LevelKey = ''level'', TimeKey = ''ts'', NameKey = ''logger'',
      CallerKey = ''caller'', FunctionKey = [], StacktraceKey = ''stacktrace'',
      SkipLineEnding = False, LineEnding = DefaultLineEnding,
      EncodeLevel = Some LowercaseLevelEncoder, EncodeTime = Some (EpochTimeEncoder fdiv),
      EncodeDuration = Some (SecondsDurationEncoder fdiv), EncodeCaller = Some ShortCallerEncoder,
      EncodeName = None, NewReflectedEncoder = None, ConsoleSeparator = []\<rparr>"

definition NewDevelopmentEncoderConfig :: "(int64 \<Rightarrow> bytes) \<Rightarrow> ('l, 'v) EncoderConfig" where
  "NewDevelopmentEncoderConfig dstring =
     \<lparr>MessageKey = ''M'', LevelKey = ''L'', TimeKey = ''T'', NameKey = ''N'',
      CallerKey = ''C'', FunctionKey = [], StacktraceKey = ''S'',
      SkipLineEnding = False, LineEnding = DefaultLineEnding,
      EncodeLevel = Some CapitalLevelEncoder, EncodeTime = Some ISO8601TimeEncoder,
      EncodeDuration = Some (StringDurationEncoder dstring), EncodeCaller = Some ShortCallerEncoder,
      EncodeName = None, NewReflectedEncoder = None, ConsoleSeparator = []\<rparr>"

section \<open>Properties\<close>

lemma FullPath_defined:
  "Defined ec \<Longrightarrow> EntryCaller_FullPath ec = File ec @ CHR '':'' # itoa (sint (Line ec))"
  by (simp add: EntryCaller_FullPath_def buffer_simps bufferpool_Get_def)

text \<open>The short form of a caller keeps the last directory and the file: for a file that has a
  directory in a directory, whatever precedes them is dropped and nothing else; for other files
  it is the full path.\<close>

theorem trimmed_path:
  assumes "Defined ec" and "CHR ''/'' \<notin> set dir" and "CHR ''/'' \<notin> set base"
  shows "(File ec = prefix @ CHR ''/'' # dir @ CHR ''/'' # base
      \<longrightarrow> EntryCaller_TrimmedPath ec = dir @ CHR ''/'' # base @ CHR '':'' # itoa (sint (Line ec)))
    \<and> (File ec = base \<or> File ec = dir @ CHR ''/'' # base
      \<longrightarrow> EntryCaller_TrimmedPath ec = EntryCaller_FullPath ec)"
proof -
  have 1: "LastIndexByte (prefix @ CHR ''/'' # dir @ CHR ''/'' # base) (CHR ''/'')
      = Some (length (prefix @ CHR ''/'' # dir))"
    using LastIndexByte_append [OF assms(3), of "prefix @ CHR ''/'' # dir"] by simp
  have 2: "LastIndexByte (prefix @ CHR ''/'' # dir) (CHR ''/'') = Some (length prefix)"
    by (rule LastIndexByte_append [OF assms(2)])
  have 3: "LastIndexByte (dir @ CHR ''/'' # base) (CHR ''/'') = Some (length dir)"
    by (rule LastIndexByte_append [OF assms(3)])
  have 4: "LastIndexByte dir (CHR ''/'') = None" "LastIndexByte base (CHR ''/'') = None"
    using assms(2,3) by (simp_all add: LastIndexByte_None)
  show ?thesis
    using assms(1) 1 2 3 4
    by (auto simp: EntryCaller_TrimmedPath_def buffer_simps bufferpool_Get_def)
qed

theorem trimmed_path_witness:
  "EntryCaller_TrimmedPath
      \<lparr>Defined = True, PC = 0, File = ''/home/zap/logger.go'', Line = 42, Function = []\<rparr>
    = ''zap/logger.go:'' @ itoa 42"
  using trimmed_path [of "\<lparr>Defined = True, PC = 0, File = ''/home/zap/logger.go'', Line = 42, Function = []\<rparr>"
      "''zap''" "''logger.go''" "''/home''"]
  by simp

end
