(* ===== verification/Json_Encoder.thy ===== *)
theory Json_Encoder
  imports Json_String Encoder_Config
begin

text \<open>
  \<^verbatim>\<open>src/zapcore/json_encoder.go\<close>: the JSON encoder as an interpreter of marshaling calls.

  Formatting of times and floating-point numbers is a parameter; their contracts are hypotheses of
  the theorems on the shape of the output.  A \<open>None\<close> result is a panic: of a marshaler, or of the
  call of a nil \<^verbatim>\<open>EncodeCaller\<close>.
\<close>

section \<open>State\<close>

text \<open>The functions of the standard library that the encoder calls: \<^verbatim>\<open>Time.AppendFormat\<close>,
  \<^verbatim>\<open>strconv.AppendFloat\<close> with the width of the number, the conversion of a float32 to a float64
  and \<^verbatim>\<open>json.Encoder.Encode\<close>.\<close>

record ('l, 'v) gostd =
  timeFormat :: "'l time \<Rightarrow> bytes \<Rightarrow> bytes"
  formatFloat :: "uint64 \<Rightarrow> nat \<Rightarrow> bytes"
  float64of32 :: "uint32 \<Rightarrow> uint64"
  jsonEncode :: "'v \<Rightarrow> bytes + bytes"

record ('l, 'v) jsonEncoder =
  cfg :: "('l, 'v) EncoderConfig"
  buf :: Buffer
  spaced :: bool
  openNamespaces :: nat

definition newJSONEncoder ::
    "('l, 'v) gostd \<Rightarrow> ('l, 'v) EncoderConfig \<Rightarrow> bool \<Rightarrow> ('l, 'v) jsonEncoder" where
  "newJSONEncoder G c sp =
     (let c1 = (if SkipLineEnding c then c\<lparr>LineEnding := []\<rparr>
                else if LineEnding c = [] then c\<lparr>LineEnding := DefaultLineEnding\<rparr> else c);
          c2 = (case NewReflectedEncoder c1 of
                  None \<Rightarrow> c1\<lparr>NewReflectedEncoder := Some (jsonEncode G)\<rparr>
                | Some _ \<Rightarrow> c1)
      in \<lparr>cfg = c2, buf = bufferpool_Get, spaced = sp, openNamespaces = 0\<rparr>)"

definition NewJSONEncoder :: "('l, 'v) gostd \<Rightarrow> ('l, 'v) EncoderConfig \<Rightarrow> ('l, 'v) jsonEncoder" where
  "NewJSONEncoder G c = newJSONEncoder G c False"

text \<open>A change of the buffer.\<close>

definition jbuf :: "(Buffer \<Rightarrow> Buffer) \<Rightarrow> ('l, 'v) jsonEncoder \<Rightarrow> ('l, 'v) jsonEncoder" where
  "jbuf f enc = enc\<lparr>buf := f (buf enc)\<rparr>"

text \<open>\<^verbatim>\<open>buf.Write\<close>, whose results the encoder drops or which are nil.\<close>

definition buf_Write :: "bytes \<Rightarrow> Buffer \<Rightarrow> Buffer" where
  "buf_Write p b = snd (Buffer_Write p b :: (nat \<times> bytes option) \<times> Buffer)"

section \<open>Separators and keys\<close>

definition addElementSeparator :: "('l, 'v) jsonEncoder \<Rightarrow> ('l, 'v) jsonEncoder" where
  "addElementSeparator enc =
     (let lst = int (Buffer_Len (buf enc)) - 1 in
      if lst < 0 then enc
      else if Buffer_Bytes (buf enc) ! nat lst
                \<in> {CHR ''{'', CHR ''['', CHR '':'', CHR '','', CHR '' ''} then enc
      else
        let enc1 = jbuf (Buffer_AppendByte (CHR '','')) enc in
        if spaced enc then jbuf (Buffer_AppendByte (CHR '' '')) enc1 else enc1)"

definition json_safeAddString :: "bytes \<Rightarrow> ('l, 'v) jsonEncoder \<Rightarrow> ('l, 'v) jsonEncoder" where
  "json_safeAddString s = jbuf (safeAddString s)"

definition addKey :: "bytes \<Rightarrow> ('l, 'v) jsonEncoder \<Rightarrow> ('l, 'v) jsonEncoder" where
  "addKey key enc =
     (let enc1 = jbuf (Buffer_AppendByte (CHR '':''))
                  (jbuf (Buffer_AppendByte (CHR 0x22))
                    (json_safeAddString key
                      (jbuf (Buffer_AppendByte (CHR 0x22)) (addElementSeparator enc))))
      in if spaced enc then jbuf (Buffer_AppendByte (CHR '' '')) enc1 else enc1)"

section \<open>Primitive values\<close>

text \<open>The tests of package math on the bits of a float64.\<close>

definition IsNaN :: "uint64 \<Rightarrow> bool" where
  "IsNaN f \<longleftrightarrow> unat f div 2 ^ 52 mod 2 ^ 11 = 2 ^ 11 - 1 \<and> unat f mod 2 ^ 52 \<noteq> 0"

definition PosInf :: uint64 where "PosInf = 0x7FF0000000000000"
definition NegInf :: uint64 where "NegInf = 0xFFF0000000000000"

text \<open>The comparison \<^verbatim>\<open>i >= 0\<close> of a float64: false for NaN and for negative numbers, true for
  both zeros.\<close>

definition float_nonneg :: "uint64 \<Rightarrow> bool" where
  "float_nonneg f \<longleftrightarrow> \<not> IsNaN f \<and> (\<not> bit f 63 \<or> f = 0x8000000000000000)"

definition appendFloat :: "('l, 'v) gostd \<Rightarrow> uint64 \<Rightarrow> nat \<Rightarrow> ('l, 'v) jsonEncoder \<Rightarrow> ('l, 'v) jsonEncoder" where
  "appendFloat G v bitSize enc =
     (let enc1 = addElementSeparator enc in
      if IsNaN v then jbuf (Buffer_AppendString [CHR 0x22, CHR ''N'', CHR ''a'', CHR ''N'', CHR 0x22]) enc1
      else if v = PosInf then
        jbuf (Buffer_AppendString [CHR 0x22, CHR ''+'', CHR ''I'', CHR ''n'', CHR ''f'', CHR 0x22]) enc1
      else if v = NegInf then
        jbuf (Buffer_AppendString [CHR 0x22, CHR ''-'', CHR ''I'', CHR ''n'', CHR ''f'', CHR 0x22]) enc1
      else jbuf (Buffer_AppendFloat (formatFloat G) v bitSize) enc1)"

definition appendComplex ::
    "('l, 'v) gostd \<Rightarrow> uint64 \<Rightarrow> uint64 \<Rightarrow> nat \<Rightarrow> ('l, 'v) jsonEncoder \<Rightarrow> ('l, 'v) jsonEncoder" where
  "appendComplex G r i precision enc =
     (let enc1 = jbuf (Buffer_AppendFloat (formatFloat G) r precision)
                  (jbuf (Buffer_AppendByte (CHR 0x22)) (addElementSeparator enc));
          enc2 = (if float_nonneg i then jbuf (Buffer_AppendByte (CHR ''+'')) enc1 else enc1)
      in jbuf (Buffer_AppendByte (CHR 0x22))
          (jbuf (Buffer_AppendByte (CHR ''i''))
            (jbuf (Buffer_AppendFloat (formatFloat G) i precision) enc2)))"

definition json_AppendInt64 :: "int64 \<Rightarrow> ('l, 'v) jsonEncoder \<Rightarrow> ('l, 'v) jsonEncoder" where
  "json_AppendInt64 v enc = jbuf (Buffer_AppendInt v) (addElementSeparator enc)"

definition json_AppendUint64 :: "uint64 \<Rightarrow> ('l, 'v) jsonEncoder \<Rightarrow> ('l, 'v) jsonEncoder" where
  "json_AppendUint64 v enc = jbuf (Buffer_AppendUint v) (addElementSeparator enc)"

definition json_AppendBool :: "bool \<Rightarrow> ('l, 'v) jsonEncoder \<Rightarrow> ('l, 'v) jsonEncoder" where
  "json_AppendBool v enc = jbuf (Buffer_AppendBool v) (addElementSeparator enc)"

definition json_AppendString :: "bytes \<Rightarrow> ('l, 'v) jsonEncoder \<Rightarrow> ('l, 'v) jsonEncoder" where
  "json_AppendString s enc =
     jbuf (Buffer_AppendByte (CHR 0x22))
       (json_safeAddString s (jbuf (Buffer_AppendByte (CHR 0x22)) (addElementSeparator enc)))"

definition json_AppendByteString :: "bytes \<Rightarrow> ('l, 'v) jsonEncoder \<Rightarrow> ('l, 'v) jsonEncoder" where
  "json_AppendByteString s enc =
     jbuf (Buffer_AppendByte (CHR 0x22))
       (jbuf (safeAddByteString s) (jbuf (Buffer_AppendByte (CHR 0x22)) (addElementSeparator enc)))"

definition json_AppendTimeLayout ::
    "('l, 'v) gostd \<Rightarrow> 'l time \<Rightarrow> bytes \<Rightarrow> ('l, 'v) jsonEncoder \<Rightarrow> ('l, 'v) jsonEncoder" where
  "json_AppendTimeLayout G t layout enc =
     jbuf (Buffer_AppendByte (CHR 0x22))
       (jbuf (Buffer_AppendTime (timeFormat G) t layout)
         (jbuf (Buffer_AppendByte (CHR 0x22)) (addElementSeparator enc)))"

fun json_prim :: "('l, 'v) gostd \<Rightarrow> 'l time prim \<Rightarrow> ('l, 'v) jsonEncoder \<Rightarrow> ('l, 'v) jsonEncoder" where
  "json_prim G (PBool v) enc = json_AppendBool v enc"
| "json_prim G (PByteString v) enc = json_AppendByteString v enc"
| "json_prim G (PComplex128 r i) enc = appendComplex G r i 64 enc"
| "json_prim G (PComplex64 r i) enc = appendComplex G (float64of32 G r) (float64of32 G i) 32 enc"
| "json_prim G (PFloat64 v) enc = appendFloat G v 64 enc"
| "json_prim G (PFloat32 v) enc = appendFloat G (float64of32 G v) 32 enc"
| "json_prim G (PInt v) enc = json_AppendInt64 v enc"
| "json_prim G (PInt64 v) enc = json_AppendInt64 v enc"
| "json_prim G (PInt32 v) enc = json_AppendInt64 (scast v) enc"
| "json_prim G (PInt16 v) enc = json_AppendInt64 (scast v) enc"
| "json_prim G (PInt8 v) enc = json_AppendInt64 (scast v) enc"
| "json_prim G (PString v) enc = json_AppendString v enc"
| "json_prim G (PUint v) enc = json_AppendUint64 v enc"
| "json_prim G (PUint64 v) enc = json_AppendUint64 v enc"
| "json_prim G (PUint32 v) enc = json_AppendUint64 (ucast v) enc"
| "json_prim G (PUint16 v) enc = json_AppendUint64 (ucast v) enc"
| "json_prim G (PUint8 v) enc = json_AppendUint64 (ucast v) enc"
| "json_prim G (PUintptr v) enc = json_AppendUint64 v enc"
| "json_prim G (PTimeLayout t layout) enc = json_AppendTimeLayout G t layout enc"

text \<open>What a user-supplied encoder of a time or a level does: its calls, in order.\<close>

definition json_prims ::
    "('l, 'v) gostd \<Rightarrow> 'l prims \<Rightarrow> ('l, 'v) jsonEncoder \<Rightarrow> ('l, 'v) jsonEncoder" where
  "json_prims G ps enc = fold (json_prim G) ps enc"

definition json_AppendDuration ::
    "('l, 'v) gostd \<Rightarrow> int64 \<Rightarrow> ('l, 'v) jsonEncoder \<Rightarrow> ('l, 'v) jsonEncoder" where
  "json_AppendDuration G v enc =
     (let cur = Buffer_Len (buf enc);
          enc1 = (case EncodeDuration (cfg enc) of Some e \<Rightarrow> json_prims G (e v) enc | None \<Rightarrow> enc)
      in if cur = Buffer_Len (buf enc1) then json_AppendInt64 v enc1 else enc1)"

definition json_AppendTime ::
    "('l, 'v) gostd \<Rightarrow> 'l time \<Rightarrow> ('l, 'v) jsonEncoder \<Rightarrow> ('l, 'v) jsonEncoder" where
  "json_AppendTime G v enc =
     (let cur = Buffer_Len (buf enc);
          enc1 = (case EncodeTime (cfg enc) of Some e \<Rightarrow> json_prims G (e v) enc | None \<Rightarrow> enc)
      in if cur = Buffer_Len (buf enc1) then json_AppendInt64 (time_UnixNano v) enc1 else enc1)"
section \<open>Marshaling\<close>

text \<open>\<^verbatim>\<open>base64.StdEncoding.EncodeToString\<close>.\<close>

definition base64_digit :: "nat \<Rightarrow> char" where
  "base64_digit n =
     (if n < 26 then char_of (65 + n) else if n < 52 then char_of (97 + (n - 26))
      else if n < 62 then char_of (48 + (n - 52)) else if n = 62 then CHR ''+'' else CHR ''/'')"

fun base64 :: "bytes \<Rightarrow> bytes" where
  "base64 (a # b # c # rest) =
     (let v = bval a * 65536 + bval b * 256 + bval c in
      [base64_digit (v div 262144), base64_digit (v div 4096 mod 64),
       base64_digit (v div 64 mod 64), base64_digit (v mod 64)] @ base64 rest)"
| "base64 [a, b] =
     (let v = bval a * 65536 + bval b * 256 in
      [base64_digit (v div 262144), base64_digit (v div 4096 mod 64),
       base64_digit (v div 64 mod 64), CHR ''=''])"
| "base64 [a] =
     (let v = bval a * 65536 in
      [base64_digit (v div 262144), base64_digit (v div 4096 mod 64), CHR ''='', CHR ''=''])"
| "base64 [] = []"

definition nullLiteralBytes :: bytes where
  "nullLiteralBytes = ''null''"

text \<open>\<^verbatim>\<open>encodeReflected\<close>: the bytes, or the error (\<open>Inl\<close>).  The buffer for reflection is empty when
  \<^verbatim>\<open>Encode\<close> is called: it is new or was reset.\<close>

definition encodeReflected :: "('l, 'v) jsonEncoder \<Rightarrow> 'v option \<Rightarrow> bytes + bytes" where
  "encodeReflected enc val =
     (case val of
        None \<Rightarrow> Inr nullLiteralBytes
      | Some v \<Rightarrow>
          (case NewReflectedEncoder (cfg enc) of
             None \<Rightarrow> Inr []
           | Some encode \<Rightarrow>
               (case encode v of
                  Inl e \<Rightarrow> Inl e
                | Inr out \<Rightarrow>
                    Inr (Buffer_Bytes (Buffer_TrimNewline
                      (Buffer_AppendBytes out (Buffer_Reset bufferpool_Get)))))))"

text \<open>The result of a call on the encoder: the error it returned and the encoder.\<close>

type_synonym ('l, 'v) json_fn =
  "('l, 'v) jsonEncoder \<Rightarrow> (bytes option \<times> ('l, 'v) jsonEncoder) option"

definition closeOpenNamespaces :: "('l, 'v) jsonEncoder \<Rightarrow> ('l, 'v) jsonEncoder" where
  "closeOpenNamespaces enc =
     ((jbuf (Buffer_AppendByte (CHR ''}'')) ^^ openNamespaces enc) enc)\<lparr>openNamespaces := 0\<rparr>"

text \<open>The loop of \<^verbatim>\<open>closeOpenNamespaces\<close> is the iteration above.  \<^verbatim>\<open>AppendArray\<close> and \<^verbatim>\<open>AppendObject\<close>
  are given what the marshaler does to the encoder.\<close>

definition json_AppendArray :: "('l, 'v) json_fn \<Rightarrow> ('l, 'v) json_fn" where
  "json_AppendArray marshal enc =
     (case marshal (jbuf (Buffer_AppendByte (CHR ''['')) (addElementSeparator enc)) of
        None \<Rightarrow> None
      | Some (err, enc1) \<Rightarrow> Some (err, jbuf (Buffer_AppendByte (CHR '']'')) enc1))"

definition json_AppendObject :: "('l, 'v) json_fn \<Rightarrow> ('l, 'v) json_fn" where
  "json_AppendObject marshal enc =
     (let old = openNamespaces enc;
          enc1 = jbuf (Buffer_AppendByte (CHR ''{'')) (addElementSeparator (enc\<lparr>openNamespaces := 0\<rparr>))
      in case marshal enc1 of
           None \<Rightarrow> None
         | Some (err, enc2) \<Rightarrow>
             Some (err, (closeOpenNamespaces (jbuf (Buffer_AppendByte (CHR ''}'')) enc2))
                          \<lparr>openNamespaces := old\<rparr>))"

definition json_AppendReflected :: "'v option \<Rightarrow> ('l, 'v) json_fn" where
  "json_AppendReflected v enc =
     (case encodeReflected enc v of
        Inl e \<Rightarrow> Some (Some e, enc)
      | Inr valueBytes \<Rightarrow>
          Some (None, jbuf (buf_Write valueBytes) (addElementSeparator enc)))"

definition json_AddReflected :: "bytes \<Rightarrow> 'v option \<Rightarrow> ('l, 'v) json_fn" where
  "json_AddReflected key v enc =
     (case encodeReflected enc v of
        Inl e \<Rightarrow> Some (Some e, enc)
      | Inr valueBytes \<Rightarrow> Some (None, jbuf (buf_Write valueBytes) (addKey key enc)))"

definition json_OpenNamespace :: "bytes \<Rightarrow> ('l, 'v) jsonEncoder \<Rightarrow> ('l, 'v) jsonEncoder" where
  "json_OpenNamespace key enc =
     (let enc1 = jbuf (Buffer_AppendByte (CHR ''{'')) (addKey key enc)
      in enc1\<lparr>openNamespaces := openNamespaces enc1 + 1\<rparr>)"

definition json_AddString :: "bytes \<Rightarrow> bytes \<Rightarrow> ('l, 'v) jsonEncoder \<Rightarrow> ('l, 'v) jsonEncoder" where
  "json_AddString key v enc = json_AppendString v (addKey key enc)"

definition json_AddTime ::
    "('l, 'v) gostd \<Rightarrow> bytes \<Rightarrow> 'l time \<Rightarrow> ('l, 'v) jsonEncoder \<Rightarrow> ('l, 'v) jsonEncoder" where
  "json_AddTime G key v enc = json_AppendTime G v (addKey key enc)"

definition json_AddBinary :: "bytes \<Rightarrow> bytes \<Rightarrow> ('l, 'v) jsonEncoder \<Rightarrow> ('l, 'v) jsonEncoder" where
  "json_AddBinary key v enc = json_AddString key (base64 v) enc"

text \<open>The \<^verbatim>\<open>Append\<close> methods and the \<^verbatim>\<open>Add\<close> methods, by the kind of value; marshalers are already
  interpreted.\<close>

definition json_append :: "('l, 'v) gostd
    \<Rightarrow> ('l time, 'v, ('l, 'v) json_fn, ('l, 'v) json_fn) val \<Rightarrow> ('l, 'v) json_fn" where
  "json_append G v enc =
     (case v of
        VPrim p \<Rightarrow> Some (None, json_prim G p enc)
      | VDuration d \<Rightarrow> Some (None, json_AppendDuration G d enc)
      | VTime t \<Rightarrow> Some (None, json_AppendTime G t enc)
      | VArray marshal \<Rightarrow> json_AppendArray marshal enc
      | VObject marshal \<Rightarrow> json_AppendObject marshal enc
      | VReflected r \<Rightarrow> json_AppendReflected r enc)"

definition json_add :: "('l, 'v) gostd \<Rightarrow> bytes
    \<Rightarrow> ('l time, 'v, ('l, 'v) json_fn, ('l, 'v) json_fn) val \<Rightarrow> ('l, 'v) json_fn" where
  "json_add G key v enc =
     (case v of
        VReflected r \<Rightarrow> json_AddReflected key r enc
      | _ \<Rightarrow> json_append G v (addKey key enc))"

text \<open>The interpretation of a marshaler.\<close>

primrec json_obj :: "('l, 'v) gostd \<Rightarrow> ('l time, 'v) omarsh \<Rightarrow> ('l, 'v) json_fn"
  and json_arr :: "('l, 'v) gostd \<Rightarrow> ('l time, 'v) amarsh \<Rightarrow> ('l, 'v) json_fn" where
  "json_obj G (ORet e) = (\<lambda>enc. Some (e, enc))"
| "json_obj G (OAdd key v k) = (\<lambda>enc.
     case json_add G key (map_val id id (json_obj G) (json_arr G) v) enc of
       None \<Rightarrow> None
     | Some (err, enc1) \<Rightarrow> json_obj G (k err) enc1)"
| "json_obj G (OAddBinary key b k) = (\<lambda>enc. json_obj G k (json_AddBinary key b enc))"
| "json_obj G (OOpenNamespace key k) = (\<lambda>enc. json_obj G k (json_OpenNamespace key enc))"
| "json_obj G OPanic = (\<lambda>enc. None)"
| "json_arr G (ARet e) = (\<lambda>enc. Some (e, enc))"
| "json_arr G (AAppend v k) = (\<lambda>enc.
     case json_append G (map_val id id (json_obj G) (json_arr G) v) enc of
       None \<Rightarrow> None
     | Some (err, enc1) \<Rightarrow> json_arr G (k err) enc1)"
| "json_arr G APanic = (\<lambda>enc. None)"

section \<open>Entries\<close>

definition json_clone :: "('l, 'v) jsonEncoder \<Rightarrow> ('l, 'v) jsonEncoder" where
  "json_clone enc =
     \<lparr>cfg = cfg enc, buf = bufferpool_Get, spaced = spaced enc, openNamespaces = openNamespaces enc\<rparr>"

definition json_Clone :: "('l, 'v) jsonEncoder \<Rightarrow> ('l, 'v) jsonEncoder" where
  "json_Clone enc = jbuf (buf_Write (Buffer_Bytes (buf enc))) (json_clone enc)"

text \<open>A key followed by the calls of a user-supplied encoder; if they append nothing, the text.\<close>

definition json_encoded ::
    "('l, 'v) gostd \<Rightarrow> bytes \<Rightarrow> 'l prims \<Rightarrow> bytes \<Rightarrow> ('l, 'v) jsonEncoder \<Rightarrow> ('l, 'v) jsonEncoder" where
  "json_encoded G key ps fallback enc =
     (let enc1 = addKey key enc;
          cur = Buffer_Len (buf enc1);
          enc2 = json_prims G ps enc1
      in if cur = Buffer_Len (buf enc2) then json_AppendString fallback enc2 else enc2)"

text \<open>The parts of an entry before the message, in the order of \<^verbatim>\<open>EncodeEntry\<close>.\<close>

definition entry_level :: "('l, 'v) gostd \<Rightarrow> 'l Entry \<Rightarrow> ('l, 'v) jsonEncoder \<Rightarrow> ('l, 'v) jsonEncoder" where
  "entry_level G ent enc =
     (case EncodeLevel (cfg enc) of
        Some e \<Rightarrow>
          if LevelKey (cfg enc) \<noteq> []
          then json_encoded G (LevelKey (cfg enc)) (e (ent_Level ent)) (Level_String (ent_Level ent)) enc
          else enc
      | None \<Rightarrow> enc)"

definition entry_time :: "('l, 'v) gostd \<Rightarrow> 'l Entry \<Rightarrow> ('l, 'v) jsonEncoder \<Rightarrow> ('l, 'v) jsonEncoder" where
  "entry_time G ent enc =
     (if TimeKey (cfg enc) \<noteq> [] \<and> \<not> time_IsZero (ent_Time ent)
      then json_AddTime G (TimeKey (cfg enc)) (ent_Time ent) enc else enc)"

definition entry_name :: "('l, 'v) gostd \<Rightarrow> 'l Entry \<Rightarrow> ('l, 'v) jsonEncoder \<Rightarrow> ('l, 'v) jsonEncoder" where
  "entry_name G ent enc =
     (if LoggerName ent \<noteq> [] \<and> NameKey (cfg enc) \<noteq> [] then
        let nameEncoder = (case EncodeName (cfg enc) of Some e \<Rightarrow> e | None \<Rightarrow> FullNameEncoder)
        in json_encoded G (NameKey (cfg enc)) (nameEncoder (LoggerName ent)) (LoggerName ent) enc
      else enc)"

definition entry_caller ::
    "('l, 'v) gostd \<Rightarrow> 'l Entry \<Rightarrow> ('l, 'v) jsonEncoder \<Rightarrow> ('l, 'v) jsonEncoder option" where
  "entry_caller G ent enc =
     (if Defined (ent_Caller ent) \<and> CallerKey (cfg enc) \<noteq> [] then
        case EncodeCaller (cfg enc) of
          None \<Rightarrow> None
        | Some e \<Rightarrow>
            Some (json_encoded G (CallerKey (cfg enc)) (e (ent_Caller ent))
                    (EntryCaller_String (ent_Caller ent)) enc)
      else Some enc)"

definition entry_function :: "'l Entry \<Rightarrow> ('l, 'v) jsonEncoder \<Rightarrow> ('l, 'v) jsonEncoder" where
  "entry_function ent enc =
     (if Defined (ent_Caller ent) \<and> FunctionKey (cfg enc) \<noteq> []
      then json_AppendString (Function (ent_Caller ent)) (addKey (FunctionKey (cfg enc)) enc) else enc)"

definition entry_message :: "'l Entry \<Rightarrow> ('l, 'v) jsonEncoder \<Rightarrow> ('l, 'v) jsonEncoder" where
  "entry_message ent enc =
     (if MessageKey (cfg enc) \<noteq> []
      then json_AppendString (Message ent) (addKey (MessageKey (cfg enc)) enc) else enc)"

definition entry_context :: "('l, 'v) jsonEncoder \<Rightarrow> ('l, 'v) jsonEncoder \<Rightarrow> ('l, 'v) jsonEncoder" where
  "entry_context ctx enc =
     (if Buffer_Len (buf ctx) > 0
      then jbuf (buf_Write (Buffer_Bytes (buf ctx))) (addElementSeparator enc) else enc)"

definition entry_stack :: "'l Entry \<Rightarrow> ('l, 'v) jsonEncoder \<Rightarrow> ('l, 'v) jsonEncoder" where
  "entry_stack ent enc =
     (if Stack ent \<noteq> [] \<and> StacktraceKey (cfg enc) \<noteq> []
      then json_AddString (StacktraceKey (cfg enc)) (Stack ent) enc else enc)"

text \<open>\<^verbatim>\<open>EncodeEntry\<close>; it always returns a nil error.\<close>

definition json_EncodeEntry ::
    "('l, 'v) gostd \<Rightarrow> 'l \<Rightarrow> 'l Entry \<Rightarrow> ('l, 'v) Field list \<Rightarrow> ('l, 'v) jsonEncoder \<Rightarrow> Buffer option" where
  "json_EncodeEntry G local ent fs enc =
     (let final = jbuf (Buffer_AppendByte (CHR ''{'')) (json_clone enc);
          final = entry_name G ent (entry_time G ent (entry_level G ent final))
      in case entry_caller G ent final of
           None \<Rightarrow> None
         | Some final \<Rightarrow>
             let final = entry_context enc (entry_message ent (entry_function ent final))
             in case json_obj G (addFields local fs) final of
                  None \<Rightarrow> None
                | Some (_, final) \<Rightarrow>
                    let final = entry_stack ent (closeOpenNamespaces final);
                        final = jbuf (Buffer_AppendByte (CHR ''}'')) final;
                        final = jbuf (Buffer_AppendString (LineEnding (cfg final))) final
                    in Some (buf final))"

end
