(* ===== verification/Json_Correct.thy ===== *)
theory Json_Correct
  imports Json_Encoder
begin

text \<open>
  What the JSON encoder writes.  A marshaler denotes a JSON value; the bytes that the encoder
  appends, deciding about every separator by looking at the last byte of its buffer, are the
  printed form of that value.  From this, the whole line of an entry is one printed JSON object.
\<close>

section \<open>JSON values and their printed form\<close>

text \<open>Members of an object, in order; a namespace holds all members that follow it.  \<open>JRaw\<close> is a
  token or a text that is printed as it is.\<close>

datatype json =
    JRaw bytes
  | JString bytes
  | JArray "json list"
  | JObject jfields
and jfields =
    FNil
  | FCons bytes json jfields
  | FNamespace bytes jfields

definition sep :: "bool \<Rightarrow> bytes" where
  "sep sp = (if sp then [CHR '','', CHR '' ''] else [CHR '',''])"

definition string_text :: "bytes \<Rightarrow> bytes" where
  "string_text s = CHR 0x22 # json_escape s @ [CHR 0x22]"

definition key_text :: "bool \<Rightarrow> bytes \<Rightarrow> bytes" where
  "key_text sp key = string_text key @ (if sp then [CHR '':'', CHR '' ''] else [CHR '':''])"

text \<open>The number of namespaces left open at the end.\<close>

fun ns_depth :: "jfields \<Rightarrow> nat" where
  "ns_depth FNil = 0"
| "ns_depth (FCons k j fs) = ns_depth fs"
| "ns_depth (FNamespace k fs) = Suc (ns_depth fs)"

fun print_json :: "bool \<Rightarrow> json \<Rightarrow> bytes"
  and print_elems :: "bool \<Rightarrow> bool \<Rightarrow> json list \<Rightarrow> bytes"
  and print_fields :: "bool \<Rightarrow> bool \<Rightarrow> jfields \<Rightarrow> bytes" where
  "print_json sp (JRaw b) = b"
| "print_json sp (JString s) = string_text s"
| "print_json sp (JArray js) = CHR ''['' # print_elems sp True js @ [CHR '']'']"
| "print_json sp (JObject fs) =
     CHR ''{'' # print_fields sp True fs @ CHR ''}'' # replicate (ns_depth fs) (CHR ''}'')"
| "print_elems sp first [] = []"
| "print_elems sp first (j # js) =
     (if first then [] else sep sp) @ print_json sp j @ print_elems sp False js"
| "print_fields sp first FNil = []"
| "print_fields sp first (FCons k j fs) =
     (if first then [] else sep sp) @ key_text sp k @ print_json sp j @ print_fields sp False fs"
| "print_fields sp first (FNamespace k fs) =
     (if first then [] else sep sp) @ key_text sp k @ CHR ''{'' # print_fields sp True fs"

text \<open>The bytes after which the encoder puts no separator.\<close>

definition open_byte :: "char \<Rightarrow> bool" where
  "open_byte c \<longleftrightarrow> c \<in> {CHR ''{'', CHR ''['', CHR '':'', CHR '','', CHR '' ''}"

definition fresh_text :: "bytes \<Rightarrow> bool" where
  "fresh_text b \<longleftrightarrow> b = [] \<or> open_byte (last b)"

text \<open>Text after which there is a separator.\<close>

definition closed_text :: "bytes \<Rightarrow> bool" where
  "closed_text b \<longleftrightarrow> b \<noteq> [] \<and> \<not> open_byte (last b)"

fun json_ok :: "json \<Rightarrow> bool" and fields_ok :: "jfields \<Rightarrow> bool" where
  "json_ok (JRaw b) = closed_text b"
| "json_ok (JString s) = True"
| "json_ok (JArray js) = list_all json_ok js"
| "json_ok (JObject fs) = fields_ok fs"
| "fields_ok FNil = True"
| "fields_ok (FCons k j fs) = (json_ok j \<and> fields_ok fs)"
| "fields_ok (FNamespace k fs) = fields_ok fs"

lemma closed_append: "closed_text b \<Longrightarrow> closed_text (a @ b)"
  by (simp add: closed_text_def)

lemma fresh_append: "b \<noteq> [] \<Longrightarrow> fresh_text (a @ b) = fresh_text b"
  by (simp add: fresh_text_def)

lemma closed_not_fresh: "closed_text b \<Longrightarrow> \<not> fresh_text (a @ b)"
  by (auto simp: closed_text_def fresh_text_def)

lemma string_text_closed: "closed_text (string_text s)"
  by (simp add: closed_text_def string_text_def open_byte_def)

lemma key_text_fresh: "fresh_text (a @ key_text sp k)" "key_text sp k \<noteq> []"
    "fresh_text (a @ b @ key_text sp k)"
  by (simp_all add: fresh_text_def key_text_def open_byte_def string_text_def)

lemma print_json_closed: "json_ok j \<Longrightarrow> closed_text (print_json sp j)"
  by (cases j) (simp_all add: string_text_closed, simp_all add: closed_text_def open_byte_def last_replicate)

section \<open>What a marshaler denotes\<close>

text \<open>The value of a primitive call.\<close>

definition float_json :: "('l, 'v) gostd \<Rightarrow> uint64 \<Rightarrow> nat \<Rightarrow> json" where
  "float_json G v bitSize =
     (if IsNaN v then JString ''NaN'' else if v = PosInf then JString ''+Inf''
      else if v = NegInf then JString ''-Inf'' else JRaw (formatFloat G v bitSize))"

definition complex_json :: "('l, 'v) gostd \<Rightarrow> uint64 \<Rightarrow> uint64 \<Rightarrow> nat \<Rightarrow> json" where
  "complex_json G r i precision =
     JRaw (CHR 0x22 # formatFloat G r precision @ (if float_nonneg i then [CHR ''+''] else [])
           @ formatFloat G i precision @ [CHR ''i'', CHR 0x22])"

fun prim_json :: "('l, 'v) gostd \<Rightarrow> 'l time prim \<Rightarrow> json" where
  "prim_json G (PBool v) = JRaw (if v then ''true'' else ''false'')"
| "prim_json G (PByteString v) = JString v"
| "prim_json G (PComplex128 r i) = complex_json G r i 64"
| "prim_json G (PComplex64 r i) = complex_json G (float64of32 G r) (float64of32 G i) 32"
| "prim_json G (PFloat64 v) = float_json G v 64"
| "prim_json G (PFloat32 v) = float_json G (float64of32 G v) 32"
| "prim_json G (PInt v) = JRaw (itoa (sint v))"
| "prim_json G (PInt64 v) = JRaw (itoa (sint v))"
| "prim_json G (PInt32 v) = JRaw (itoa (sint v))"
| "prim_json G (PInt16 v) = JRaw (itoa (sint v))"
| "prim_json G (PInt8 v) = JRaw (itoa (sint v))"
| "prim_json G (PString v) = JString v"
| "prim_json G (PUint v) = JRaw (digits (unat v))"
| "prim_json G (PUint64 v) = JRaw (digits (unat v))"
| "prim_json G (PUint32 v) = JRaw (digits (unat v))"
| "prim_json G (PUint16 v) = JRaw (digits (unat v))"
| "prim_json G (PUint8 v) = JRaw (digits (unat v))"
| "prim_json G (PUintptr v) = JRaw (digits (unat v))"
| "prim_json G (PTimeLayout t layout) = JRaw (CHR 0x22 # timeFormat G t layout @ [CHR 0x22])"

definition encoded_json :: "('l, 'v) gostd \<Rightarrow> 'l prims \<Rightarrow> json \<Rightarrow> json" where
  "encoded_json G ps fallback = (case ps of [] \<Rightarrow> fallback | p # _ \<Rightarrow> prim_json G p)"

definition duration_json :: "('l, 'v) gostd \<Rightarrow> ('l, 'v) EncoderConfig \<Rightarrow> int64 \<Rightarrow> json" where
  "duration_json G c d =
     encoded_json G (case EncodeDuration c of Some e \<Rightarrow> e d | None \<Rightarrow> []) (JRaw (itoa (sint d)))"

definition time_json :: "('l, 'v) gostd \<Rightarrow> ('l, 'v) EncoderConfig \<Rightarrow> 'l time \<Rightarrow> json" where
  "time_json G c t =
     encoded_json G (case EncodeTime c of Some e \<Rightarrow> e t | None \<Rightarrow> [])
       (JRaw (itoa (sint (time_UnixNano t))))"

text \<open>The bytes or the error of reflection, with the configuration of an encoder.\<close>

definition reflected :: "('l, 'v) EncoderConfig \<Rightarrow> 'v option \<Rightarrow> bytes + bytes" where
  "reflected c val = encodeReflected \<lparr>cfg = c, buf = bufferpool_Get, spaced = False, openNamespaces = 0\<rparr> val"

text \<open>The value of a call with interpreted marshalers: \<open>None\<close> for a panic, \<open>Inl\<close> for an error before
  anything is written, otherwise the error returned and the value.\<close>

definition val_json ::
    "('l, 'v) gostd \<Rightarrow> ('l, 'v) EncoderConfig
      \<Rightarrow> ('l time, 'v, (bytes option \<times> jfields) option, (bytes option \<times> json list) option) val
      \<Rightarrow> (bytes + bytes option \<times> json) option" where
  "val_json G c v =
     (case v of
        VPrim p \<Rightarrow> Some (Inr (None, prim_json G p))
      | VDuration d \<Rightarrow> Some (Inr (None, duration_json G c d))
      | VTime t \<Rightarrow> Some (Inr (None, time_json G c t))
      | VArray r \<Rightarrow> map_option (\<lambda>(err, js). Inr (err, JArray js)) r
      | VObject r \<Rightarrow> map_option (\<lambda>(err, fs). Inr (err, JObject fs)) r
      | VReflected x \<Rightarrow>
          (case reflected c x of Inl e \<Rightarrow> Some (Inl e) | Inr b \<Rightarrow> Some (Inr (None, JRaw b))))"

primrec obj_json :: "('l, 'v) gostd \<Rightarrow> ('l, 'v) EncoderConfig \<Rightarrow> ('l time, 'v) omarsh
      \<Rightarrow> (bytes option \<times> jfields) option"
  and arr_json :: "('l, 'v) gostd \<Rightarrow> ('l, 'v) EncoderConfig \<Rightarrow> ('l time, 'v) amarsh
      \<Rightarrow> (bytes option \<times> json list) option" where
  "obj_json G c (ORet e) = Some (e, FNil)"
| "obj_json G c (OAdd key v k) =
     (case val_json G c (map_val id id (obj_json G c) (arr_json G c) v) of
        None \<Rightarrow> None
      | Some (Inl e) \<Rightarrow> obj_json G c (k (Some e))
      | Some (Inr (err, j)) \<Rightarrow> map_option (\<lambda>(e, fs). (e, FCons key j fs)) (obj_json G c (k err)))"
| "obj_json G c (OAddBinary key b k) =
     map_option (\<lambda>(e, fs). (e, FCons key (JString (base64 b)) fs)) (obj_json G c k)"
| "obj_json G c (OOpenNamespace key k) = map_option (\<lambda>(e, fs). (e, FNamespace key fs)) (obj_json G c k)"
| "obj_json G c OPanic = None"
| "arr_json G c (ARet e) = Some (e, [])"
| "arr_json G c (AAppend v k) =
     (case val_json G c (map_val id id (obj_json G c) (arr_json G c) v) of
        None \<Rightarrow> None
      | Some (Inl e) \<Rightarrow> arr_json G c (k (Some e))
      | Some (Inr (err, j)) \<Rightarrow> map_option (\<lambda>(e, js). (e, j # js)) (arr_json G c (k err)))"
| "arr_json G c APanic = None"

section \<open>Contracts\<close>

text \<open>What the encoder relies on: the user-supplied encoders of times, levels and so on make at most one
  call (their documentation asks for exactly one), formatted numbers and reflected values are not
  empty and do not end in a byte that the encoder takes for the start of a value, and there is an
  encoder for reflection (the constructor sees to that).\<close>

definition at_most_one :: "('x \<Rightarrow> 'l prims) option \<Rightarrow> bool" where
  "at_most_one enc \<longleftrightarrow> (\<forall>e x. enc = Some e \<longrightarrow> length (e x) \<le> 1)"

definition encoder_contract :: "('l, 'v) gostd \<Rightarrow> ('l, 'v) EncoderConfig \<Rightarrow> bool" where
  "encoder_contract G c \<longleftrightarrow>
     at_most_one (EncodeDuration c) \<and> at_most_one (EncodeTime c)
   \<and> at_most_one (EncodeLevel c) \<and> at_most_one (EncodeCaller c) \<and> at_most_one (EncodeName c)
   \<and> (\<forall>f n. closed_text (formatFloat G f n))
   \<and> (\<forall>v b. reflected c (Some v) = Inr b \<longrightarrow> closed_text b)"

section \<open>The encoder appends\<close>

definition emit :: "bytes \<Rightarrow> ('l, 'v) jsonEncoder \<Rightarrow> ('l, 'v) jsonEncoder" where
  "emit xs enc = enc\<lparr>buf := (buf enc)\<lparr>bs := bs (buf enc) @ xs\<rparr>\<rparr>"

abbreviation written_text :: "('l, 'v) jsonEncoder \<Rightarrow> bytes" where
  "written_text enc \<equiv> bs (buf enc)"

definition sep_text :: "('l, 'v) jsonEncoder \<Rightarrow> bytes" where
  "sep_text enc = (if fresh_text (written_text enc) then [] else sep (spaced enc))"

named_theorems emit_simps "appending to the buffer of the encoder"

lemma emit_emit [emit_simps]: "emit ys (emit xs enc) = emit (xs @ ys) enc"
  by (simp add: emit_def)

lemma emit_Nil [emit_simps]: "emit [] enc = enc"
  by (simp add: emit_def)

lemma emit_fields [simp]:
  "cfg (emit xs enc) = cfg enc" "spaced (emit xs enc) = spaced enc"
  "openNamespaces (emit xs enc) = openNamespaces enc" "written_text (emit xs enc) = written_text enc @ xs"
  by (simp_all add: emit_def)

lemma emit_openNamespaces [emit_simps]:
  "emit xs (enc\<lparr>openNamespaces := n\<rparr>) = (emit xs enc)\<lparr>openNamespaces := n\<rparr>"
  by (simp add: emit_def)

lemma jbuf_emit [emit_simps]:
  "jbuf (Buffer_AppendByte b) enc = emit [b] enc"
  "jbuf (Buffer_AppendString s) enc = emit s enc"
  "jbuf (Buffer_AppendInt i) enc = emit (itoa (sint i)) enc"
  "jbuf (Buffer_AppendUint u) enc = emit (digits (unat u)) enc"
  "jbuf (Buffer_AppendBool x) enc = emit (if x then ''true'' else ''false'') enc"
  "jbuf (Buffer_AppendFloat ff f n) enc = emit (ff f n) enc"
  "jbuf (Buffer_AppendTime fmt t layout) enc = emit (fmt t layout) enc"
  "jbuf (buf_Write p) enc = emit p enc"
  "jbuf (safeAddByteString s) enc = emit (json_escape s) enc"
  "json_safeAddString s enc = emit (json_escape s) enc"
  by (simp_all add: jbuf_def emit_def Buffer_AppendByte_def Buffer_AppendString_def Buffer_AppendInt_def
      Buffer_AppendUint_def Buffer_AppendBool_def Buffer_AppendFloat_def Buffer_AppendTime_def
      buf_Write_def Buffer_Write_def safeAddByteString_escape json_safeAddString_def safeAddString_escape)

lemma addElementSeparator_emit [emit_simps]: "addElementSeparator enc = emit (sep_text enc) enc"
proof (cases "written_text enc = []")
  case True
  then show ?thesis
    by (simp add: addElementSeparator_def sep_text_def fresh_text_def buffer_simps emit_Nil)
next
  case False
  then have "written_text enc ! nat (int (length (written_text enc)) - 1) = last (written_text enc)"
    by (simp add: last_conv_nth nat_diff_distrib' flip: One_nat_def)
  with False show ?thesis
    by (simp add: addElementSeparator_def sep_text_def sep_def fresh_text_def open_byte_def
        buffer_simps emit_simps Let_def not_less Suc_le_eq)
qed

lemma addKey_emit [emit_simps]: "addKey key enc = emit (sep_text enc @ key_text (spaced enc) key) enc"
  by (simp add: addKey_def key_text_def string_text_def emit_simps Let_def)

lemma sep_text_key: "sep_text (emit (xs @ key_text sp key) enc) = []"
  using key_text_fresh(1) [of "written_text enc @ xs" sp key] by (simp add: sep_text_def)

lemma sep_text_openNamespaces [simp]: "sep_text (enc\<lparr>openNamespaces := n\<rparr>) = sep_text enc"
  by (simp add: sep_text_def)

section \<open>Primitive values\<close>

lemma json_AppendString_emit [emit_simps]:
  "json_AppendString s enc = emit (sep_text enc @ string_text s) enc"
  by (simp add: json_AppendString_def string_text_def emit_simps)

lemma escape_plain_list: "list_all plain s \<Longrightarrow> list_all (\<lambda>c. bval c < RuneSelf) s \<Longrightarrow> json_escape s = s"
  by (induction s) (auto simp: plain_def escape_plain)

lemma string_text_float [simp]:
  "string_text ''NaN'' = [CHR 0x22, CHR ''N'', CHR ''a'', CHR ''N'', CHR 0x22]"
  "string_text ''+Inf'' = [CHR 0x22, CHR ''+'', CHR ''I'', CHR ''n'', CHR ''f'', CHR 0x22]"
  "string_text ''-Inf'' = [CHR 0x22, CHR ''-'', CHR ''I'', CHR ''n'', CHR ''f'', CHR 0x22]"
  by (simp_all add: string_text_def escape_byte_def RuneSelf_def)

lemma sint_scast_64 [simp]:
  "sint (scast (w :: 32 word) :: int64) = sint w" "sint (scast (x :: 16 word) :: int64) = sint x"
  "sint (scast (y :: 8 word) :: int64) = sint y"
  by (simp_all add: sint_up_scast is_up)

lemma unat_ucast_64 [simp]:
  "unat (ucast (w :: 32 word) :: uint64) = unat w" "unat (ucast (x :: 16 word) :: uint64) = unat x"
  "unat (ucast (y :: 8 word) :: uint64) = unat y"
  by (transfer, simp add: min_def)+

lemma json_prim_emit: "json_prim G p enc = emit (sep_text enc @ print_json (spaced enc) (prim_json G p)) enc"
  by (cases p) (simp_all add: json_AppendBool_def json_AppendByteString_def appendComplex_def
      appendFloat_def float_json_def complex_json_def json_AppendInt64_def json_AppendUint64_def
      json_AppendTimeLayout_def string_text_def emit_simps Let_def flip: string_text_float)

lemma itoa_closed [simp]: "closed_text (itoa i)"
proof -
  have "last (itoa i) \<notin> {CHR ''{'', CHR ''['', CHR '':'', CHR '','', CHR '' ''}"
    using last_itoa_is_digit [of i] by (auto simp: is_digit_def)
  then show ?thesis by (simp add: closed_text_def open_byte_def)
qed

lemma digits_closed [simp]: "closed_text (digits n)"
proof -
  have "last (digits n) \<notin> {CHR ''{'', CHR ''['', CHR '':'', CHR '','', CHR '' ''}"
    using last_digits_is_digit [of n] by (auto simp: is_digit_def)
  then show ?thesis by (simp add: closed_text_def open_byte_def)
qed

lemma quoted_closed [simp]: "closed_text (CHR 0x22 # xs @ [CHR 0x22])"
    "closed_text (CHR 0x22 # xs @ ys @ zs @ [CHR ''i'', CHR 0x22])"
  by (simp_all add: closed_text_def open_byte_def)

lemma bool_closed [simp]: "closed_text (if v then ''true'' else ''false'')"
  by (simp add: closed_text_def open_byte_def)

text \<open>The interface between the encoder and the formatting functions it is configured with.\<close>

locale json_format =
  fixes G :: "('l, 'v) gostd" and c :: "('l, 'v) EncoderConfig"
  assumes contract: "encoder_contract G c"
begin

lemma float_closed: "closed_text (formatFloat G f n)"
  using contract by (simp add: encoder_contract_def)

lemma prim_json_ok: "json_ok (prim_json G p)"
  by (cases p) (simp_all add: float_json_def complex_json_def float_closed)

lemma prims_one:
  assumes "length ps \<le> 1"
  shows "(if length (written_text enc) = length (written_text (json_prims G ps enc))
      then emit (sep_text (json_prims G ps enc) @ print_json (spaced enc) fallback) (json_prims G ps enc)
      else json_prims G ps enc)
    = emit (sep_text enc @ print_json (spaced enc) (encoded_json G ps fallback)) enc"
proof (cases ps)
  case (Cons p qs)
  then have "ps = [p]"
    using assms by simp
  moreover have "print_json (spaced enc) (prim_json G p) \<noteq> []"
    using print_json_closed [OF prim_json_ok, of "spaced enc" p] by (simp add: closed_text_def)
  ultimately show ?thesis
    by (simp add: json_prims_def encoded_json_def json_prim_emit)
qed (simp add: json_prims_def encoded_json_def)

lemma json_AppendDuration_emit:
  assumes "cfg enc = c"
  shows "json_AppendDuration G d enc = emit (sep_text enc @ print_json (spaced enc) (duration_json G c d)) enc"
proof -
  let ?ps = "case EncodeDuration c of Some e \<Rightarrow> e d | None \<Rightarrow> []"
  have "length ?ps \<le> 1"
    using contract by (auto simp: encoder_contract_def at_most_one_def split: option.split)
  moreover have "(case EncodeDuration c of Some e \<Rightarrow> json_prims G (e d) enc | None \<Rightarrow> enc) = json_prims G ?ps enc"
    by (simp add: json_prims_def split: option.split)
  ultimately show ?thesis
    using prims_one [of ?ps enc "JRaw (itoa (sint d))"] assms
    by (auto simp: json_AppendDuration_def duration_json_def json_AppendInt64_def buffer_simps emit_simps Let_def
        split: if_splits)
qed

lemma json_AppendTime_emit:
  assumes "cfg enc = c"
  shows "json_AppendTime G t enc = emit (sep_text enc @ print_json (spaced enc) (time_json G c t)) enc"
proof -
  let ?ps = "case EncodeTime c of Some e \<Rightarrow> e t | None \<Rightarrow> []"
  have "length ?ps \<le> 1"
    using contract by (auto simp: encoder_contract_def at_most_one_def split: option.split)
  moreover have "(case EncodeTime c of Some e \<Rightarrow> json_prims G (e t) enc | None \<Rightarrow> enc) = json_prims G ?ps enc"
    by (simp add: json_prims_def split: option.split)
  ultimately show ?thesis
    using prims_one [of ?ps enc "JRaw (itoa (sint (time_UnixNano t)))"] assms
    by (auto simp: json_AppendTime_def time_json_def json_AppendInt64_def buffer_simps emit_simps Let_def
        split: if_splits)
qed

lemma encoded_json_ok: "json_ok fallback \<Longrightarrow> json_ok (encoded_json G ps fallback)"
  by (simp add: encoded_json_def prim_json_ok split: list.split)

lemma reflected_ok: "reflected c r = Inr b \<Longrightarrow> closed_text b"
  using contract by (cases r)
    (auto simp: encoder_contract_def reflected_def encodeReflected_def nullLiteralBytes_def closed_text_def
      open_byte_def)

lemma reflected_eq: "cfg enc = c \<Longrightarrow> encodeReflected enc r = reflected c r"
  by (cases r) (simp_all add: reflected_def encodeReflected_def)

section \<open>The encoder prints what the marshaler denotes\<close>

definition prints_obj :: "('l time, 'v) omarsh \<Rightarrow> bool" where
  "prints_obj m \<longleftrightarrow> (\<forall>enc. cfg enc = c \<longrightarrow> json_obj G m enc =
     map_option (\<lambda>(err, fs). (err, (emit (print_fields (spaced enc) (fresh_text (written_text enc)) fs) enc)
        \<lparr>openNamespaces := openNamespaces enc + ns_depth fs\<rparr>)) (obj_json G c m))
   \<and> (\<forall>err fs. obj_json G c m = Some (err, fs) \<longrightarrow> fields_ok fs)"

definition prints_arr :: "('l time, 'v) amarsh \<Rightarrow> bool" where
  "prints_arr m \<longleftrightarrow> (\<forall>enc. cfg enc = c \<longrightarrow> json_arr G m enc =
     map_option (\<lambda>(err, js). (err, emit (print_elems (spaced enc) (fresh_text (written_text enc)) js) enc))
        (arr_json G c m))
   \<and> (\<forall>err js. arr_json G c m = Some (err, js) \<longrightarrow> list_all json_ok js)"

lemma fresh_open:
  "fresh_text (xs @ ys @ [CHR ''{''])" "fresh_text (xs @ ys @ [CHR ''['' ])" "fresh_text (xs @ [CHR ''{''])"
  "fresh_text (xs @ ys @ zs @ [CHR ''{''])"
  by (simp_all add: fresh_text_def open_byte_def)

lemma iterate_close: "(jbuf (Buffer_AppendByte b) ^^ n) enc = emit (replicate n b) enc"
  by (induction n) (simp_all add: emit_simps replicate_append_same)

lemma close_emit: "closeOpenNamespaces enc
    = (emit (replicate (openNamespaces enc) (CHR ''}'')) enc)\<lparr>openNamespaces := 0\<rparr>"
  by (simp add: closeOpenNamespaces_def iterate_close)

lemma append_array:
  assumes "prints_arr a" and "cfg enc = c"
  shows "json_AppendArray (json_arr G a) enc =
     map_option (\<lambda>(err, js). (err, emit (sep_text enc @ print_json (spaced enc) (JArray js)) enc)) (arr_json G c a)"
  using assms by (cases "arr_json G c a")
    (auto simp: prints_arr_def json_AppendArray_def emit_simps fresh_open split: prod.split)

lemma append_object:
  assumes "prints_obj m" and "cfg enc = c"
  shows "json_AppendObject (json_obj G m) enc =
     map_option (\<lambda>(err, fs). (err, emit (sep_text enc @ print_json (spaced enc) (JObject fs)) enc)) (obj_json G c m)"
  using assms by (cases "obj_json G c m")
    (auto simp: prints_obj_def json_AppendObject_def close_emit emit_simps fresh_open Let_def split: prod.split)

text \<open>What a call does, by what its value denotes.\<close>

definition call_result ::
    "('l, 'v) jsonEncoder \<Rightarrow> bytes \<Rightarrow> (bytes + bytes option \<times> json) option
      \<Rightarrow> (bytes option \<times> ('l, 'v) jsonEncoder) option" where
  "call_result enc prefix r =
     (case r of
        None \<Rightarrow> None
      | Some (Inl e) \<Rightarrow> Some (Some e, enc)
      | Some (Inr (err, j)) \<Rightarrow>
          Some (err, emit (sep_text enc @ prefix @ print_json (spaced enc) j) enc))"

abbreviation val_den where
  "val_den v \<equiv> val_json G c (map_val id id (obj_json G c) (arr_json G c) v)"

abbreviation val_run where
  "val_run v \<equiv> map_val id id (json_obj G) (json_arr G) v"

definition prints_val where
  "prints_val v \<longleftrightarrow> (\<forall>m \<in> set3_val v. prints_obj m) \<and> (\<forall>a \<in> set4_val v. prints_arr a)"

lemma json_append_result:
  assumes "prints_val v" and "cfg enc = c"
  shows "json_append G (val_run v) enc = call_result enc [] (val_den v)"
proof (cases v)
  case (VArray a)
  then show ?thesis
    using append_array [of a enc] assms
    by (cases "arr_json G c a") (auto simp: prints_val_def json_append_def val_json_def call_result_def)
next
  case (VObject m)
  then show ?thesis
    using append_object [of m enc] assms
    by (cases "obj_json G c m") (auto simp: prints_val_def json_append_def val_json_def call_result_def)
next
  case (VReflected r)
  then show ?thesis
    using assms by (cases "reflected c r")
      (simp_all add: json_append_def val_json_def call_result_def json_AppendReflected_def reflected_eq emit_simps
        option.map_id)
qed (simp_all add: json_append_def val_json_def call_result_def json_prim_emit json_AppendDuration_emit
      json_AppendTime_emit assms)

lemma json_add_result:
  assumes "prints_val v" and "cfg enc = c"
  shows "json_add G key (val_run v) enc = call_result enc (key_text (spaced enc) key) (val_den v)"
proof (cases "\<exists>r. v = VReflected r")
  case True
  then show ?thesis
    using assms by (auto simp: json_add_def val_json_def call_result_def json_AddReflected_def reflected_eq
      emit_simps option.map_id split: sum.split)
next
  case False
  let ?e = "emit (sep_text enc @ key_text (spaced enc) key) enc"
  have "json_add G key (val_run v) enc = json_append G (val_run v) ?e"
    using False by (cases v) (simp_all add: json_add_def addKey_emit)
  also have "\<dots> = call_result ?e [] (val_den v)"
    using assms by (intro json_append_result) simp_all
  also have "\<dots> = call_result enc (key_text (spaced enc) key) (val_den v)"
    using False by (cases v) (auto simp: call_result_def val_json_def sep_text_key emit_simps split: option.split)
  finally show ?thesis .
qed

lemma val_ok:
  assumes "prints_val v" and "val_den v = Some (Inr (err, j))"
  shows "json_ok j"
  using assms reflected_ok
  by (cases v) (auto simp: prints_val_def prints_obj_def prints_arr_def val_json_def prim_json_ok
    duration_json_def time_json_def option.map_id intro!: encoded_json_ok split: sum.splits)

lemma not_fresh_after:
  "json_ok j \<Longrightarrow> \<not> fresh_text (xs @ print_json sp j)" "json_ok j \<Longrightarrow> \<not> fresh_text (xs @ ys @ print_json sp j)"
  "json_ok j \<Longrightarrow> \<not> fresh_text (xs @ ys @ zs @ print_json sp j)"
  using closed_not_fresh [OF print_json_closed, of j _ sp] by (metis append_assoc)+

lemma prints_OAdd:
  assumes v: "prints_val v" and k: "\<And>e. prints_obj (k e)"
  shows "prints_obj (OAdd key v k)"
proof (cases "val_den v")
  case None
  then show ?thesis
    using json_add_result [OF v] by (simp add: prints_obj_def call_result_def)
next
  case (Some r)
  show ?thesis
  proof (cases r)
    case (Inl e)
    then show ?thesis
      using Some json_add_result [OF v] k [of "Some e"] by (simp add: prints_obj_def call_result_def)
  next
    case (Inr p)
    obtain err j where p: "p = (err, j)"
      by (cases p)
    then have "json_ok j"
      using val_ok [OF v] Some Inr by simp
    then show ?thesis
      using Some Inr p json_add_result [OF v] k [of err] 
      by (cases "obj_json G c (k err)")
        (auto simp: prints_obj_def call_result_def not_fresh_after emit_simps sep_text_def)
  qed
qed

lemma prints_AAppend:
  assumes v: "prints_val v" and k: "\<And>e. prints_arr (k e)"
  shows "prints_arr (AAppend v k)"
proof (cases "val_den v")
  case None
  then show ?thesis
    using json_append_result [OF v] by (simp add: prints_arr_def call_result_def)
next
  case (Some r)
  show ?thesis
  proof (cases r)
    case (Inl e)
    then show ?thesis
      using Some json_append_result [OF v] k [of "Some e"] by (simp add: prints_arr_def call_result_def)
  next
    case (Inr p)
    obtain err j where p: "p = (err, j)"
      by (cases p)
    then have "json_ok j"
      using val_ok [OF v] Some Inr by simp
    then show ?thesis
      using Some Inr p json_append_result [OF v] k [of err] 
      by (cases "arr_json G c (k err)")
        (auto simp: prints_arr_def call_result_def not_fresh_after emit_simps sep_text_def)
  qed
qed

lemma prints_OAddBinary: "prints_obj k \<Longrightarrow> prints_obj (OAddBinary key b k)"
  using not_fresh_after [of "JString (base64 b)"]
  by (cases "obj_json G c k")
    (auto simp: prints_obj_def json_AddBinary_def json_AddString_def emit_simps key_text_fresh sep_text_def)

lemma prints_OOpenNamespace: "prints_obj k \<Longrightarrow> prints_obj (OOpenNamespace key k)"
  by (cases "obj_json G c k")
    (auto simp: prints_obj_def json_OpenNamespace_def emit_simps sep_text_def fresh_open Let_def)

theorem prints: "prints_obj m" "prints_arr a"
proof (induction m and a)
  case (ORet e)
  then show ?case by (simp add: prints_obj_def emit_simps)
next
  case (OAdd key v k)
  then show ?case by (intro prints_OAdd) (auto simp: prints_val_def)
next
  case (ARet e)
  then show ?case by (simp add: prints_arr_def emit_simps)
next
  case (AAppend v k)
  then show ?case by (intro prints_AAppend) (auto simp: prints_val_def)
qed (simp_all add: prints_OAddBinary prints_OOpenNamespace, simp_all add: prints_obj_def prints_arr_def)

text \<open>The two facts the theorems on entries use: what a marshaler appends, and that it is well formed.\<close>

lemma json_obj_prints:
  assumes "cfg enc = c"
  shows "json_obj G m enc =
     map_option (\<lambda>(err, fs). (err, (emit (print_fields (spaced enc) (fresh_text (written_text enc)) fs) enc)
        \<lparr>openNamespaces := openNamespaces enc + ns_depth fs\<rparr>)) (obj_json G c m)"
  using prints(1) [of m] assms by (simp add: prints_obj_def)

lemma obj_json_ok: "obj_json G c m = Some (err, fs) \<Longrightarrow> fields_ok fs"
  using prints(1) [of m] by (simp add: prints_obj_def)

end

end
