(* ===== verification/Json_Line.thy ===== *)
theory Json_Line
  imports Json_Correct
begin

text \<open>
  The line the JSON encoder makes of an entry: one printed object with the entry's own members, the
  fields of the context and of the call in order, and the stack trace, followed by the line ending.
  Fields given to \<^verbatim>\<open>With\<close> beforehand, over any number of calls, give the same line as fields given with
  the entry.
\<close>

section \<open>Sequences of members\<close>

text \<open>Members after members: what follows a namespace belongs to it.\<close>

fun fappend :: "jfields \<Rightarrow> jfields \<Rightarrow> jfields" where
  "fappend FNil gs = gs"
| "fappend (FCons k j fs) gs = FCons k j (fappend fs gs)"
| "fappend (FNamespace k fs) gs = FNamespace k (fappend fs gs)"

text \<open>The same members with every namespace closed at the end.\<close>

fun seal :: "jfields \<Rightarrow> jfields" where
  "seal FNil = FNil"
| "seal (FCons k j fs) = FCons k j (seal fs)"
| "seal (FNamespace k fs) = FCons k (JObject (seal fs)) FNil"

primrec members :: "(bytes \<times> json) list \<Rightarrow> jfields" where
  "members [] = FNil"
| "members (x # xs) = FCons (fst x) (snd x) (members xs)"

text \<open>Whether the next member is the first one where it stands.\<close>

fun at_start :: "bool \<Rightarrow> jfields \<Rightarrow> bool" where
  "at_start first FNil = first"
| "at_start first (FCons k j fs) = at_start False fs"
| "at_start first (FNamespace k fs) = at_start True fs"

lemma ns_depth_fappend [simp]: "ns_depth (fappend a b) = ns_depth a + ns_depth b"
  by (induction a b rule: fappend.induct) simp_all

lemma ns_depth_seal [simp]: "ns_depth (seal fs) = 0"
  by (induction fs rule: seal.induct) simp_all

lemma ns_depth_members [simp]: "ns_depth (members xs) = 0"
  by (induction xs) simp_all

lemma fields_ok_fappend [simp]: "fields_ok (fappend a b) \<longleftrightarrow> fields_ok a \<and> fields_ok b"
  by (induction a b rule: fappend.induct) simp_all

lemma fields_ok_seal [simp]: "fields_ok (seal fs) = fields_ok fs"
  by (induction fs rule: seal.induct) simp_all

lemma fields_ok_members [simp]: "fields_ok (members xs) \<longleftrightarrow> list_all (\<lambda>x. json_ok (snd x)) xs"
  by (induction xs) simp_all

lemma fappend_assoc: "fappend (fappend a b) d = fappend a (fappend b d)"
  by (induction a b rule: fappend.induct) simp_all

lemma fappend_FNil [simp]: "fappend a FNil = a"
  by (induction a "FNil" rule: fappend.induct) simp_all

lemma members_append: "members (xs @ ys) = fappend (members xs) (members ys)"
  by (induction xs) simp_all

lemma print_fappend:
  "print_fields sp first (fappend a b) = print_fields sp first a @ print_fields sp (at_start first a) b"
  by (induction a b arbitrary: first rule: fappend.induct) simp_all

lemma print_seal: "print_fields sp first (seal fs) = print_fields sp first fs @ replicate (ns_depth fs) (CHR ''}'')"
  by (induction fs arbitrary: first rule: seal.induct) (simp_all add: replicate_append_same)

lemma at_start_fresh:
  assumes "fields_ok fs" and "fresh_text xs = first"
  shows "fresh_text (xs @ print_fields sp first fs) = at_start first fs"
  using assms
proof (induction first fs arbitrary: xs rule: at_start.induct)
  case (2 first k j fs)
  let ?ys = "xs @ (if first then [] else sep sp) @ key_text sp k @ print_json sp j"
  have "\<not> fresh_text ?ys"
    using 2 closed_not_fresh [OF print_json_closed, of j "xs @ (if first then [] else sep sp) @ key_text sp k" sp]
    by simp
  with 2 have "fresh_text (?ys @ print_fields sp False fs) = at_start False fs"
    by (intro "2.IH") auto
  then show ?case by simp
next
  case (3 first k fs)
  let ?ys = "xs @ (if first then [] else sep sp) @ key_text sp k @ [CHR ''{'']"
  have "fresh_text (?ys @ print_fields sp True fs) = at_start True fs"
    using 3 by (intro "3.IH") (auto simp: fresh_text_def open_byte_def)
  then show ?case by simp
qed simp

lemma print_not_first: "fs \<noteq> FNil \<Longrightarrow> print_fields sp False fs = sep sp @ print_fields sp True fs"
  by (cases fs) simp_all

lemma print_empty: "print_fields sp True fs = [] \<longleftrightarrow> fs = FNil"
  by (cases fs) (simp_all add: key_text_fresh)

section \<open>Appending members\<close>

definition put_fields :: "jfields \<Rightarrow> ('l, 'v) jsonEncoder \<Rightarrow> ('l, 'v) jsonEncoder" where
  "put_fields fs enc =
     (emit (print_fields (spaced enc) (fresh_text (written_text enc)) fs) enc)
       \<lparr>openNamespaces := openNamespaces enc + ns_depth fs\<rparr>"

lemma put_fields_sel [simp]:
  "cfg (put_fields fs enc) = cfg enc" "spaced (put_fields fs enc) = spaced enc"
  "openNamespaces (put_fields fs enc) = openNamespaces enc + ns_depth fs"
  "written_text (put_fields fs enc)
     = written_text enc @ print_fields (spaced enc) (fresh_text (written_text enc)) fs"
  by (simp_all add: put_fields_def)

lemma put_put:
  assumes "fields_ok a"
  shows "put_fields b (put_fields a enc) = put_fields (fappend a b) enc"
  using at_start_fresh [OF assms, of "written_text enc" "fresh_text (written_text enc)" "spaced enc"]
  by (simp add: put_fields_def print_fappend emit_simps add.assoc)

lemma put_FNil: "put_fields FNil enc = enc"
  by (simp add: put_fields_def emit_Nil)

lemma put_open: "put_fields fs (enc\<lparr>openNamespaces := n\<rparr>)
    = (put_fields fs enc)\<lparr>openNamespaces := n + ns_depth fs\<rparr>"
  by (simp add: put_fields_def emit_simps)

lemma put_one: "put_fields (FCons k j FNil) enc
    = emit (sep_text enc @ key_text (spaced enc) k @ print_json (spaced enc) j) enc"
  by (simp add: put_fields_def sep_text_def emit_def)

text \<open>What an encoder with a context looks like.\<close>

definition has_context :: "('l, 'v) EncoderConfig \<Rightarrow> bool \<Rightarrow> jfields \<Rightarrow> ('l, 'v) jsonEncoder \<Rightarrow> bool" where
  "has_context c sp ctx enc \<longleftrightarrow>
     cfg enc = c \<and> spaced enc = sp \<and> written_text enc = print_fields sp True ctx
   \<and> openNamespaces enc = ns_depth ctx \<and> fields_ok ctx"

lemma has_context_new: "has_context (cfg (newJSONEncoder G c sp)) sp FNil (newJSONEncoder G c sp)"
  by (simp add: has_context_def newJSONEncoder_def bufferpool_Get_def Let_def)

lemma clone_emit: "json_Clone enc = emit (written_text enc) (json_clone enc)"
  by (simp add: json_Clone_def emit_simps buffer_simps)

lemma json_clone_sel [simp]:
  "cfg (json_clone enc) = cfg enc" "spaced (json_clone enc) = spaced enc"
  "openNamespaces (json_clone enc) = openNamespaces enc" "written_text (json_clone enc) = []"
  by (simp_all add: json_clone_def bufferpool_Get_def)

lemma has_context_clone: "has_context c sp ctx enc \<Longrightarrow> has_context c sp ctx (json_Clone enc)"
  by (simp add: has_context_def clone_emit)

lemma has_context_put:
  assumes "has_context c sp ctx enc" and "fields_ok fs"
  shows "has_context c sp (fappend ctx fs) (put_fields fs enc)"
  using assms at_start_fresh [of ctx "[]" True sp]
  by (simp add: has_context_def print_fappend fresh_text_def)

text \<open>\<^verbatim>\<open>With\<close> on a core that has a JSON encoder: a clone of the encoder and the fields added to it.\<close>

fun json_With :: "('l, 'v) gostd \<Rightarrow> 'l \<Rightarrow> ('l, 'v) Field list list \<Rightarrow> ('l, 'v) jsonEncoder
      \<Rightarrow> ('l, 'v) jsonEncoder option" where
  "json_With G local [] enc = Some enc"
| "json_With G local (fs # fss) enc =
     (case json_obj G (addFields local fs) (json_Clone enc) of
        None \<Rightarrow> None
      | Some (_, enc1) \<Rightarrow> json_With G local fss enc1)"

section \<open>What an entry denotes\<close>

definition level_members where
  "level_members G c ent =
     (case EncodeLevel c of
        Some e \<Rightarrow> if LevelKey c \<noteq> [] then
          [(LevelKey c, encoded_json G (e (ent_Level ent)) (JString (Level_String (ent_Level ent))))] else []
      | None \<Rightarrow> [])"

definition time_members where
  "time_members G c ent =
     (if TimeKey c \<noteq> [] \<and> \<not> time_IsZero (ent_Time ent) then [(TimeKey c, time_json G c (ent_Time ent))] else [])"

definition name_members where
  "name_members G c ent =
     (if LoggerName ent \<noteq> [] \<and> NameKey c \<noteq> [] then
        [(NameKey c, encoded_json G ((case EncodeName c of Some e \<Rightarrow> e | None \<Rightarrow> FullNameEncoder) (LoggerName ent))
             (JString (LoggerName ent)))] else [])"

definition caller_members where
  "caller_members G c ent =
     (if Defined (ent_Caller ent) \<and> CallerKey c \<noteq> [] then
        [(CallerKey c, encoded_json G (case EncodeCaller c of Some e \<Rightarrow> e (ent_Caller ent) | None \<Rightarrow> [])
             (JString (EntryCaller_String (ent_Caller ent))))] else [])"

definition function_members where
  "function_members c ent =
     (if Defined (ent_Caller ent) \<and> FunctionKey c \<noteq> [] then [(FunctionKey c, JString (Function (ent_Caller ent)))]
      else [])"

definition message_members where
  "message_members c ent = (if MessageKey c \<noteq> [] then [(MessageKey c, JString (Message ent))] else [])"

definition stack_members where
  "stack_members c ent =
     (if Stack ent \<noteq> [] \<and> StacktraceKey c \<noteq> [] then [(StacktraceKey c, JString (Stack ent))] else [])"

text \<open>The members before the fields.\<close>

definition head_members :: "('l, 'v) gostd \<Rightarrow> ('l, 'v) EncoderConfig \<Rightarrow> 'l Entry \<Rightarrow> (bytes \<times> json) list" where
  "head_members G c ent =
     level_members G c ent @ time_members G c ent @ name_members G c ent @ caller_members G c ent
     @ function_members c ent @ message_members c ent"

definition entry_json :: "('l, 'v) gostd \<Rightarrow> ('l, 'v) EncoderConfig \<Rightarrow> 'l Entry \<Rightarrow> jfields \<Rightarrow> json" where
  "entry_json G c ent fs =
     JObject (fappend (members (head_members G c ent)) (fappend (seal fs) (members (stack_members c ent))))"

text \<open>The one way in which an entry panics by itself: a caller to print and no encoder for it.\<close>

definition caller_panics :: "('l, 'v) EncoderConfig \<Rightarrow> 'l Entry \<Rightarrow> bool" where
  "caller_panics c ent \<longleftrightarrow> Defined (ent_Caller ent) \<and> CallerKey c \<noteq> [] \<and> EncodeCaller c = None"

lemmas head_defs = level_members_def time_members_def name_members_def caller_members_def function_members_def
  message_members_def

section \<open>The line of an entry\<close>

lemma addKey_string: "json_AppendString s (addKey k enc) = put_fields (FCons k (JString s) FNil) enc"
  by (simp add: put_one emit_simps sep_text_key)

lemma message_step: "entry_message ent enc = put_fields (members (message_members (cfg enc) ent)) enc"
  by (simp add: entry_message_def message_members_def addKey_string put_FNil)

lemma function_step: "entry_function ent enc = put_fields (members (function_members (cfg enc) ent)) enc"
  by (simp add: entry_function_def function_members_def addKey_string put_FNil)

lemma stack_step: "entry_stack ent enc = put_fields (members (stack_members (cfg enc) ent)) enc"
  by (simp add: entry_stack_def stack_members_def json_AddString_def addKey_string put_FNil)

lemma context_step:
  assumes "has_context c sp ctx enc" and "spaced final = sp"
  shows "entry_context enc final = emit (print_fields sp (fresh_text (written_text final)) ctx) final"
proof (cases "ctx = FNil")
  case True
  then show ?thesis
    using assms by (simp add: entry_context_def has_context_def buffer_simps emit_Nil)
next
  case False
  then show ?thesis
    using assms print_empty [of sp ctx] print_not_first [of ctx sp]
    by (simp add: entry_context_def has_context_def buffer_simps emit_simps sep_text_def)
qed

lemma close_step:
  assumes "openNamespaces enc = 0"
  shows "closeOpenNamespaces (put_fields fs enc) = put_fields (seal fs) enc"
proof -
  have iterate: "(jbuf (Buffer_AppendByte b) ^^ n) e = emit (replicate n b) e" for b n and e :: "('l, 'v) jsonEncoder"
    by (induction n) (simp_all add: emit_simps replicate_append_same)
  show ?thesis
    using assms by (simp add: closeOpenNamespaces_def iterate put_fields_def print_seal emit_simps)
qed

text \<open>One marshaler after the other.\<close>

lemma obj_json_obind:
  "obj_json G c (obind m k) =
     (case obj_json G c m of
        None \<Rightarrow> None
      | Some (e, a) \<Rightarrow> map_option (\<lambda>r. (fst r, fappend a (snd r))) (obj_json G c (k e)))"
  by (induction m rule: omarsh_induct)
    (auto simp: option.map_comp comp_def case_prod_beta option.map_id [unfolded id_def] split: option.splits sum.splits)

context json_format
begin

lemma encoded_step:
  assumes "length ps \<le> 1" and "cfg enc = c"
  shows "json_encoded G key ps fallback enc
    = put_fields (FCons key (encoded_json G ps (JString fallback)) FNil) enc"
  using prims_one [OF assms(1), of "addKey key enc" "JString fallback"]
  by (auto simp: json_encoded_def put_one emit_simps sep_text_key buffer_simps Let_def split: if_splits)

lemma contract_length:
  "EncodeLevel c = Some e1 \<Longrightarrow> length (e1 x1) \<le> 1" "EncodeName c = Some e2 \<Longrightarrow> length (e2 x2) \<le> 1"
  "EncodeCaller c = Some e3 \<Longrightarrow> length (e3 x3) \<le> 1"
  using contract by (simp_all add: encoder_contract_def at_most_one_def)

lemma level_step: "cfg enc = c \<Longrightarrow> entry_level G ent enc = put_fields (members (level_members G c ent)) enc"
  using contract_length(1) [of _ "ent_Level ent"]
  by (cases "EncodeLevel c") (simp_all add: entry_level_def level_members_def encoded_step put_FNil)

lemma time_step: "cfg enc = c \<Longrightarrow> entry_time G ent enc = put_fields (members (time_members G c ent)) enc"
  using json_AppendTime_emit [of "addKey (TimeKey c) enc" "ent_Time ent"]
  by (simp add: entry_time_def time_members_def json_AddTime_def put_one put_FNil emit_simps sep_text_key
     )

lemma name_step: "cfg enc = c \<Longrightarrow> entry_name G ent enc = put_fields (members (name_members G c ent)) enc"
  using contract_length(2) [of _ "LoggerName ent"]
  by (cases "EncodeName c")
    (simp_all add: entry_name_def name_members_def encoded_step put_FNil FullNameEncoder_def)

lemma caller_step: "cfg enc = c \<Longrightarrow> entry_caller G ent enc =
    (if caller_panics c ent then None else Some (put_fields (members (caller_members G c ent)) enc))"
  using contract_length(3) [of _ "ent_Caller ent"]
  by (cases "EncodeCaller c")
    (simp_all add: entry_caller_def caller_members_def caller_panics_def encoded_step put_FNil)

lemma head_ok: "list_all (\<lambda>x. json_ok (snd x)) (head_members G c ent)"
proof -
  have "list_all (\<lambda>x. json_ok (snd x)) (level_members G c ent)"
    by (simp add: level_members_def encoded_json_ok split: option.split)
  moreover have "list_all (\<lambda>x. json_ok (snd x)) (time_members G c ent)"
    by (simp add: time_members_def time_json_def encoded_json_ok)
  moreover have "list_all (\<lambda>x. json_ok (snd x)) (name_members G c ent)"
    by (simp add: name_members_def encoded_json_ok)
  moreover have "list_all (\<lambda>x. json_ok (snd x)) (caller_members G c ent)"
    by (simp add: caller_members_def encoded_json_ok)
  ultimately show ?thesis
    by (simp add: head_members_def function_members_def message_members_def)
qed

lemma fields_step:
  "cfg enc = c \<Longrightarrow> json_obj G m enc = map_option (\<lambda>(err, fs). (err, put_fields fs enc)) (obj_json G c m)"
  by (simp add: json_obj_prints put_fields_def)

text \<open>The steps up to the context and with the fields.\<close>

lemma head_steps:
  assumes "cfg enc = c"
  shows "map_option (\<lambda>final. entry_message ent (entry_function ent final))
      (entry_caller G ent (entry_name G ent (entry_time G ent (entry_level G ent enc))))
    = (if caller_panics c ent then None else Some (put_fields (members (head_members G c ent)) enc))"
proof -
  have ok: "list_all (\<lambda>x. json_ok (snd x)) (level_members G c ent)"
    "list_all (\<lambda>x. json_ok (snd x)) (time_members G c ent)" "list_all (\<lambda>x. json_ok (snd x)) (name_members G c ent)"
    "list_all (\<lambda>x. json_ok (snd x)) (caller_members G c ent)"
    "list_all (\<lambda>x. json_ok (snd x)) (function_members c ent)"
    using head_ok [of ent] by (simp_all add: head_members_def)
  show ?thesis
    using assms ok
    by (simp add: level_step time_step name_step caller_step function_step message_step put_put head_members_def
        members_append fappend_assoc)
qed

text \<open>The end of an entry: the stack trace, the brace and the line ending.\<close>

definition finish :: "'l Entry \<Rightarrow> ('l, 'v) jsonEncoder \<Rightarrow> Buffer" where
  "finish ent final =
     (let final = jbuf (Buffer_AppendByte (CHR ''}'')) (entry_stack ent (closeOpenNamespaces final))
      in buf (jbuf (Buffer_AppendString (LineEnding (cfg final))) final))"

lemma EncodeEntry_steps:
  "json_EncodeEntry G local ent fs enc =
     Option.bind (map_option (\<lambda>final. entry_message ent (entry_function ent final))
         (entry_caller G ent (entry_name G ent (entry_time G ent (entry_level G ent
           (jbuf (Buffer_AppendByte (CHR ''{'')) (json_clone enc)))))))
       (\<lambda>final. map_option (\<lambda>(_, final). finish ent final)
         (json_obj G (addFields local fs) (entry_context enc final)))"
  by (simp add: json_EncodeEntry_def finish_def Let_def split: option.split)

lemma finish_text:
  assumes "cfg enc = c" and "spaced enc = sp" and "openNamespaces enc = 0" and "written_text enc = ''{''"
    and "fields_ok fs" and "fs = fappend (members h) gs"
  shows "bs (finish ent (put_fields fs enc))
    = print_json sp (JObject (fappend (members h) (fappend (seal gs) (members (stack_members c ent))))) @ LineEnding c"
proof -
  have "seal (fappend (members h) gs) = fappend (members h) (seal gs)"
    by (induction h) simp_all
  moreover have "fresh_text ''{''"
    by (simp add: fresh_text_def open_byte_def)
  ultimately show ?thesis
    using assms by (simp add: finish_def close_step stack_step put_put emit_simps fappend_assoc Let_def)
qed

lemma encode_entry:
  assumes "has_context c sp ctx enc"
  shows "map_option bs (json_EncodeEntry G local ent fs enc) =
    (if caller_panics c ent then None
     else map_option (\<lambda>r. print_json sp (entry_json G c ent (fappend ctx (snd r))) @ LineEnding c)
            (obj_json G c (addFields local fs)))"
proof -
  define start where "start = (emit [CHR ''{''] (json_clone enc))\<lparr>openNamespaces := 0\<rparr>"
  have enc: "cfg enc = c" "spaced enc = sp" "openNamespaces enc = ns_depth ctx" "fields_ok ctx"
    using assms by (simp_all add: has_context_def)
  have start: "jbuf (Buffer_AppendByte (CHR ''{'')) (json_clone enc) = start\<lparr>openNamespaces := ns_depth ctx\<rparr>"
    "cfg start = c" "spaced start = sp" "openNamespaces start = 0" "written_text start = ''{''"
    using enc by (simp_all add: start_def emit_simps)
  let ?head = "members (head_members G c ent)"
  have ctx: "entry_context enc (put_fields ?head (start\<lparr>openNamespaces := ns_depth ctx\<rparr>))
      = put_fields (fappend ?head ctx) start"
    using context_step [OF assms, of "put_fields ?head (start\<lparr>openNamespaces := ns_depth ctx\<rparr>)"] start head_ok
    by (subst put_put [symmetric]) (simp_all add: put_open put_fields_def [of ctx] emit_simps)
  have fields: "json_obj G (addFields local fs) (put_fields (fappend ?head ctx) start) =
      map_option (\<lambda>(err, gs). (err, put_fields (fappend ?head (fappend ctx gs)) start)) (obj_json G c (addFields local fs))"
    using start(2) enc(4) head_ok by (simp add: fields_step put_put fappend_assoc)
  show ?thesis
  proof (cases "obj_json G c (addFields local fs)")
    case None
    then show ?thesis
      using head_steps [of "start\<lparr>openNamespaces := ns_depth ctx\<rparr>" ent] start(1,2) ctx fields
      by (simp add: EncodeEntry_steps)
  next
    case (Some p)
    obtain err gs where p: "p = (err, gs)"
      by (cases p)
    have "fields_ok (fappend ?head (fappend ctx gs))"
      using Some p obj_json_ok enc(4) head_ok by simp
    then show ?thesis
      using head_steps [of "start\<lparr>openNamespaces := ns_depth ctx\<rparr>" ent] start(1,2) ctx fields Some p
        finish_text [OF start(2-5) _ refl]
      by (simp add: EncodeEntry_steps entry_json_def)
  qed
qed

lemma json_With_context:
  assumes "has_context c sp ctx enc"
  shows "case json_With G local fss enc of
      None \<Rightarrow> obj_json G c (addFields local (concat fss)) = None
    | Some enc1 \<Rightarrow> \<exists>err gs. obj_json G c (addFields local (concat fss)) = Some (err, gs)
        \<and> has_context c sp (fappend ctx gs) enc1"
  using assms
proof (induction fss arbitrary: ctx enc)
  case Nil
  then show ?case by simp
next
  case (Cons fs fss)
  have clone: "has_context c sp ctx (json_Clone enc)"
    using Cons.prems by (rule has_context_clone)
  then have "cfg (json_Clone enc) = c"
    by (simp add: has_context_def)
  note step = fields_step [OF this, of "addFields local fs"]
  show ?case
  proof (cases "obj_json G c (addFields local fs)")
    case None
    then show ?thesis
      using step by (simp add: addFields_append obj_json_obind)
  next
    case (Some p)
    obtain e gs where p: "p = (e, gs)"
      by (cases p)
    then have "has_context c sp (fappend ctx gs) (put_fields gs (json_Clone enc))"
      using has_context_put [OF clone] obj_json_ok Some by simp
    from Cons.IH [OF this] show ?thesis
      using step Some p
      by (auto simp: addFields_append obj_json_obind fappend_assoc split: option.splits)
  qed
qed

end

section \<open>Presets\<close>

text \<open>The encoders of the presets and of configuration text make one call each, so a configuration that
  uses them meets the contract; what remains is that of the standard library.\<close>

definition std_contract :: "('l, 'v) gostd \<Rightarrow> bool" where
  "std_contract G \<longleftrightarrow> (\<forall>f n. closed_text (formatFloat G f n))
     \<and> (\<forall>v b. jsonEncode G v = Inr b \<longrightarrow> (\<exists>t. b = t @ [newline] \<and> closed_text t))"

lemma trim_line: "Buffer_Bytes (Buffer_TrimNewline (Buffer_AppendBytes (t @ [newline]) (Buffer_Reset b))) = t"
  by (simp add: buffer_simps)

lemma reflected_default:
  assumes "std_contract G" and "NewReflectedEncoder c = Some (jsonEncode G)" and "reflected c (Some v) = Inr b"
  shows "closed_text b"
proof -
  obtain x where x: "jsonEncode G v = Inr x"
      "b = Buffer_Bytes (Buffer_TrimNewline (Buffer_AppendBytes x (Buffer_Reset bufferpool_Get)))"
    using assms(2,3) by (auto simp: reflected_def encodeReflected_def split: sum.splits)
  moreover obtain t where "x = t @ [newline]" "closed_text t"
    using assms(1) x(1) unfolding std_contract_def by blast
  ultimately show ?thesis
    by (simp add: trim_line)
qed

lemma default_contract:
  assumes "std_contract G" and "NewReflectedEncoder cf = None"
    and "at_most_one (EncodeDuration cf)" and "at_most_one (EncodeTime cf)" and "at_most_one (EncodeLevel cf)"
    and "at_most_one (EncodeCaller cf)" and "at_most_one (EncodeName cf)"
  shows "encoder_contract G (cfg (newJSONEncoder G cf sp))"
proof -
  have "NewReflectedEncoder (cfg (newJSONEncoder G cf sp)) = Some (jsonEncode G)"
    using assms(2) by (simp add: newJSONEncoder_def Let_def)
  note reflected = reflected_default [OF assms(1) this]
  show ?thesis
    using assms reflected by (auto simp: encoder_contract_def std_contract_def newJSONEncoder_def Let_def)
qed

lemma at_most_one_simps [simp]: "at_most_one None" "at_most_one (Some e) \<longleftrightarrow> (\<forall>x. length (e x) \<le> 1)"
  by (simp_all add: at_most_one_def)

lemma preset_contracts:
  assumes "std_contract G"
  shows "encoder_contract G (cfg (newJSONEncoder G (NewProductionEncoderConfig fdiv) sp))"
    and "encoder_contract G (cfg (newJSONEncoder G (NewDevelopmentEncoderConfig dstring) sp))"
  by (rule default_contract [OF assms];
      simp add: NewProductionEncoderConfig_def NewDevelopmentEncoderConfig_def LowercaseLevelEncoder_def
        EpochTimeEncoder_def SecondsDurationEncoder_def ShortCallerEncoder_def CapitalLevelEncoder_def
        ISO8601TimeEncoder_def StringDurationEncoder_def encodeTimeLayout_def)+

text \<open>A standard library that meets the contract, for applying the theorems: integers for floats and
  strings for reflected values.\<close>

definition plain_std :: "('l, bytes) gostd" where
  "plain_std = \<lparr>timeFormat = (\<lambda>t layout. itoa (t_nanos t)), formatFloat = (\<lambda>f n. digits (unat f)),
     float64of32 = ucast, jsonEncode = (\<lambda>v. Inr (string_text v @ [newline]))\<rparr>"

lemma plain_std_contract: "std_contract plain_std"
  using string_text_closed by (auto simp: std_contract_def plain_std_def)

definition production_encoder :: "(unit, bytes) jsonEncoder" where
  "production_encoder = NewJSONEncoder plain_std (NewProductionEncoderConfig (\<lambda>a b. word_of_int (a div b)))"

interpretation production: json_format plain_std "cfg production_encoder"
  by unfold_locales (simp add: production_encoder_def NewJSONEncoder_def preset_contracts plain_std_contract)

section \<open>Properties\<close>

text \<open>C3. The line of an entry is one JSON object followed by the line ending.  For any encoder made by
  \<^verbatim>\<open>NewJSONEncoder\<close> (or its spaced variant) and any fields added by any number of \<^verbatim>\<open>With\<close>s, the bytes of
  \<^verbatim>\<open>EncodeEntry\<close> are the printed form of the object with the entry's members, then all fields in
  order with their namespaces closed, then the stack trace.  It panics only if a marshaler does, or
  for a caller without an encoder.\<close>

theorem entry_is_one_json_line:
  assumes "encoder_contract G (cfg (newJSONEncoder G cf sp))" and "c = cfg (newJSONEncoder G cf sp)"
  shows "Option.bind (json_With G local fss (newJSONEncoder G cf sp))
      (\<lambda>enc. map_option bs (json_EncodeEntry G local ent fs enc)) =
    (if caller_panics c ent then None
     else map_option (\<lambda>r. print_json sp (entry_json G c ent (snd r)) @ LineEnding c)
            (obj_json G c (addFields local (concat fss @ fs))))"
proof -
  let ?e = "newJSONEncoder G cf sp"
  have format: "json_format G c"
    using assms by unfold_locales simp
  have "has_context c sp FNil ?e"
    using has_context_new [of G cf sp] assms(2) by simp
  note reached = json_format.json_With_context [OF format this, of local fss]
  show ?thesis
  proof (cases "json_With G local fss ?e")
    case None
    then show ?thesis
      using reached by (simp add: addFields_append obj_json_obind)
  next
    case (Some enc)
    then obtain err gs where gs: "obj_json G c (addFields local (concat fss)) = Some (err, gs)"
        "has_context c sp gs enc"
      using reached by auto
    show ?thesis
      using Some gs(1) json_format.encode_entry [OF format gs(2), of local ent fs]
      by (simp add: addFields_append obj_json_obind option.map_comp comp_def case_prod_beta)
  qed
qed

lemmas production_defs = production_encoder_def NewJSONEncoder_def newJSONEncoder_def NewProductionEncoderConfig_def
  DefaultLineEnding_def

theorem entry_is_one_json_line_witness:
  "map_option bs (json_EncodeEntry plain_std ()
      \<lparr>ent_Level = InfoLevel, ent_Time = \<lparr>t_nanos = 5, t_loc = ()\<rparr>, LoggerName = [], Message = ''hi'',
       ent_Caller = NewEntryCaller 0 [] 0 False, Stack = []\<rparr>
      [Namespace_field ''n'', Bool_field ''b'' True] production_encoder) =
   Some (print_json False (JObject (FCons ''level'' (JString ''info'') (FCons ''ts'' (JRaw (digits 0))
          (FCons ''msg'' (JString ''hi'')
          (FCons ''n'' (JObject (FCons ''b'' (JRaw ''true'') FNil)) FNil))))) @ [newline])"
proof -
  let ?ent = "\<lparr>ent_Level = InfoLevel, ent_Time = \<lparr>t_nanos = 5, t_loc = ()\<rparr>, LoggerName = [], Message = ''hi'',
       ent_Caller = NewEntryCaller 0 [] 0 False, Stack = []\<rparr>"
  let ?fs = "[Namespace_field ''n'', Bool_field ''b'' True] :: (unit, bytes) Field list"
  let ?c = "cfg production_encoder"
  have line: "map_option bs (json_EncodeEntry plain_std () ?ent ?fs production_encoder) =
    (if caller_panics ?c ?ent then None
     else map_option (\<lambda>r. print_json False (entry_json plain_std ?c ?ent (snd r)) @ LineEnding ?c)
            (obj_json plain_std ?c (addFields () ?fs)))"
    using entry_is_one_json_line [OF production.contract [unfolded production_encoder_def NewJSONEncoder_def] refl,
        of "()" "[]" ?ent ?fs]
    by (simp add: production_encoder_def NewJSONEncoder_def)
  have "obj_json plain_std ?c (addFields () ?fs) = Some (None, FNamespace ''n'' (FCons ''b'' (JRaw ''true'') FNil))"
    by (simp add: Field_AddTo_def field_ctor_defs add_prim_def val_json_def)
  moreover have "\<not> caller_panics ?c ?ent"
    by (simp add: caller_panics_def NewEntryCaller_def)
  moreover have "LineEnding ?c = [newline]"
    by (simp add: production_defs Let_def)
  moreover have "head_members plain_std ?c ?ent
      = [(''level'', JString ''info''), (''ts'', JRaw (digits 0)), (''msg'', JString ''hi'')]"
    by (simp add: head_members_def head_defs production_defs LowercaseLevelEncoder_def encoded_json_def
        time_IsZero_def time_json_def EpochTimeEncoder_def float_json_def plain_std_def NewEntryCaller_def
        Level_String_def level_simps time_UnixNano_def PosInf_def NegInf_def IsNaN_def Let_def)
  moreover have "stack_members ?c ?ent = []"
    by (simp add: stack_members_def)
  ultimately show ?thesis
    by (simp add: line entry_json_def)
qed

end
