(* ===== verification/Field_Laws.thy ===== *)
theory Field_Laws
  imports Json_Line
begin

text \<open>
  The laws of fields.  A field made by \<^verbatim>\<open>Any\<close>, and so by the constructor of its type, makes exactly the
  call for the value it was given, however the value is packed into the field.  Fields made from
  values whose marshalers do not panic have the right dynamic type in their interface slot, and
  adding them to an encoder does not panic.
\<close>

section \<open>The calls for a value\<close>

text \<open>The call for a value of one of the types that come as such, as a pointer and as a slice: \<open>f\<close> is the
  call for the value, \<open>g\<close> the call for an element of a slice.\<close>

definition shape_calls :: "bytes \<Rightarrow> ('x \<Rightarrow> ('t, 'v) mval) \<Rightarrow> ('x \<Rightarrow> ('t, 'v) mval) \<Rightarrow> 'x shape \<Rightarrow> ('t, 'v) omarsh" where
  "shape_calls key f g s =
     (case s of
        Plain x \<Rightarrow> OAdd key (f x) (\<lambda>_. ORet None)
      | Pointer (Some x) \<Rightarrow> OAdd key (f x) (\<lambda>_. ORet None)
      | Pointer None \<Rightarrow> OAdd key (VReflected None) (add_error key)
      | Slice xs \<Rightarrow> OAdd key (VArray (append_each g xs)) (add_error key))"

abbreviation prim_calls :: "bytes \<Rightarrow> ('x \<Rightarrow> 't prim) \<Rightarrow> ('x \<Rightarrow> 't prim) \<Rightarrow> 'x shape \<Rightarrow> ('t, 'v) omarsh" where
  "prim_calls key f g \<equiv> shape_calls key (\<lambda>x. VPrim (f x)) (\<lambda>x. VPrim (g x))"

fun any_calls :: "'l \<Rightarrow> bytes \<Rightarrow> ('l, 'v) goval \<Rightarrow> ('l time, 'v) omarsh" where
  "any_calls local key GNil = OAdd key (VReflected None) (add_error key)"
| "any_calls local key (GObjectMarshaler m) = OAdd key (VObject m) (add_error key)"
| "any_calls local key (GArrayMarshaler m) = OAdd key (VArray m) (add_error key)"
| "any_calls local key (GFields fs) = OAdd key (VObject (addFields local fs)) (add_error key)"
| "any_calls local key (GBool s) = prim_calls key PBool PBool s"
| "any_calls local key (GComplex128 s) = prim_calls key (\<lambda>(r, i). PComplex128 r i) (\<lambda>(r, i). PComplex128 r i) s"
| "any_calls local key (GComplex64 s) = prim_calls key (\<lambda>(r, i). PComplex64 r i) (\<lambda>(r, i). PComplex64 r i) s"
| "any_calls local key (GFloat64 s) = prim_calls key PFloat64 PFloat64 s"
| "any_calls local key (GFloat32 s) = prim_calls key PFloat32 PFloat32 s"
| "any_calls local key (GInt s) = prim_calls key PInt64 PInt s"
| "any_calls local key (GInt64 s) = prim_calls key PInt64 PInt64 s"
| "any_calls local key (GInt32 s) = prim_calls key PInt32 PInt32 s"
| "any_calls local key (GInt16 s) = prim_calls key PInt16 PInt16 s"
| "any_calls local key (GInt8 s) = prim_calls key PInt8 PInt8 s"
| "any_calls local key (GString s) = prim_calls key PString PString s"
| "any_calls local key (GUint s) = prim_calls key PUint64 PUint s"
| "any_calls local key (GUint64 s) = prim_calls key PUint64 PUint64 s"
| "any_calls local key (GUint32 s) = prim_calls key PUint32 PUint32 s"
| "any_calls local key (GUint16 s) = prim_calls key PUint16 PUint16 s"
| "any_calls local key (GUint8 (Slice xs)) = OAddBinary key (to_bytes xs) (ORet None)"
| "any_calls local key (GUint8 s) = prim_calls key PUint8 PUint8 s"
| "any_calls local key (GUintptr s) = prim_calls key PUintptr PUintptr s"
| "any_calls local key (GTime s) = shape_calls key VTime VTime s"
| "any_calls local key (GDuration s) = shape_calls key VDuration VDuration s"
| "any_calls local key (GError e) = obind (encodeError key e) (add_error key)"
| "any_calls local key (GErrors es) = OAdd key (VArray (zap_errArray local es)) (add_error key)"
| "any_calls local key (GStringer st) = obind (encodeStringer key st) (add_error key)"
| "any_calls local key (GOther v) = OAdd key (VReflected (Some v)) (add_error key)"

text \<open>Packing into the int64 slot and unpacking.\<close>

lemma ucast_scast_64: "LENGTH('a::len) \<le> 64 \<Longrightarrow> ucast (scast (x :: 'a word) :: 64 word) = x"
proof (rule bit_word_eqI)
  fix n
  assume "LENGTH('a) \<le> 64" "n < LENGTH('a)"
  then show "bit (ucast (scast x :: 64 word) :: 'a word) n = bit x n"
    by (cases "n = LENGTH('a) - 1") (auto simp: bit_unsigned_iff bit_signed_iff min_def)
qed

lemma ucast_ucast_64: "LENGTH('a::len) \<le> 64 \<Longrightarrow> ucast (ucast (x :: 'a word) :: 64 word) = x"
  by (rule bit_word_eqI) (simp add: bit_unsigned_iff)

lemma packed_time:
  "minTimeInt64 \<le> n \<Longrightarrow> n \<le> maxTimeInt64 \<Longrightarrow> sint (word_of_int n :: int64) = n"
  by (simp add: sint_sbintrunc' minTimeInt64_def maxTimeInt64_def signed_take_bit_int_eq_self)

lemma Time_AddTo: "Field_AddTo local (Time_field key t) = OAdd key (VTime t) (\<lambda>_. ORet None)"
  by (cases t) (auto simp: Field_AddTo_def Time_field_def field_def time_Unix_def packed_time)

lemma nil_AddTo: "Field_AddTo local (nilField key) = OAdd key (VReflected None) (add_error key)"
  by (simp add: Field_AddTo_def nilField_def Reflect_field_def field_def)

lemma Array_AddTo: "Field_AddTo local (Array_field key a) = OAdd key (VArray a) (add_error key)"
  by (simp add: Field_AddTo_def Array_field_def field_def)

lemmas array_type_defs = bools_def byteStringsArray_def float64s_def float32s_def ints_def int64s_def int32s_def
  int16s_def int8s_def stringArray_def uints_def uint64s_def uint32s_def uint16s_def uint8s_def uintptrs_def
  complex128s_def complex64s_def durations_def times_def

text \<open>C16. A value passed to \<^verbatim>\<open>Any\<close> reaches the encoder unchanged: for every type that it knows, the field
  makes the one call of that type with that value, a nil pointer is encoded as nil, a slice as an array
  of its elements, and bytes as binary data.  The packing of small integers, floating-point numbers and
  times into an int64 loses nothing.\<close>

theorem any_reaches_encoder: "Field_AddTo local (Any_field local key v) = any_calls local key v"
proof (cases v)
  case (GTime s)
  then show ?thesis
    by (cases s) (auto simp: Any_field_def any_shape_def shape_calls_def Timep_field_def Time_AddTo
        Times_field_def Array_AddTo nil_AddTo times_def split: option.split)
qed (auto simp: Any_field_def any_shape_def shape_calls_def Field_AddTo_def field_ctor_defs add_prim_def array_type_defs
      ucast_scast_64 ucast_ucast_64 dictField_def dictObject_def NamedError_field_def Errors_field_def
      case_prod_unfold split: shape.split option.split)


section \<open>Well-typed fields\<close>

text \<open>A marshaler that does not panic, whatever errors the encoder returns.\<close>

fun calm_val :: "('t, 'v, bool, bool) val \<Rightarrow> bool" where
  "calm_val (VArray a) = a"
| "calm_val (VObject ob) = ob"
| "calm_val _ = True"

primrec calm_obj :: "('t, 'v) omarsh \<Rightarrow> bool"
  and calm_arr :: "('t, 'v) amarsh \<Rightarrow> bool" where
  "calm_obj (ORet e) = True"
| "calm_obj (OAdd key v k) = (calm_val (map_val id id calm_obj calm_arr v) \<and> (\<forall>e. calm_obj (k e)))"
| "calm_obj (OAddBinary key b k) = calm_obj k"
| "calm_obj (OOpenNamespace key k) = calm_obj k"
| "calm_obj OPanic = False"
| "calm_arr (ARet e) = True"
| "calm_arr (AAppend v k) = (calm_val (map_val id id calm_obj calm_arr v) \<and> (\<forall>e. calm_arr (k e)))"
| "calm_arr APanic = False"

text \<open>The type invariant of fields: the interface slot holds a value of the dynamic type that \<^verbatim>\<open>AddTo\<close> asserts
  for the type of the field.\<close>

definition field_typed :: "('l, 'v) Field \<Rightarrow> bool" where
  "field_typed f =
     (case (FType f, Interface f) of
        (ArrayMarshalerType, IArray a) \<Rightarrow> calm_arr a
      | (ArrayMarshalerType, _) \<Rightarrow> False
      | (ObjectMarshalerType, IObject ob) \<Rightarrow> calm_obj ob
      | (ObjectMarshalerType, _) \<Rightarrow> False
      | (InlineMarshalerType, IObject ob) \<Rightarrow> calm_obj ob
      | (InlineMarshalerType, _) \<Rightarrow> False
      | (BinaryType, i) \<Rightarrow> (\<exists>b. i = IBytes b)
      | (ByteStringType, i) \<Rightarrow> (\<exists>b. i = IBytes b)
      | (Complex128Type, i) \<Rightarrow> (\<exists>r c. i = IComplex128 r c)
      | (Complex64Type, i) \<Rightarrow> (\<exists>r c. i = IComplex64 r c)
      | (TimeType, i) \<Rightarrow> i = INil \<or> (\<exists>l. i = ILocation l)
      | (TimeFullType, i) \<Rightarrow> (\<exists>t. i = ITime t)
      | (ReflectType, i) \<Rightarrow> i = INil \<or> (\<exists>v. i = IReflect v)
      | (ErrorType, i) \<Rightarrow> (\<exists>e. i = IError e)
      | (UnknownType, _) \<Rightarrow> False
      | _ \<Rightarrow> True)"

lemma calm_obind: "calm_obj m \<Longrightarrow> (\<And>e. calm_obj (k e)) \<Longrightarrow> calm_obj (obind m k)"
  by (induction m rule: omarsh_induct) auto

lemma calm_add_error [simp]: "calm_obj (add_error key err)"
  by (simp add: add_error_def split: option.split)

lemma calm_encodeError: "calm_obj (encodeError key e :: ('t, 'v) omarsh)" and "calm_arr (errArray es :: ('t, 'v) amarsh)"
  by (induction key e and es rule: encodeError_errArray.induct) (auto simp: recovered_def split: option.split)

lemma calm_encodeStringer: "calm_obj (encodeStringer key st)"
  by (simp add: encodeStringer_def recovered_def split: stringer.split)

lemma field_typed_AddTo: "field_typed f \<Longrightarrow> calm_obj (Field_AddTo local f)"
  by (cases "FType f"; cases "Interface f")
    (auto simp: field_typed_def Field_AddTo_def add_prim_def calm_obind calm_encodeError calm_encodeStringer)

lemma addFields_calm: "list_all field_typed fs \<Longrightarrow> calm_obj (addFields local fs)"
  by (induction fs) (auto intro: calm_obind field_typed_AddTo)

text \<open>A value whose marshalers, if it has any, do not panic; a \<^verbatim>\<open>String\<close> or \<^verbatim>\<open>Error\<close> method may.\<close>

fun calm_value :: "('l, 'v) goval \<Rightarrow> bool" where
  "calm_value (GObjectMarshaler m) = calm_obj m"
| "calm_value (GArrayMarshaler m) = calm_arr m"
| "calm_value (GFields fs) = list_all field_typed fs"
| "calm_value _ = True"

lemma calm_append_each: "(\<And>x. calm_val (map_val id id calm_obj calm_arr (f x))) \<Longrightarrow> calm_arr (append_each f xs)"
  by (induction xs) auto

lemma calm_errArray: "calm_arr (zap_errArray local es)"
  by (induction local es rule: zap_errArray.induct)
    (auto simp: errArrayElem_def Error_field_def NamedError_field_def field_typed_def field_def
      intro!: calm_obind field_typed_AddTo split: option.split)

lemma Any_field_typed: "calm_value v \<Longrightarrow> field_typed (Any_field local key v)"
  by (cases v)
    (auto simp: Any_field_def any_shape_def field_typed_def field_ctor_defs array_type_defs calm_append_each calm_errArray
      addFields_calm dictField_def dictObject_def NamedError_field_def Errors_field_def
      case_prod_unfold split: shape.split option.split)

text \<open>The JSON encoder panics only if the marshaler does.\<close>

lemma json_calm_val:
  assumes "calm_val (map_val id id calm_obj calm_arr v)"
    and "\<And>ob enc. ob \<in> set3_val v \<Longrightarrow> calm_obj ob \<Longrightarrow> \<exists>r. json_obj G ob enc = Some r"
    and "\<And>a enc. a \<in> set4_val v \<Longrightarrow> calm_arr a \<Longrightarrow> \<exists>r. json_arr G a enc = Some r"
  shows "\<exists>r. json_append G (map_val id id (json_obj G) (json_arr G) v) enc = Some r"
    and "\<exists>r. json_add G key (map_val id id (json_obj G) (json_arr G) v) enc = Some r"
  using assms
  by (cases v; fastforce simp: json_append_def json_add_def json_AppendArray_def json_AppendObject_def
      json_AppendReflected_def json_AddReflected_def Let_def split: option.split sum.split)+


lemma json_calm:
  shows json_obj_calm: "calm_obj m \<Longrightarrow> \<exists>r. json_obj G m enc = Some r"
    and json_arr_calm: "calm_arr a \<Longrightarrow> \<exists>r. json_arr G a enc = Some r"
proof (induction m and a arbitrary: enc and enc)
  case (OAdd key v k)
  have "\<exists>r. json_add G key (map_val id id (json_obj G) (json_arr G) v) enc = Some r"
    using OAdd json_calm_val(2) [of v G key enc] by simp
  then show ?case
    using OAdd by fastforce
next
  case (AAppend v k)
  have "\<exists>r. json_append G (map_val id id (json_obj G) (json_arr G) v) enc = Some r"
    using AAppend json_calm_val(1) [of v G enc] by simp
  then show ?case
    using AAppend by fastforce
qed auto

text \<open>C34. Fields made from values are well typed and adding them never panics: if the marshalers among the
  values do not panic, every field that \<^verbatim>\<open>Any\<close> makes has in its interface slot what \<^verbatim>\<open>AddTo\<close> asserts, and
  the JSON encoder takes the fields without a panic, whatever the errors on the way; panics of \<^verbatim>\<open>String\<close>
  and \<^verbatim>\<open>Error\<close> methods are recovered.\<close>

theorem any_fields_well_typed:
  assumes "list_all (\<lambda>(key, v). calm_value v) kvs" and "fs = map (\<lambda>(key, v). Any_field local key v) kvs"
  shows "list_all field_typed fs \<and> (\<exists>err enc'. json_obj G (addFields local fs) enc = Some (err, enc'))"
proof -
  have "list_all field_typed fs"
    using assms by (auto simp: list_all_iff Any_field_typed)
  then show ?thesis
    using json_obj_calm [OF addFields_calm, of fs G local enc] by auto
qed

theorem any_fields_well_typed_witness:
  "\<exists>err enc'. json_obj plain_std (addFields ()
      [Any_field () ''a'' (GStringer (SPanic False ''boom'')), Any_field () ''b'' (GInt8 (Slice [1, - 1])),
       Any_field () ''c'' (GError (GoError (SOk ''e'') (EGroup [None])))]) production_encoder = Some (err, enc')"
  using any_fields_well_typed [of "[(''a'', GStringer (SPanic False ''boom'')), (''b'', GInt8 (Slice [1, - 1])),
      (''c'', GError (GoError (SOk ''e'') (EGroup [None])))]" _ "()" plain_std production_encoder]
  by simp

end
