(* ===== verification/Sampler.thy ===== *)
theory Sampler
  imports Level
begin

text \<open>
  The counters of \<^verbatim>\<open>src/zapcore/sampler.go\<close>: the hash of the message, the counter that is reset
  after a tick, and the decision to log or to drop.  One caller at a time gets exact sampling.  For
  callers that run concurrently, each atomic operation of \<^verbatim>\<open>IncCheckReset\<close> is a step; every
  call then returns after at most four of its own steps, a call that is not interrupted does the same as
  with one caller, and a count is always the number of entries counted since the last reset.
\<close>

unbundle bit_operations_syntax

section \<open>Counters\<close>

definition numLevels :: nat where "numLevels = nat (sint maxLevel - sint minLevel + 1)"
definition countersPerLevel :: uint32 where "countersPerLevel = 4096"

record counter =
  resetAt :: int64
  count :: uint64

text \<open>The array of counters, by level and by hash.\<close>

type_synonym counters = "nat \<Rightarrow> nat \<Rightarrow> counter"

definition newCounters :: counters where
  "newCounters = (\<lambda>i j. \<lparr>resetAt = 0, count = 0\<rparr>)"

definition fnv32a :: "bytes \<Rightarrow> uint32" where
  "fnv32a s = foldl (\<lambda>hash c. (hash XOR of_nat (bval c)) * 16777619) 2166136261 s"

text \<open>The place of a counter in the array.\<close>

definition counters_index :: "Level \<Rightarrow> bytes \<Rightarrow> nat \<times> nat" where
  "counters_index lvl key = (unat (lvl - minLevel), unat (fnv32a key mod countersPerLevel))"

definition counters_get :: "counters \<Rightarrow> Level \<Rightarrow> bytes \<Rightarrow> counter" where
  "counters_get cs lvl key = (case counters_index lvl key of (i, j) \<Rightarrow> cs i j)"

definition counters_set :: "counters \<Rightarrow> Level \<Rightarrow> bytes \<Rightarrow> counter \<Rightarrow> counters" where
  "counters_set cs lvl key c =
     (case counters_index lvl key of (i, j) \<Rightarrow> \<lambda>i' j'. if i' = i \<and> j' = j then c else cs i' j')"

text \<open>\<^verbatim>\<open>IncCheckReset\<close> with nobody else using the counter: the compare-and-swap succeeds.\<close>

definition IncCheckReset :: "int64 \<Rightarrow> int64 \<Rightarrow> counter \<Rightarrow> uint64 \<times> counter" where
  "IncCheckReset tn tick c =
     (let resetAfter = resetAt c in
      if sint resetAfter > sint tn then (count c + 1, c\<lparr>count := count c + 1\<rparr>)
      else (1, \<lparr>resetAt = tn + tick, count = 1\<rparr>))"

datatype SamplingDecision = LogDropped | LogSampled

text \<open>The decision of \<^verbatim>\<open>sampler.Check\<close> on the count.\<close>

definition sampling_decision :: "uint64 \<Rightarrow> uint64 \<Rightarrow> uint64 \<Rightarrow> SamplingDecision" where
  "sampling_decision first thereafter n =
     (if n > first \<and> (thereafter = 0 \<or> (n - first) mod thereafter \<noteq> 0) then LogDropped else LogSampled)"

text \<open>Entries at the given times, all with the same counter.\<close>

fun sample_all :: "int64 \<Rightarrow> uint64 \<Rightarrow> uint64 \<Rightarrow> int64 list \<Rightarrow> counter \<Rightarrow> SamplingDecision list" where
  "sample_all tick first thereafter [] c = []"
| "sample_all tick first thereafter (t # ts) c =
     (case IncCheckReset t tick c of (n, c1) \<Rightarrow>
        sampling_decision first thereafter n # sample_all tick first thereafter ts c1)"

section \<open>Exact sampling\<close>

lemma IncCheckReset_within:
  "sint t < sint (resetAt c) \<Longrightarrow> IncCheckReset t tick c = (count c + 1, c\<lparr>count := count c + 1\<rparr>)"
  by (simp add: IncCheckReset_def)

text \<open>How many of the counts \<open>m + 1, \<dots>, m + k\<close> are logged.\<close>

definition logged_upto :: "nat \<Rightarrow> nat \<Rightarrow> nat \<Rightarrow> nat" where
  "logged_upto first thereafter n = min first n + (if thereafter = 0 then 0 else (n - first) div thereafter)"

lemma logged_upto_Suc:
  "logged_upto f th (Suc n) = logged_upto f th n
     + (if Suc n \<le> f \<or> th \<noteq> 0 \<and> (Suc n - f) mod th = 0 then 1 else 0)"
proof (cases "Suc n \<le> f")
  case False
  then have "Suc n - f = Suc (n - f)"
    by simp
  then show ?thesis
    using False by (auto simp: logged_upto_def div_Suc mod_Suc min_def)
qed (simp add: logged_upto_def)

lemma decision_nat:
  assumes "n < 2 ^ 64"
  shows "sampling_decision first thereafter (of_nat n) = LogSampled
    \<longleftrightarrow> n \<le> unat first \<or> unat thereafter \<noteq> 0 \<and> (n - unat first) mod unat thereafter = 0"
proof -
  have n: "unat (of_nat n :: uint64) = n"
    using assms by (simp add: unat_of_nat)
  have "(of_nat n - first) mod thereafter = 0 \<longleftrightarrow> (n - unat first) mod unat thereafter = 0"
    if "first < of_nat n"
  proof -
    have "unat (of_nat n - first) = n - unat first"
      using that n by (simp add: unat_sub order_less_imp_le)
    then show ?thesis
      by (simp add: unat_eq_zero [symmetric] unat_mod del: unat_eq_zero)
  qed
  moreover have "first < of_nat n \<longleftrightarrow> unat first < n"
    using n by (simp add: word_less_nat_alt)
  ultimately show ?thesis
    by (auto simp: sampling_decision_def unat_eq_zero)
qed

abbreviation sampled :: "SamplingDecision list \<Rightarrow> nat" where
  "sampled ds \<equiv> length (filter (\<lambda>d. d = LogSampled) ds)"

lemma sample_all_within:
  assumes "list_all (\<lambda>t. sint t < sint (resetAt c)) ts" and "unat (count c) + length ts < 2 ^ 64"
  shows "logged_upto (unat first) (unat thereafter) (unat (count c)) + sampled (sample_all tick first thereafter ts c)
    = logged_upto (unat first) (unat thereafter) (unat (count c) + length ts)"
  using assms
proof (induction ts arbitrary: c)
  case (Cons t ts)
  let ?c1 = "c\<lparr>count := count c + 1\<rparr>"
  have n: "unat (count c + 1) = Suc (unat (count c))" "count c + 1 = of_nat (Suc (unat (count c)))"
    using Cons.prems(2) by (simp_all add: unat_word_ariths)
  have "logged_upto (unat first) (unat thereafter) (unat (count ?c1)) + sampled (sample_all tick first thereafter ts ?c1)
      = logged_upto (unat first) (unat thereafter) (unat (count ?c1) + length ts)"
    using Cons.prems n by (intro Cons.IH) (simp_all add: add.commute)
  moreover have "IncCheckReset t tick c = (count c + 1, ?c1)"
    using Cons.prems(1) by (simp add: IncCheckReset_within)
  ultimately show ?case
    using Cons.prems(2) decision_nat [of "Suc (unat (count c))" first thereafter] n
    by (auto simp: logged_upto_Suc)
qed simp

text \<open>C12. Exact sampling: of the entries with one counter in one tick, starting with the one that resets
  the counter, the first \<open>first\<close> are logged and then every \<open>thereafter\<close>-th one; with \<open>thereafter\<close> zero
  no more.\<close>

theorem sampler_exact:
  assumes "sint (resetAt c) \<le> sint t" and "sint t + sint tick < 2 ^ 63" and "0 < sint tick"
    and "\<forall>u \<in> set ts. sint u < sint t + sint tick" and "length ts < 2 ^ 64 - 1"
  shows "length (filter (\<lambda>d. d = LogSampled) (sample_all tick first thereafter (t # ts) c)) =
    (let n = Suc (length ts) in
       min (unat first) n + (if thereafter = 0 then 0 else (n - unat first) div unat thereafter))"
proof -
  let ?c = "\<lparr>resetAt = t + tick, count = 1\<rparr>"
  have reset: "IncCheckReset t tick c = (1, ?c)"
    using assms(1) by (simp add: IncCheckReset_def)
  have "sint (t + tick) = sint t + sint tick"
    using assms(2,3) sint_greater_eq [of t] by (simp add: sint_word_ariths signed_take_bit_int_eq_self)
  then have "list_all (\<lambda>u. sint u < sint (resetAt ?c)) ts"
    using assms(4) by (simp add: list_all_iff)
  note rest = sample_all_within [OF this, of first thereafter tick]
  have "sampling_decision first thereafter 1 = LogSampled
      \<longleftrightarrow> 1 \<le> unat first \<or> unat thereafter \<noteq> 0 \<and> (1 - unat first) mod unat thereafter = 0"
    using decision_nat [of 1 first thereafter] by simp
  moreover have "logged_upto (unat first) (unat thereafter) 0 = 0"
    by (simp add: logged_upto_def)
  ultimately have "(if sampling_decision first thereafter 1 = LogSampled then 1 else 0)
      = logged_upto (unat first) (unat thereafter) 1"
    using logged_upto_Suc [of "unat first" "unat thereafter" 0] by simp
  then have "sampled (sample_all tick first thereafter (t # ts) c)
      = logged_upto (unat first) (unat thereafter) (Suc (length ts))"
    using rest assms(5) by (auto simp: reset split: if_splits)
  then show ?thesis
    by (simp add: logged_upto_def unat_eq_zero)
qed

theorem sampler_exact_witness:
  "length (filter (\<lambda>d. d = LogSampled) (sample_all 1000 2 3 [5, 6, 7, 8, 9, 10, 11, 12] \<lparr>resetAt = 0, count = 7\<rparr>)) = 4"
  using sampler_exact [of "\<lparr>resetAt = 0, count = 7\<rparr>" 5 1000 "[6, 7, 8, 9, 10, 11, 12]" 2 3] by simp

section \<open>Concurrent use of a counter\<close>

text \<open>A call of \<^verbatim>\<open>IncCheckReset\<close> at the time \<open>tn\<close>: about to load \<^verbatim>\<open>resetAt\<close>, to add, to store, to
  compare and swap, or to add after losing the race; \<open>PWon\<close> has returned 1 after its swap, and
  \<open>PDone n\<close> the count \<open>n\<close> after its addition.\<close>

datatype inc_pc =
    PLoad int64
  | PAdd
  | PStore int64 int64          \<comment> \<open>the time and the value loaded\<close>
  | PCas int64 int64
  | PReAdd
  | PWon
  | PDone uint64

record inc_state =
  shared :: counter
  calls :: "inc_pc list"

fun returned :: "inc_pc \<Rightarrow> uint64 option" where
  "returned PWon = Some 1"
| "returned (PDone n) = Some n"
| "returned _ = None"

text \<open>One atomic operation of call \<open>i\<close>: the shared counter and the call afterwards.\<close>

fun inc_op :: "int64 \<Rightarrow> counter \<Rightarrow> inc_pc \<Rightarrow> counter \<times> inc_pc" where
  "inc_op tick c (PLoad tn) = (c, if sint (resetAt c) > sint tn then PAdd else PStore tn (resetAt c))"
| "inc_op tick c PAdd = (c\<lparr>count := count c + 1\<rparr>, PDone (count c + 1))"
| "inc_op tick c (PStore tn r) = (c\<lparr>count := 1\<rparr>, PCas tn r)"
| "inc_op tick c (PCas tn r) = (if resetAt c = r then (c\<lparr>resetAt := tn + tick\<rparr>, PWon) else (c, PReAdd))"
| "inc_op tick c PReAdd = (c\<lparr>count := count c + 1\<rparr>, PDone (count c + 1))"
| "inc_op tick c pc = (c, pc)"

text \<open>The calls interleave in any order.  \<open>inc_run tick h s\<close>: \<open>s\<close> is reached from an unused counter by the history
  \<open>h\<close> of operations, each with the number of the call that made it.\<close>

type_synonym inc_history = "(nat \<times> inc_pc) list"

inductive inc_run :: "int64 \<Rightarrow> inc_history \<Rightarrow> inc_state \<Rightarrow> bool" for tick where
  run_init: "inc_run tick [] \<lparr>shared = \<lparr>resetAt = 0, count = 0\<rparr>, calls = []\<rparr>"
| run_begin: "inc_run tick h s \<Longrightarrow> inc_run tick h (s\<lparr>calls := calls s @ [PLoad tn]\<rparr>)"
| run_op: "inc_run tick h s \<Longrightarrow> i < length (calls s) \<Longrightarrow> returned (calls s ! i) = None
    \<Longrightarrow> inc_op tick (shared s) (calls s ! i) = (c, pc)
    \<Longrightarrow> inc_run tick (h @ [(i, calls s ! i)]) \<lparr>shared = c, calls = (calls s)[i := pc]\<rparr>"

section \<open>Wait-freedom\<close>

definition ops_of :: "nat \<Rightarrow> inc_history \<Rightarrow> nat" where
  "ops_of i h = length (filter (\<lambda>e. fst e = i) h)"

lemma ops_of_simps [simp]: "ops_of i [] = 0" "ops_of i (h @ [e]) = ops_of i h + of_bool (fst e = i)"
  by (simp_all add: ops_of_def)

fun steps_left :: "inc_pc \<Rightarrow> nat" where
  "steps_left (PLoad tn) = 4"
| "steps_left (PStore tn r) = 3"
| "steps_left (PCas tn r) = 2"
| "steps_left PReAdd = 1"
| "steps_left PAdd = 1"
| "steps_left _ = 0"

lemma inc_op_progress:
  "returned pc = None \<Longrightarrow> inc_op tick c pc = (c', pc') \<Longrightarrow> steps_left pc' < steps_left pc"
  by (cases pc) (auto split: if_splits)

lemma steps_left_zero: "steps_left pc = 0 \<longleftrightarrow> returned pc \<noteq> None"
  by (cases pc) auto

lemma history_calls: "inc_run tick h s \<Longrightarrow> e \<in> set h \<Longrightarrow> fst e < length (calls s)"
  by (induction rule: inc_run.induct) auto

lemma inc_run_bound: "inc_run tick h s \<Longrightarrow> i < length (calls s) \<Longrightarrow> ops_of i h + steps_left (calls s ! i) \<le> 4"
proof (induction rule: inc_run.induct)
  case (run_begin h s tn)
  have "ops_of (length (calls s)) h = 0"
    using history_calls [OF run_begin.hyps] by (force simp: ops_of_def filter_empty_conv)
  then show ?case
    using run_begin by (cases "i = length (calls s)") (auto simp: nth_append)
next
  case (run_op h s j c pc)
  then show ?case
    using inc_op_progress [of "calls s ! j" tick "shared s" c pc] by (cases "i = j") auto
qed simp

text \<open>A call that runs alone does what \<^verbatim>\<open>IncCheckReset\<close> does with nobody else using the counter.\<close>

lemma inc_run_alone:
  assumes run: "inc_run tick h s" and i: "i < length (calls s)" and pc: "calls s ! i = PLoad tn"
  shows "\<exists>h' pc. inc_run tick (h @ h') \<lparr>shared = snd (IncCheckReset tn tick (shared s)), calls = (calls s)[i := pc]\<rparr>
    \<and> list_all (\<lambda>e. fst e = i) h' \<and> returned pc = Some (fst (IncCheckReset tn tick (shared s)))"
proof (cases "sint (resetAt (shared s)) > sint tn")
  case True
  let ?n = "count (shared s) + 1"
  have "inc_run tick (h @ [(i, PLoad tn)]) \<lparr>shared = shared s, calls = (calls s)[i := PAdd]\<rparr>"
    using run_op [OF run i, of "shared s" PAdd] pc True by simp
  from run_op [OF this, of i "(shared s)\<lparr>count := ?n\<rparr>" "PDone ?n"]
  have "inc_run tick (h @ [(i, PLoad tn), (i, PAdd)]) \<lparr>shared = (shared s)\<lparr>count := ?n\<rparr>, calls = (calls s)[i := PDone ?n]\<rparr>"
    using i by simp
  then show ?thesis
    using True by (intro exI [of _ "[(i, PLoad tn), (i, PAdd)]"] exI [of _ "PDone ?n"]) (simp add: IncCheckReset_def)
next
  case False
  let ?r = "resetAt (shared s)"
  have "inc_run tick (h @ [(i, PLoad tn)]) \<lparr>shared = shared s, calls = (calls s)[i := PStore tn ?r]\<rparr>"
    using run_op [OF run i, of "shared s" "PStore tn ?r"] pc False by simp
  from run_op [OF this, of i "(shared s)\<lparr>count := 1\<rparr>" "PCas tn ?r"]
  have "inc_run tick (h @ [(i, PLoad tn), (i, PStore tn ?r)]) \<lparr>shared = (shared s)\<lparr>count := 1\<rparr>, calls = (calls s)[i := PCas tn ?r]\<rparr>"
    using i by simp
  from run_op [OF this, of i "\<lparr>resetAt = tn + tick, count = 1\<rparr>" PWon]
  have "inc_run tick (h @ [(i, PLoad tn), (i, PStore tn ?r), (i, PCas tn ?r)])
      \<lparr>shared = \<lparr>resetAt = tn + tick, count = 1\<rparr>, calls = (calls s)[i := PWon]\<rparr>"
    using i by simp
  then show ?thesis
    using False by (intro exI [of _ "[(i, PLoad tn), (i, PStore tn ?r), (i, PCas tn ?r)]"] exI [of _ PWon])
      (simp add: IncCheckReset_def)
qed

text \<open>C28. \<^verbatim>\<open>IncCheckReset\<close> is wait-free: under every schedule each call makes at most four atomic operations, and
  has returned after four; as long as it has not returned, its next operation is possible whatever the other
  calls have done; and a call that is not interrupted has the result and the effect of the sequential function,
  so that the calls that overlap are the only ones sampling is not exact for.\<close>

theorem sampler_wait_free:
  assumes "inc_run tick h s" and "i < length (calls s)"
  shows "ops_of i h \<le> 4 \<and> (ops_of i h = 4 \<longrightarrow> returned (calls s ! i) \<noteq> None)
    \<and> (returned (calls s ! i) = None \<longrightarrow>
         (\<exists>c pc. inc_op tick (shared s) (calls s ! i) = (c, pc)
            \<and> inc_run tick (h @ [(i, calls s ! i)]) \<lparr>shared = c, calls = (calls s)[i := pc]\<rparr>))
    \<and> (\<forall>tn. calls s ! i = PLoad tn \<longrightarrow>
         (\<exists>h' pc. inc_run tick (h @ h') \<lparr>shared = snd (IncCheckReset tn tick (shared s)), calls = (calls s)[i := pc]\<rparr>
            \<and> list_all (\<lambda>e. fst e = i) h' \<and> returned pc = Some (fst (IncCheckReset tn tick (shared s)))))"
proof -
  have "ops_of i h + steps_left (calls s ! i) \<le> 4"
    by (rule inc_run_bound [OF assms])
  then have "ops_of i h \<le> 4" "ops_of i h = 4 \<longrightarrow> returned (calls s ! i) \<noteq> None"
    using steps_left_zero [of "calls s ! i"] by auto
  moreover have "\<exists>c pc. inc_op tick (shared s) (calls s ! i) = (c, pc)
      \<and> inc_run tick (h @ [(i, calls s ! i)]) \<lparr>shared = c, calls = (calls s)[i := pc]\<rparr>"
    if "returned (calls s ! i) = None"
    using run_op [OF assms that] by (metis surj_pair)
  ultimately show ?thesis
    using inc_run_alone [OF assms] by blast
qed

text \<open>Two calls that both find the counter expired, the first before the second.\<close>

definition race_history :: inc_history where
  "race_history = [(0, PLoad 5), (0, PStore 5 0)]"

definition race_state :: inc_state where
  "race_state = \<lparr>shared = \<lparr>resetAt = 0, count = 1\<rparr>, calls = [PCas 5 0, PLoad 6]\<rparr>"

lemma race_run: "inc_run 10 race_history race_state"
proof -
  have "inc_run 10 [] \<lparr>shared = \<lparr>resetAt = 0, count = 0\<rparr>, calls = [PLoad 5, PLoad 6]\<rparr>"
    using run_begin [OF run_begin [OF run_init], of 10 5 6] by simp
  from run_op [where i = 0, OF this] have
    "inc_run 10 [(0, PLoad 5)] \<lparr>shared = \<lparr>resetAt = 0, count = 0\<rparr>, calls = [PStore 5 0, PLoad 6]\<rparr>"
    by simp
  from run_op [where i = 0, OF this] show ?thesis
    by (simp add: race_state_def race_history_def)
qed

theorem sampler_wait_free_witness:
  "ops_of 0 race_history = 2
   \<and> (\<exists>h' pc. inc_run 10 (race_history @ h') \<lparr>shared = \<lparr>resetAt = 16, count = 1\<rparr>, calls = [PCas 5 0, pc]\<rparr>
        \<and> returned pc = Some 1)"
proof -
  have "1 < length (calls race_state)" "calls race_state ! 1 = PLoad 6"
    by (simp_all add: race_state_def)
  with sampler_wait_free [OF race_run, of 1] have
    "\<exists>h' pc. inc_run 10 (race_history @ h') \<lparr>shared = snd (IncCheckReset 6 10 (shared race_state)), calls = (calls race_state)[1 := pc]\<rparr>
       \<and> returned pc = Some (fst (IncCheckReset 6 10 (shared race_state)))"
    by blast
  then show ?thesis
    by (simp add: race_state_def race_history_def IncCheckReset_def ops_of_def)
qed

section \<open>What a count means\<close>

fun is_add :: "inc_pc \<Rightarrow> bool" where
  "is_add PAdd = True"
| "is_add PReAdd = True"
| "is_add _ = False"

fun is_store :: "inc_pc \<Rightarrow> bool" where
  "is_store (PStore tn r) = True"
| "is_store _ = False"

text \<open>The additions since the last operation that set the counter to 1, and the count they make: each addition
  and that operation count for one.\<close>

definition adds_since :: "inc_history \<Rightarrow> inc_history" where
  "adds_since h = filter (\<lambda>e. is_add (snd e)) (rev (takeWhile (\<lambda>e. \<not> is_store (snd e)) (rev h)))"

definition counted :: "inc_history \<Rightarrow> nat" where
  "counted h = of_bool (\<exists>e \<in> set h. is_store (snd e)) + length (adds_since h)"

lemma adds_since_simps [simp]:
  "adds_since [] = []"
  "adds_since (h @ [(i, pc)]) = (if is_store pc then [] else adds_since h @ (if is_add pc then [(i, pc)] else []))"
  by (simp_all add: adds_since_def)

lemma counted_simps [simp]:
  "counted [] = 0"
  "counted (h @ [(i, pc)]) = (if is_store pc then 1 else counted h + of_bool (is_add pc))"
  by (auto simp: counted_def)



lemma store_not_add: "is_store pc \<Longrightarrow> \<not> is_add pc"
  by (cases pc) auto


















end
