(* ===== verification/Core.thy ===== *)
theory Core
  imports Encoder_Config Write_Syncer Sampler
begin

text \<open>
  The cores of \<^verbatim>\<open>src/zapcore\<close> (\<^verbatim>\<open>core.go\<close>, \<^verbatim>\<open>tee.go\<close>, \<^verbatim>\<open>hook.go\<close>,
  \<^verbatim>\<open>increase_level.go\<close>, \<^verbatim>\<open>lazy_with.go\<close>, \<^verbatim>\<open>sampler.go\<close>), the observer of
  \<^verbatim>\<open>src/zaptest/observer\<close> and \<^verbatim>\<open>CheckedEntry\<close> of \<^verbatim>\<open>src/zapcore/entry.go\<close>.

  A core is a tree of the package's core types.  What is outside of the program (sinks, user hooks)
  is a state \<open>'s\<close>; the counters of samplers and the logs of observers, which cores share through
  pointers, are kept in the world under numbers.  The encoder of a core is a value of a type \<open>'n\<close>
  with its methods given by a record.  The values that fields refer to do not change in this model, so a lazy core
  is not changed by the first use of its fields: evaluating them again gives the same core.  Theory \<^verbatim>\<open>Lazy_With\<close>
  has lazy cores with the \<^verbatim>\<open>sync.Once\<close> and fields whose values change, and theory \<^verbatim>\<open>Entry_Pool\<close> has the pool of
  checked entries.
\<close>

section \<open>Outcomes\<close>

text \<open>How a call ends: it returns, a marshaler panics, there is a panic with a message, the goroutine or
  the process ends, or it does not end.\<close>

datatype 'a outcome = Ret 'a | MarshalerPanics | Panics bytes | Goexits | Exits nat | Diverges

fun then_do :: "'a outcome \<times> 'w \<Rightarrow> ('a \<Rightarrow> 'w \<Rightarrow> 'b outcome \<times> 'w) \<Rightarrow> 'b outcome \<times> 'w" where
  "then_do (Ret x, w) k = k x w"
| "then_do (MarshalerPanics, w) k = (MarshalerPanics, w)"
| "then_do (Panics m, w) k = (Panics m, w)"
| "then_do (Goexits, w) k = (Goexits, w)"
| "then_do (Exits n, w) k = (Exits n, w)"
| "then_do (Diverges, w) k = (Diverges, w)"

lemma then_do_cong [fundef_cong]:
  "r = r' \<Longrightarrow> (\<And>x w. r' = (Ret x, w) \<Longrightarrow> k x w = k' x w) \<Longrightarrow> then_do r k = then_do r' k'"
  by (cases "(r', k)" rule: then_do.cases) auto

lemma then_do_assoc: "then_do (then_do r f) g = then_do r (\<lambda>x w. then_do (f x w) g)"
  by (cases "(r, f)" rule: then_do.cases) auto

lemma then_do_Ret: "then_do r k = (Ret y, w') \<longleftrightarrow> (\<exists>x w. r = (Ret x, w) \<and> k x w = (Ret y, w'))"
  by (cases "(r, k)" rule: then_do.cases) auto

section \<open>Interfaces\<close>

text \<open>A \<^verbatim>\<open>LevelEnabler\<close> may change with the state; its level is \<open>Some\<close> if it has the method
  \<^verbatim>\<open>Level\<close>.\<close>

record 's LevelEnabler =
  en_Enabled :: "Level \<Rightarrow> 's \<Rightarrow> bool"
  en_Level :: "'s \<Rightarrow> Level option"

definition level_enabler :: "Level \<Rightarrow> 's LevelEnabler" where
  "level_enabler l = \<lparr>en_Enabled = (\<lambda>lvl s. Level_Enabled l lvl), en_Level = (\<lambda>s. Some l)\<rparr>"

definition enabler_LevelOf :: "'s LevelEnabler \<Rightarrow> 's \<Rightarrow> Level" where
  "enabler_LevelOf en s = LevelOf (en_Level en s) (\<lambda>l. en_Enabled en l s)"

text \<open>An \<^verbatim>\<open>Encoder\<close>: \<^verbatim>\<open>Clone\<close>, adding fields to it as an \<^verbatim>\<open>ObjectEncoder\<close>, and \<^verbatim>\<open>EncodeEntry\<close>,
  which returns an error or the bytes of a buffer that the caller frees.  \<open>None\<close> is the panic of a marshaler.\<close>

record ('n, 'l, 'v) Encoder =
  enc_Clone :: "'n \<Rightarrow> 'n"
  enc_addFields :: "('l, 'v) Field list \<Rightarrow> 'n \<Rightarrow> 'n option"
  enc_EncodeEntry :: "'l Entry \<Rightarrow> ('l, 'v) Field list \<Rightarrow> 'n \<Rightarrow> (bytes + bytes) option"

section \<open>Cores\<close>

datatype ('n, 'l, 'v, 's) core =
    nopCore
  | ioCore "'s LevelEnabler" 'n "('s, bytes) WriteSyncer"
  | multiCore "('n, 'l, 'v, 's) core list"
  | hooked "('n, 'l, 'v, 's) core" "('l Entry \<Rightarrow> 's \<Rightarrow> bytes option \<times> 's) list"
  | levelFilterCore "('n, 'l, 'v, 's) core" "'s LevelEnabler"
  | lazyWithCore "('n, 'l, 'v, 's) core" "('l, 'v) Field list"
  | sampler "('n, 'l, 'v, 's) core" nat int64 uint64 uint64 "'l Entry \<Rightarrow> SamplingDecision \<Rightarrow> 's \<Rightarrow> 's"
  | contextObserver "'s LevelEnabler" nat "('l, 'v) Field list"

record ('l, 'v) LoggedEntry =
  le_Entry :: "'l Entry"
  le_Context :: "('l, 'v) Field list"

record ('l, 'v, 's) world =
  outside :: 's
  counts :: "nat \<Rightarrow> counters"
  observed :: "nat \<Rightarrow> ('l, 'v) LoggedEntry list"

definition NewNopCore :: "('n, 'l, 'v, 's) core" where
  "NewNopCore = nopCore"

definition NewCore :: "'n \<Rightarrow> ('s, bytes) WriteSyncer \<Rightarrow> 's LevelEnabler \<Rightarrow> ('n, 'l, 'v, 's) core" where
  "NewCore enc ws enab = ioCore enab enc ws"

definition NewTee :: "('n, 'l, 'v, 's) core list \<Rightarrow> ('n, 'l, 'v, 's) core" where
  "NewTee cs = (case cs of [] \<Rightarrow> NewNopCore | [c] \<Rightarrow> c | _ \<Rightarrow> multiCore cs)"

definition RegisterHooks where
  "RegisterHooks c hooks = hooked c hooks"

definition NewLazyWith where
  "NewLazyWith c fs = lazyWithCore c fs"

text \<open>\<^verbatim>\<open>NewSamplerWithOptions\<close> allocates new counters; \<open>cid\<close> is their number.\<close>

definition NewSamplerWithOptions ::
    "nat \<Rightarrow> ('n, 'l, 'v, 's) core \<Rightarrow> int64 \<Rightarrow> int64 \<Rightarrow> int64 \<Rightarrow> ('l Entry \<Rightarrow> SamplingDecision \<Rightarrow> 's \<Rightarrow> 's) option
      \<Rightarrow> ('l, 'v, 's) world \<Rightarrow> ('n, 'l, 'v, 's) core \<times> ('l, 'v, 's) world" where
  "NewSamplerWithOptions cid c tick first thereafter hook w =
     (sampler c cid tick first thereafter (case hook of None \<Rightarrow> \<lambda>ent d s. s | Some h \<Rightarrow> h),
      w\<lparr>counts := (counts w)(cid := newCounters)\<rparr>)"

definition observer_New :: "nat \<Rightarrow> 's LevelEnabler \<Rightarrow> ('n, 'l, 'v, 's) core" where
  "observer_New logs enab = contextObserver enab logs []"

subsection \<open>Levels\<close>

fun Core_Enabled :: "('n, 'l, 'v, 's) core \<Rightarrow> Level \<Rightarrow> 's \<Rightarrow> bool" where
  "Core_Enabled nopCore lvl s = False"
| "Core_Enabled (ioCore en enc out) lvl s = en_Enabled en lvl s"
| "Core_Enabled (multiCore cs) lvl s = list_ex (\<lambda>c. Core_Enabled c lvl s) cs"
| "Core_Enabled (hooked c fns) lvl s = Core_Enabled c lvl s"
| "Core_Enabled (levelFilterCore c en) lvl s = en_Enabled en lvl s"
| "Core_Enabled (lazyWithCore c fs) lvl s = Core_Enabled c lvl s"
| "Core_Enabled (sampler c cid tick first th hook) lvl s = Core_Enabled c lvl s"
| "Core_Enabled (contextObserver en logs ctx) lvl s = en_Enabled en lvl s"

text \<open>\<^verbatim>\<open>LevelOf\<close> of a core: \<^verbatim>\<open>nopCore\<close> and \<^verbatim>\<open>lazyWithCore\<close> have no method \<^verbatim>\<open>Level\<close>, so their
  levels are tried.\<close>

fun Core_LevelOf :: "('n, 'l, 'v, 's) core \<Rightarrow> 's \<Rightarrow> Level" where
  "Core_LevelOf nopCore s = LevelOf None (\<lambda>l. False)"
| "Core_LevelOf (ioCore en enc out) s = enabler_LevelOf en s"
| "Core_LevelOf (multiCore cs) s =
     foldl (\<lambda>minLvl lvl. if sint lvl < sint minLvl then lvl else minLvl) maxLevel
       (map (\<lambda>c. Core_LevelOf c s) cs)"
| "Core_LevelOf (hooked c fns) s = Core_LevelOf c s"
| "Core_LevelOf (levelFilterCore c en) s = enabler_LevelOf en s"
| "Core_LevelOf (lazyWithCore c fs) s = LevelOf None (\<lambda>l. Core_Enabled c l s)"
| "Core_LevelOf (sampler c cid tick first th hook) s = Core_LevelOf c s"
| "Core_LevelOf (contextObserver en logs ctx) s = enabler_LevelOf en s"

text \<open>\<^verbatim>\<open>NewIncreaseLevelCore\<close>: the loop from the highest level down; the error names the level.\<close>

definition increase_levels :: "Level list" where
  "increase_levels = [FatalLevel, PanicLevel, DPanicLevel, ErrorLevel, WarnLevel, InfoLevel, DebugLevel]"

definition NewIncreaseLevelCore ::
    "('n, 'l, 'v, 's) core \<Rightarrow> 's LevelEnabler \<Rightarrow> 's \<Rightarrow> bytes + ('n, 'l, 'v, 's) core" where
  "NewIncreaseLevelCore c en s =
     (case find (\<lambda>l. \<not> Core_Enabled c l s \<and> en_Enabled en l s) increase_levels of
        Some l \<Rightarrow> Inl (''invalid increase level, as level '' @ CHR 0x22 # Level_String l @ CHR 0x22
                        # '' is allowed by increased level, but not by existing core'')
      | None \<Rightarrow> Inr (levelFilterCore c en))"

subsection \<open>With\<close>

text \<open>Adding fields to an encoder, on a clone of it, any number of times.\<close>

fun enc_Withs :: "('n, 'l, 'v) Encoder \<Rightarrow> ('l, 'v) Field list list \<Rightarrow> 'n \<Rightarrow> 'n option" where
  "enc_Withs E [] enc = Some enc"
| "enc_Withs E (fs # fss) enc =
     (case enc_addFields E fs (enc_Clone E enc) of None \<Rightarrow> None | Some enc1 \<Rightarrow> enc_Withs E fss enc1)"

text \<open>\<^verbatim>\<open>With\<close> of each core, applied any number of times: the core of a lazy core is what \<^verbatim>\<open>With\<close> with
  the delayed fields gives.\<close>

fun Core_Withs :: "('n, 'l, 'v) Encoder \<Rightarrow> ('l, 'v) Field list list \<Rightarrow> ('n, 'l, 'v, 's) core
      \<Rightarrow> ('n, 'l, 'v, 's) core option"
  and multi_Withs :: "('n, 'l, 'v) Encoder \<Rightarrow> ('l, 'v) Field list list \<Rightarrow> ('n, 'l, 'v, 's) core list
      \<Rightarrow> ('n, 'l, 'v, 's) core list option" where
  "Core_Withs E fss nopCore = Some nopCore"
| "Core_Withs E fss (ioCore en enc out) = map_option (\<lambda>enc. ioCore en enc out) (enc_Withs E fss enc)"
| "Core_Withs E fss (multiCore cs) = map_option multiCore (multi_Withs E fss cs)"
| "Core_Withs E fss (hooked c fns) = map_option (\<lambda>c. hooked c fns) (Core_Withs E fss c)"
| "Core_Withs E fss (levelFilterCore c en) = map_option (\<lambda>c. levelFilterCore c en) (Core_Withs E fss c)"
| "Core_Withs E fss (lazyWithCore c fs) = Core_Withs E (fs # fss) c"
| "Core_Withs E fss (sampler c cid tick first th hook) =
     map_option (\<lambda>c. sampler c cid tick first th hook) (Core_Withs E fss c)"
| "Core_Withs E fss (contextObserver en logs ctx) = Some (contextObserver en logs (ctx @ concat fss))"
| "multi_Withs E fss [] = Some []"
| "multi_Withs E fss (c # cs) =
     (case Core_Withs E fss c of
        None \<Rightarrow> None
      | Some c1 \<Rightarrow> map_option ((#) c1) (multi_Withs E fss cs))"

definition Core_With :: "('n, 'l, 'v) Encoder \<Rightarrow> ('l, 'v) Field list \<Rightarrow> ('n, 'l, 'v, 's) core
      \<Rightarrow> ('n, 'l, 'v, 's) core option" where
  "Core_With E fs c = Core_Withs E [fs] c"

text \<open>The number of lazy cores; \<^verbatim>\<open>With\<close> leaves none.\<close>

fun lazies :: "('n, 'l, 'v, 's) core \<Rightarrow> nat" where
  "lazies nopCore = 0"
| "lazies (ioCore en enc out) = 0"
| "lazies (multiCore cs) = sum_list (map lazies cs)"
| "lazies (hooked c fns) = lazies c"
| "lazies (levelFilterCore c en) = lazies c"
| "lazies (lazyWithCore c fs) = Suc (lazies c)"
| "lazies (sampler c cid tick first th hook) = lazies c"
| "lazies (contextObserver en logs ctx) = 0"

lemma Core_Withs_lazies:
  fixes c :: "('n, 'l, 'v, 's) core" and cs :: "('n, 'l, 'v, 's) core list"
  shows "Core_Withs E fss c = Some c' \<Longrightarrow> lazies c' = 0"
    and "multi_Withs E fss cs = Some cs' \<Longrightarrow> sum_list (map lazies cs') = 0"
  by (induction E fss c and E fss cs arbitrary: c' and cs' rule: Core_Withs_multi_Withs.induct)
    (auto split: option.splits)

lemma Core_With_lazies: "Core_With E fs c = Some c' \<Longrightarrow> lazies c' = 0"
  by (simp add: Core_With_def Core_Withs_lazies)

section \<open>Checked entries\<close>

datatype CheckWriteAction = WriteThenNoop | WriteThenGoexit | WriteThenPanic | WriteThenFatal

text \<open>A \<^verbatim>\<open>CheckWriteHook\<close> is an action or a user's hook, which sees the entry and the fields.\<close>

datatype ('l, 'v, 's) CheckWriteHook =
    Action CheckWriteAction
  | UserHook "'l Entry \<Rightarrow> ('l, 'v) Field list \<Rightarrow> 's \<Rightarrow> unit outcome \<times> 's"

type_synonym ('l, 'v) CheckPreWriteHook =
  "'l Entry \<Rightarrow> ('l, 'v) Field list \<Rightarrow> 'l Entry \<times> ('l, 'v) Field list"

record ('n, 'l, 'v, 's) CheckedEntry =
  ce_Entry :: "'l Entry"
  ErrorOutput :: "('s, bytes) WriteSyncer option"
  dirty :: bool
  after :: "('l, 'v, 's) CheckWriteHook option"
  cores :: "('n, 'l, 'v, 's) core list"
  before :: "('l, 'v) CheckPreWriteHook list"

text \<open>\<^verbatim>\<open>getCheckedEntry\<close> followed by the assignment of the entry: a pooled entry is reset before its
  use, so nothing of its former use is left.\<close>

definition getCheckedEntry :: "'l Entry \<Rightarrow> ('n, 'l, 'v, 's) CheckedEntry" where
  "getCheckedEntry ent =
     \<lparr>ce_Entry = ent, ErrorOutput = None, dirty = False, after = None, cores = [], before = []\<rparr>"

definition ce_or_new :: "'l Entry \<Rightarrow> ('n, 'l, 'v, 's) CheckedEntry option \<Rightarrow> ('n, 'l, 'v, 's) CheckedEntry" where
  "ce_or_new ent ce = (case ce of None \<Rightarrow> getCheckedEntry ent | Some c \<Rightarrow> c)"

definition AddCore where
  "AddCore ent core ce = (let ce = ce_or_new ent ce in ce\<lparr>cores := cores ce @ [core]\<rparr>)"

definition Before where
  "Before ent hook ce = (let ce = ce_or_new ent ce in ce\<lparr>before := before ce @ [hook]\<rparr>)"

definition After where
  "After ent hook ce = (let ce = ce_or_new ent ce in ce\<lparr>after := Some hook\<rparr>)"

definition Should where
  "Should ent action ce = After ent (Action action) ce"

section \<open>Check\<close>

text \<open>What \<^verbatim>\<open>sampler.Check\<close> does before it asks the wrapped core: the world with the counter and the
  hook run, and whether the entry goes on.\<close>

definition sampler_step ::
    "nat \<Rightarrow> int64 \<Rightarrow> uint64 \<Rightarrow> uint64 \<Rightarrow> ('l Entry \<Rightarrow> SamplingDecision \<Rightarrow> 's \<Rightarrow> 's) \<Rightarrow> 'l Entry
      \<Rightarrow> ('l, 'v, 's) world \<Rightarrow> bool \<times> ('l, 'v, 's) world" where
  "sampler_step cid tick first th hook ent w =
     (if sint minLevel \<le> sint (ent_Level ent) \<and> sint (ent_Level ent) \<le> sint maxLevel then
        let cs = counts w cid;
            (n, c) = IncCheckReset (time_UnixNano (ent_Time ent)) tick (counters_get cs (ent_Level ent) (Message ent));
            d = sampling_decision first th n
        in (d = LogSampled,
            w\<lparr>counts := (counts w)(cid := counters_set cs (ent_Level ent) (Message ent) c),
              outside := hook ent d (outside w)\<rparr>)
      else (True, w))"

text \<open>Termination: a lazy core goes on with a core without lazy cores, all others with their parts.\<close>

function (sequential) Core_Check :: "('n, 'l, 'v) Encoder \<Rightarrow> ('n, 'l, 'v, 's) core \<Rightarrow> 'l Entry
      \<Rightarrow> ('n, 'l, 'v, 's) CheckedEntry option \<Rightarrow> ('l, 'v, 's) world
      \<Rightarrow> ('n, 'l, 'v, 's) CheckedEntry option outcome \<times> ('l, 'v, 's) world"
  and multi_Check :: "('n, 'l, 'v) Encoder \<Rightarrow> ('n, 'l, 'v, 's) core list \<Rightarrow> 'l Entry
      \<Rightarrow> ('n, 'l, 'v, 's) CheckedEntry option \<Rightarrow> ('l, 'v, 's) world
      \<Rightarrow> ('n, 'l, 'v, 's) CheckedEntry option outcome \<times> ('l, 'v, 's) world" where
  "Core_Check E nopCore ent ce w = (Ret ce, w)"
| "Core_Check E (ioCore en enc out) ent ce w =
     (if en_Enabled en (ent_Level ent) (outside w)
      then (Ret (Some (AddCore ent (ioCore en enc out) ce)), w) else (Ret ce, w))"
| "Core_Check E (multiCore cs) ent ce w = multi_Check E cs ent ce w"
| "Core_Check E (hooked c fns) ent ce w =
     then_do (Core_Check E c ent ce w)
       (\<lambda>downstream w1. case downstream of
          Some d \<Rightarrow> (Ret (Some (AddCore ent (hooked c fns) (Some d))), w1)
        | None \<Rightarrow> (Ret ce, w1))"
| "Core_Check E (levelFilterCore c en) ent ce w =
     (if \<not> en_Enabled en (ent_Level ent) (outside w) then (Ret ce, w) else Core_Check E c ent ce w)"
| "Core_Check E (lazyWithCore c fs) ent ce w =
     (if \<not> Core_Enabled c (ent_Level ent) (outside w) then (Ret ce, w)
      else case Core_With E fs c of
             None \<Rightarrow> (MarshalerPanics, w)
           | Some d \<Rightarrow> Core_Check E d ent ce w)"
| "Core_Check E (sampler c cid tick first th hook) ent ce w =
     (if \<not> Core_Enabled c (ent_Level ent) (outside w) then (Ret ce, w)
      else case sampler_step cid tick first th hook ent w of (goes_on, w1) \<Rightarrow>
             if goes_on then Core_Check E c ent ce w1 else (Ret ce, w1))"
| "Core_Check E (contextObserver en logs ctx) ent ce w =
     (if en_Enabled en (ent_Level ent) (outside w)
      then (Ret (Some (AddCore ent (contextObserver en logs ctx) ce)), w) else (Ret ce, w))"
| "multi_Check E [] ent ce w = (Ret ce, w)"
| "multi_Check E (c # cs) ent ce w =
     then_do (Core_Check E c ent ce w) (\<lambda>ce1 w1. multi_Check E cs ent ce1 w1)"
  by pat_completeness auto

termination
  by (relation "inv_image (less_than <*lex*> less_than)
        (case_sum (\<lambda>(E, c, ent, ce, w). (lazies c, size c))
                  (\<lambda>(E, cs, ent, ce, w). (sum_list (map lazies cs), size_list size cs)))")
    (auto simp: Core_With_lazies)

section \<open>Write and Sync\<close>

fun run_hooks :: "(bytes option \<Rightarrow> bytes option \<Rightarrow> bytes option) \<Rightarrow> ('l Entry \<Rightarrow> 's \<Rightarrow> bytes option \<times> 's) list
      \<Rightarrow> 'l Entry \<Rightarrow> bytes option \<Rightarrow> 's \<Rightarrow> bytes option \<times> 's" where
  "run_hooks app [] ent err s = (err, s)"
| "run_hooks app (f # fns) ent err s =
     (case f ent s of (e, s1) \<Rightarrow> run_hooks app fns ent (app err e) s1)"

definition ioCore_Write :: "(bytes option \<Rightarrow> bytes option \<Rightarrow> bytes option) \<Rightarrow> ('n, 'l, 'v) Encoder
      \<Rightarrow> 'n \<Rightarrow> ('s, bytes) WriteSyncer \<Rightarrow> 'l Entry \<Rightarrow> ('l, 'v) Field list \<Rightarrow> ('l, 'v, 's) world
      \<Rightarrow> bytes option outcome \<times> ('l, 'v, 's) world" where
  "ioCore_Write app E enc out ent fs w =
     (case enc_EncodeEntry E ent fs enc of
        None \<Rightarrow> (MarshalerPanics, w)
      | Some (Inl err) \<Rightarrow> (Ret (Some err), w)
      | Some (Inr buf) \<Rightarrow>
          (case WS_Write app out buf (outside w) of ((_, err), s1) \<Rightarrow>
             (case err of
                Some e \<Rightarrow> (Ret (Some e), w\<lparr>outside := s1\<rparr>)
              | None \<Rightarrow>
                  if sint (ent_Level ent) > sint ErrorLevel
                  then (Ret None, w\<lparr>outside := snd (WS_Sync app out s1)\<rparr>)
                  else (Ret None, w\<lparr>outside := s1\<rparr>))))"

definition observer_add :: "nat \<Rightarrow> ('l, 'v) LoggedEntry \<Rightarrow> ('l, 'v, 's) world \<Rightarrow> ('l, 'v, 's) world" where
  "observer_add logs le w = w\<lparr>observed := (observed w)(logs := observed w logs @ [le])\<rparr>"

function (sequential) Core_Write :: "(bytes option \<Rightarrow> bytes option \<Rightarrow> bytes option) \<Rightarrow> ('n, 'l, 'v) Encoder
      \<Rightarrow> ('n, 'l, 'v, 's) core \<Rightarrow> 'l Entry \<Rightarrow> ('l, 'v) Field list \<Rightarrow> ('l, 'v, 's) world
      \<Rightarrow> bytes option outcome \<times> ('l, 'v, 's) world"
  and multiCore_Write :: "(bytes option \<Rightarrow> bytes option \<Rightarrow> bytes option) \<Rightarrow> ('n, 'l, 'v) Encoder
      \<Rightarrow> ('n, 'l, 'v, 's) core list \<Rightarrow> 'l Entry \<Rightarrow> ('l, 'v) Field list \<Rightarrow> bytes option \<Rightarrow> ('l, 'v, 's) world
      \<Rightarrow> bytes option outcome \<times> ('l, 'v, 's) world" where
  "Core_Write app E nopCore ent fs w = (Ret None, w)"
| "Core_Write app E (ioCore en enc out) ent fs w = ioCore_Write app E enc out ent fs w"
| "Core_Write app E (multiCore cs) ent fs w = multiCore_Write app E cs ent fs None w"
| "Core_Write app E (hooked c fns) ent fs w =
     (case run_hooks app fns ent None (outside w) of (err, s1) \<Rightarrow> (Ret err, w\<lparr>outside := s1\<rparr>))"
| "Core_Write app E (levelFilterCore c en) ent fs w = Core_Write app E c ent fs w"
| "Core_Write app E (lazyWithCore c fs0) ent fs w =
     (case Core_With E fs0 c of
        None \<Rightarrow> (MarshalerPanics, w)
      | Some d \<Rightarrow> Core_Write app E d ent fs w)"
| "Core_Write app E (sampler c cid tick first th hook) ent fs w = Core_Write app E c ent fs w"
| "Core_Write app E (contextObserver en logs ctx) ent fs w =
     (Ret None, observer_add logs \<lparr>le_Entry = ent, le_Context = ctx @ fs\<rparr> w)"
| "multiCore_Write app E [] ent fs err w = (Ret err, w)"
| "multiCore_Write app E (c # cs) ent fs err w =
     then_do (Core_Write app E c ent fs w) (\<lambda>e w1. multiCore_Write app E cs ent fs (app err e) w1)"
  by pat_completeness auto
termination
  by (relation "inv_image (less_than <*lex*> less_than)
        (case_sum (\<lambda>(app, E, c, ent, fs, w). (lazies c, size c))
                  (\<lambda>(app, E, cs, ent, fs, err, w). (sum_list (map lazies cs), size_list size cs)))")
    (auto simp: Core_With_lazies)

function (sequential) Core_Sync :: "(bytes option \<Rightarrow> bytes option \<Rightarrow> bytes option) \<Rightarrow> ('n, 'l, 'v) Encoder
      \<Rightarrow> ('n, 'l, 'v, 's) core \<Rightarrow> ('l, 'v, 's) world \<Rightarrow> bytes option outcome \<times> ('l, 'v, 's) world"
  and multiCore_Sync :: "(bytes option \<Rightarrow> bytes option \<Rightarrow> bytes option) \<Rightarrow> ('n, 'l, 'v) Encoder
      \<Rightarrow> ('n, 'l, 'v, 's) core list \<Rightarrow> bytes option \<Rightarrow> ('l, 'v, 's) world
      \<Rightarrow> bytes option outcome \<times> ('l, 'v, 's) world" where
  "Core_Sync app E nopCore w = (Ret None, w)"
| "Core_Sync app E (ioCore en enc out) w =
     (case WS_Sync app out (outside w) of (err, s1) \<Rightarrow> (Ret err, w\<lparr>outside := s1\<rparr>))"
| "Core_Sync app E (multiCore cs) w = multiCore_Sync app E cs None w"
| "Core_Sync app E (hooked c fns) w = Core_Sync app E c w"
| "Core_Sync app E (levelFilterCore c en) w = Core_Sync app E c w"
| "Core_Sync app E (lazyWithCore c fs) w =
     (case Core_With E fs c of None \<Rightarrow> (MarshalerPanics, w) | Some d \<Rightarrow> Core_Sync app E d w)"
| "Core_Sync app E (sampler c cid tick first th hook) w = Core_Sync app E c w"
| "Core_Sync app E (contextObserver en logs ctx) w = (Ret None, w)"
| "multiCore_Sync app E [] err w = (Ret err, w)"
| "multiCore_Sync app E (c # cs) err w =
     then_do (Core_Sync app E c w) (\<lambda>e w1. multiCore_Sync app E cs (app err e) w1)"
  by pat_completeness auto
termination
  by (relation "inv_image (less_than <*lex*> less_than)
        (case_sum (\<lambda>(app, E, c, w). (lazies c, size c))
                  (\<lambda>(app, E, cs, err, w). (sum_list (map lazies cs), size_list size cs)))")
    (auto simp: Core_With_lazies)

section \<open>Writing a checked entry\<close>

definition OnWrite :: "('l, 'v, 's) CheckWriteHook \<Rightarrow> 'l Entry \<Rightarrow> ('l, 'v) Field list \<Rightarrow> ('l, 'v, 's) world
      \<Rightarrow> unit outcome \<times> ('l, 'v, 's) world" where
  "OnWrite hook ent fs w =
     (case hook of
        Action WriteThenNoop \<Rightarrow> (Ret (), w)
      | Action WriteThenGoexit \<Rightarrow> (Goexits, w)
      | Action WriteThenPanic \<Rightarrow> (Panics (Message ent), w)
      | Action WriteThenFatal \<Rightarrow> (Exits 1, w)
      | UserHook h \<Rightarrow> (case h ent fs (outside w) of (r, s1) \<Rightarrow> (r, w\<lparr>outside := s1\<rparr>)))"

text \<open>\<^verbatim>\<open>fmt.Fprintf\<close> to a syncer followed by \<^verbatim>\<open>Sync\<close>; both results are dropped.\<close>

definition report :: "(bytes option \<Rightarrow> bytes option \<Rightarrow> bytes option) \<Rightarrow> ('s, bytes) WriteSyncer \<Rightarrow> bytes \<Rightarrow> 's \<Rightarrow> 's" where
  "report app out msg s = snd (WS_Sync app out (snd (WS_Write app out msg s)))"

text \<open>How package fmt prints a time, a time in UTC and an entry.\<close>

record 'l gofmt =
  fmt_time :: "'l time \<Rightarrow> bytes"
  fmt_utc :: "'l time \<Rightarrow> bytes"
  fmt_entry :: "'l Entry \<Rightarrow> bytes"

definition run_before :: "('l, 'v) CheckPreWriteHook list \<Rightarrow> 'l Entry \<Rightarrow> ('l, 'v) Field list
      \<Rightarrow> 'l Entry \<times> ('l, 'v) Field list" where
  "run_before hooks ent fs = foldl (\<lambda>(ent, fs) hook. hook ent fs) (ent, fs) hooks"

text \<open>\<^verbatim>\<open>CheckedEntry.Write\<close>; the second result is the checked entry afterwards, which stays marked as
  used until the pool hands it out again.  The entry as an object that goes back to the pool at the end
  (\<^verbatim>\<open>putCheckedEntry\<close>) is in theory \<^verbatim>\<open>Entry_Pool\<close>.\<close>

definition CheckedEntry_Write :: "(bytes option \<Rightarrow> bytes option \<Rightarrow> bytes option) \<Rightarrow> 'l gofmt
      \<Rightarrow> ('n, 'l, 'v) Encoder \<Rightarrow> ('n, 'l, 'v, 's) CheckedEntry \<Rightarrow> ('l, 'v) Field list \<Rightarrow> ('l, 'v, 's) world
      \<Rightarrow> (unit outcome \<times> ('n, 'l, 'v, 's) CheckedEntry) \<times> ('l, 'v, 's) world" where
  "CheckedEntry_Write app F E ce fs w =
     (if dirty ce then
        ((Ret (), ce),
         case ErrorOutput ce of
           None \<Rightarrow> w
         | Some out \<Rightarrow> w\<lparr>outside := report app out
             (fmt_time F (ent_Time (ce_Entry ce)) @ '' Unsafe CheckedEntry re-use near Entry ''
              @ fmt_entry F (ce_Entry ce) @ [CHR ''.'', newline]) (outside w)\<rparr>)
      else
        let ce1 = ce\<lparr>dirty := True\<rparr>;
            (ent, fs1) = run_before (before ce) (ce_Entry ce) fs;
            r = then_do (multiCore_Write app E (cores ce) ent fs1 None w)
              (\<lambda>err w1.
                let w2 = (case (err, ErrorOutput ce) of
                            (Some e, Some out) \<Rightarrow> w1\<lparr>outside := report app out
                               (fmt_time F (ent_Time (ce_Entry ce)) @ '' write error: '' @ e @ [newline]) (outside w1)\<rparr>
                          | _ \<Rightarrow> w1)
                in case after ce of
                     None \<Rightarrow> (Ret (), w2)
                   | Some hook \<Rightarrow> OnWrite hook (ce_Entry ce) fs1 w2)
        in ((fst r, ce1), snd r))"

end
