(* ===== verification/Core_Laws.thy ===== *)
theory Core_Laws
  imports Core Json_Line
begin

text \<open>
  What the cores guarantee: a disabled core does nothing, \<^verbatim>\<open>With\<close> and fields at the call are
  interchangeable for every tree of cores, an increased level only restricts, and what the two
  known irregularities of tees are.
\<close>

section \<open>The JSON encoder as an encoder of cores\<close>

definition json_ops :: "('l, 'v) gostd \<Rightarrow> 'l \<Rightarrow> (('l, 'v) jsonEncoder, 'l, 'v) Encoder" where
  "json_ops G local =
     \<lparr>enc_Clone = json_Clone,
      enc_addFields = (\<lambda>fs enc. map_option snd (json_obj G (addFields local fs) enc)),
      enc_EncodeEntry = (\<lambda>ent fs enc. map_option (\<lambda>b. Inr (Buffer_Bytes b)) (json_EncodeEntry G local ent fs enc))\<rparr>"

section \<open>Disabled cores\<close>

lemma disabled_check:
  fixes c :: "('n, 'l, 'v, 's) core" and cs :: "('n, 'l, 'v, 's) core list"
  shows "\<not> Core_Enabled c (ent_Level ent) (outside w) \<Longrightarrow> ce = None \<Longrightarrow> Core_Check E c ent ce w = (Ret None, w)"
    and "list_all (\<lambda>c. \<not> Core_Enabled c (ent_Level ent) (outside w)) cs \<Longrightarrow> ce = None
      \<Longrightarrow> multi_Check E cs ent ce w = (Ret None, w)"
  by (induction E c ent ce w and E cs ent ce w rule: Core_Check_multi_Check.induct)
    (auto simp: list_ex_iff list_all_iff)

text \<open>A core that is not enabled for the level of an entry does not take part in logging it: its
  \<^verbatim>\<open>Check\<close> returns nil and changes nothing, neither a counter of a sampler nor anything outside,
  and evaluates no field of a lazy core.  This holds for every tree of cores.\<close>

theorem disabled_core_is_silent:
  assumes "\<not> Core_Enabled c (ent_Level ent) (outside w)"
  shows "Core_Check E c ent None w = (Ret None, w)"
  using assms by (simp add: disabled_check)

text \<open>A world with a recording sink, for applying the theorems.\<close>

definition demo_world :: "(unit, bytes, bytes TestBuffer) world" where
  "demo_world = \<lparr>outside = new_TestBuffer, counts = (\<lambda>_. newCounters), observed = (\<lambda>_. [])\<rparr>"

definition demo_fmt :: "unit gofmt" where
  "demo_fmt = \<lparr>fmt_time = (\<lambda>t. itoa (t_nanos t)), fmt_utc = (\<lambda>t. itoa (t_nanos t)), fmt_entry = Message\<rparr>"

definition demo_entry :: "Level \<Rightarrow> unit Entry" where
  "demo_entry lvl = \<lparr>ent_Level = lvl, ent_Time = \<lparr>t_nanos = 5, t_loc = ()\<rparr>, LoggerName = [], Message = ''hi'',
     ent_Caller = NewEntryCaller 0 [] 0 False, Stack = []\<rparr>"

definition demo_core :: "((unit, bytes) jsonEncoder, unit, bytes, bytes TestBuffer) core" where
  "demo_core = NewCore production_encoder test_syncer (level_enabler InfoLevel)"

theorem disabled_core_is_silent_witness:
  "Core_Check (json_ops plain_std ())
     (lazyWithCore (sampler (NewTee [demo_core, nopCore]) 0 1 1 1 (\<lambda>_ _ s. s)) [nilField ''a'']) (demo_entry DebugLevel) None demo_world
   = (Ret None, demo_world)"
  by (rule disabled_core_is_silent)
    (simp add: demo_core_def NewTee_def NewCore_def level_enabler_def demo_entry_def Level_Enabled_def level_simps)

section \<open>Adding context\<close>

lemma enc_Withs_append:
  "enc_Withs E (fss @ gss) enc = Option.bind (enc_Withs E fss enc) (enc_Withs E gss)"
  by (induction fss arbitrary: enc) (auto split: option.split)

lemma Core_Withs_append:
  fixes c :: "('n, 'l, 'v, 's) core" and cs :: "('n, 'l, 'v, 's) core list"
  shows "fss \<noteq> [] \<Longrightarrow> gss \<noteq> [] \<Longrightarrow> Core_Withs E (fss @ gss) c = Option.bind (Core_Withs E fss c) (Core_Withs E gss)"
    and "fss \<noteq> [] \<Longrightarrow> gss \<noteq> [] \<Longrightarrow> multi_Withs E (fss @ gss) cs = Option.bind (multi_Withs E fss cs) (multi_Withs E gss)"
proof (induction E fss c and E fss cs rule: Core_Withs_multi_Withs.induct)
  case (10 E fss c cs)
  then show ?case
    by (cases "Core_Withs E fss c"; cases "multi_Withs E fss cs") (auto split: option.splits bind_splits)
qed (auto simp: enc_Withs_append map_option_case Option.bind_def split: option.splits)

text \<open>A lazy core is the core that its fields give: once it is used they are added, in order, before
  those of later calls.\<close>

lemma Core_With_lazy: "Core_With E fs (lazyWithCore c fs0) = Option.bind (Core_With E fs0 c) (Core_With E fs)"
  using Core_Withs_append(1) [of "[fs0]" "[fs]" E c] by (simp add: Core_With_def [abs_def])

lemma lazy_Withs:
  assumes "Core_Withs E (fs0 # fss) c = Some c'"
  obtains d where "Core_With E fs0 c = Some d" and "fss \<noteq> [] \<Longrightarrow> Core_Withs E fss d = Some c'" and "fss = [] \<Longrightarrow> d = c'"
  using assms Core_Withs_append(1) [of "[fs0]" fss E c] that
  by (cases "fss = []"; cases "Core_Withs E [fs0] c") (auto simp: Core_With_def)

lemma Core_Withs_Enabled:
  fixes c :: "('n, 'l, 'v, 's) core" and cs :: "('n, 'l, 'v, 's) core list"
  shows "Core_Withs E fss c = Some c' \<Longrightarrow> Core_Enabled c' lvl s = Core_Enabled c lvl s"
    and "multi_Withs E fss cs = Some cs' \<Longrightarrow> list_ex (\<lambda>c. Core_Enabled c lvl s) cs' = list_ex (\<lambda>c. Core_Enabled c lvl s) cs"
  by (induction E fss c and E fss cs arbitrary: c' and cs' rule: Core_Withs_multi_Withs.induct)
    (auto split: option.splits)

lemma multi_Withs_list: "multi_Withs E fss cs = Some cs' \<longleftrightarrow> list_all2 (\<lambda>c c'. Core_Withs E fss c = Some c') cs cs'"
proof (induction cs arbitrary: cs')
  case (Cons c cs)
  then show ?case
    by (cases cs') (auto split: option.splits)
qed (auto split: option.splits)

text \<open>Checked entries whose cores differ by \<^verbatim>\<open>With\<close>.\<close>

definition ce_rel :: "('n, 'l, 'v) Encoder \<Rightarrow> ('l, 'v) Field list \<Rightarrow> ('n, 'l, 'v, 's) CheckedEntry option
      \<Rightarrow> ('n, 'l, 'v, 's) CheckedEntry option \<Rightarrow> bool" where
  "ce_rel E fs = rel_option (\<lambda>a b. list_all2 (\<lambda>c c'. Core_With E fs c = Some c') (cores a) (cores b)
     \<and> b = a\<lparr>cores := cores b\<rparr>)"

lemma ce_rel_None [simp]: "ce_rel E fs None ce' \<longleftrightarrow> ce' = None" "ce_rel E fs ce None \<longleftrightarrow> ce = None"
  by (cases ce'; simp add: ce_rel_def) (cases ce; simp add: ce_rel_def)

lemma ce_rel_AddCore:
  assumes "ce_rel E fs ce ce'" and "Core_With E fs c = Some c'"
  shows "ce_rel E fs (Some (AddCore ent c ce)) (Some (AddCore ent c' ce'))"
proof (cases ce)
  case None
  then show ?thesis
    using assms by (simp add: ce_rel_def AddCore_def ce_or_new_def getCheckedEntry_def)
next
  case (Some a)
  then obtain b where "ce' = Some b" "list_all2 (\<lambda>c c'. Core_With E fs c = Some c') (cores a) (cores b)"
      "b = a\<lparr>cores := cores b\<rparr>"
    using assms(1) by (auto simp: ce_rel_def option_rel_Some1)
  then show ?thesis
    using Some assms(2) by (simp add: ce_rel_def AddCore_def ce_or_new_def list_all2_appendI)
      (metis CheckedEntry.surjective CheckedEntry.update_convs(5))
qed

text \<open>A hook joins whenever there is a checked entry already, which in a tee may come from another core.
  A lazy core in a tee must not wrap hooks for it to be the same as the evaluated one.\<close>

fun hookless :: "('n, 'l, 'v, 's) core \<Rightarrow> bool" where
  "hookless (multiCore cs) = list_all hookless cs"
| "hookless (hooked c fns) = False"
| "hookless (levelFilterCore c en) = hookless c"
| "hookless (lazyWithCore c fs) = hookless c"
| "hookless (sampler c cid tick first th hook) = hookless c"
| "hookless _ = True"

fun lazy_ok :: "bool \<Rightarrow> ('n, 'l, 'v, 's) core \<Rightarrow> bool" where
  "lazy_ok tee (multiCore cs) = list_all (lazy_ok True) cs"
| "lazy_ok tee (hooked c fns) = lazy_ok tee c"
| "lazy_ok tee (levelFilterCore c en) = lazy_ok tee c"
| "lazy_ok tee (lazyWithCore c fs) = (lazy_ok tee c \<and> (tee \<longrightarrow> hookless c))"
| "lazy_ok tee (sampler c cid tick first th hook) = lazy_ok tee c"
| "lazy_ok tee _ = True"

lemma lazies_lazy_ok: "lazies c = 0 \<Longrightarrow> lazy_ok tee c"
  by (induction tee c rule: lazy_ok.induct) (auto simp: list_all_iff)

lemma Core_Withs_hookless:
  fixes c :: "('n, 'l, 'v, 's) core" and cs :: "('n, 'l, 'v, 's) core list"
  shows "Core_Withs E fss c = Some c' \<Longrightarrow> hookless c' = hookless c"
    and "multi_Withs E fss cs = Some cs' \<Longrightarrow> list_all hookless cs' = list_all hookless cs"
  by (induction E fss c and E fss cs arbitrary: c' and cs' rule: Core_Withs_multi_Withs.induct)
    (auto split: option.splits)

lemma disabled_hookless:
  fixes c :: "('n, 'l, 'v, 's) core" and cs :: "('n, 'l, 'v, 's) core list"
  shows "\<not> Core_Enabled c (ent_Level ent) (outside w) \<Longrightarrow> hookless c \<Longrightarrow> Core_Check E c ent ce w = (Ret ce, w)"
    and "list_all (\<lambda>c. \<not> Core_Enabled c (ent_Level ent) (outside w)) cs \<Longrightarrow> list_all hookless cs
      \<Longrightarrow> multi_Check E cs ent ce w = (Ret ce, w)"
  by (induction E c ent ce w and E cs ent ce w rule: Core_Check_multi_Check.induct)
    (auto simp: list_ex_iff list_all_iff)

text \<open>Checking a core and the core with added fields go the same way.\<close>

lemma check_lazy_disabled:
  assumes "Core_Withs E fss c = Some c'" and "\<not> Core_Enabled c (ent_Level ent) (outside w)"
    and "tee \<longrightarrow> hookless c" and "\<not> tee \<longrightarrow> ce = None"
  shows "Core_Check E c' ent ce w = (Ret ce, w)"
  using assms Core_Withs_Enabled(1) [OF assms(1)] Core_Withs_hookless(1) [OF assms(1)]
  by (cases tee) (simp_all add: disabled_hookless disabled_check)

lemma check_with:
  fixes c :: "('n, 'l, 'v, 's) core" and cs :: "('n, 'l, 'v, 's) core list"
  shows "Core_With E fs c = Some c' \<Longrightarrow> ce_rel E fs ce ce' \<Longrightarrow> lazy_ok tee c \<Longrightarrow> \<not> tee \<longrightarrow> ce = None \<Longrightarrow>
      \<exists>d d' w1. Core_Check E c ent ce w = (Ret d, w1) \<and> Core_Check E c' ent ce' w = (Ret d', w1) \<and> ce_rel E fs d d'"
    and "list_all2 (\<lambda>c c'. Core_With E fs c = Some c') cs cs' \<Longrightarrow> ce_rel E fs ce ce' \<Longrightarrow> list_all (lazy_ok True) cs \<Longrightarrow>
      \<exists>d d' w1. multi_Check E cs ent ce w = (Ret d, w1) \<and> multi_Check E cs' ent ce' w = (Ret d', w1) \<and> ce_rel E fs d d'"
proof (induction E c ent ce w and E cs ent ce w arbitrary: tee c' ce' and cs' ce' rule: Core_Check_multi_Check.induct)
  case (2 E en enc out ent ce w)
  then show ?case
    using ce_rel_AddCore [OF 2(2,1)] by (auto simp: Core_With_def split: if_splits)
next
  case (3 E cs ent ce w)
  then show ?case
    by (auto simp: Core_With_def multi_Withs_list)
next
  case (4 E c fns ent ce w)
  then obtain c1 where c1: "c' = hooked c1 fns" "Core_With E fs c = Some c1"
    by (auto simp: Core_With_def)
  from "4.IH" [OF this(2) 4(3), of tee] 4(4,5) obtain d d' w1 where *: "Core_Check E c ent ce w = (Ret d, w1)"
      "Core_Check E c1 ent ce' w = (Ret d', w1)" "ce_rel E fs d d'"
    by fastforce
  then show ?case
    using c1 4(3) ce_rel_AddCore [OF *(3) 4(2)] 
    by (cases d; cases d') auto
next
  case (5 E c en ent ce w)
  then show ?case
    by (auto simp: Core_With_def split: if_splits)
next
  case (6 E c fs0 ent ce w)
  then have all: "Core_Withs E [fs0, fs] c = Some c'"
    by (simp add: Core_With_def)
  then obtain d where d: "Core_With E fs0 c = Some d" "Core_With E fs d = Some c'"
    by (elim lazy_Withs) (auto simp: Core_With_def)
  show ?case
  proof (cases "Core_Enabled c (ent_Level ent) (outside w)")
    case True
    then show ?thesis
      using "6.IH" [OF _ d 6(3) lazies_lazy_ok [OF Core_With_lazies [OF d(1)]] 6(5)] d(1) by simp
  next
    case False
    moreover have "Core_Check E c' ent ce' w = (Ret ce', w)"
      using 6(3,4,5) False by (intro check_lazy_disabled [OF all, where tee = tee]) auto
    ultimately show ?thesis
      using 6(3) by simp
  qed
next
  case (7 E c cid tick first th hook ent ce w)
  then obtain c1 where c1: "c' = sampler c1 cid tick first th hook" "Core_With E fs c = Some c1"
    by (auto simp: Core_With_def)
  have en: "Core_Enabled c1 lvl s = Core_Enabled c lvl s" for lvl s
    using Core_Withs_Enabled(1) c1(2) by (simp add: Core_With_def)
  obtain b w1 where st: "sampler_step cid tick first th hook ent w = (b, w1)"
    by fastforce
  show ?case
    using 7 c1 en st by (cases "Core_Enabled c (ent_Level ent) (outside w)"; cases b) auto
next
  case (8 E en logs ctx ent ce w)
  then show ?case
    using ce_rel_AddCore [OF 8(2,1)] by (auto simp: Core_With_def split: if_splits)
next
  case (10 E c cs ent ce w)
  then obtain c1 cs1 where cs1: "cs' = c1 # cs1" "Core_With E fs c = Some c1"
      "list_all2 (\<lambda>c c'. Core_With E fs c = Some c') cs cs1"
    by (auto simp: list_all2_Cons1)
  from 10(1) [OF cs1(2) 10(4), of True] 10(5) obtain d d' w1 where
    "Core_Check E c ent ce w = (Ret d, w1)" "Core_Check E c1 ent ce' w = (Ret d', w1)" "ce_rel E fs d d'"
    by auto
  then show ?case
    using 10(2) [OF _ cs1(3), of d w1 d'] 10(5) cs1(1) by auto
qed (auto simp: Core_With_def)

text \<open>The encoders of a core.\<close>

fun encs_ok :: "('n \<Rightarrow> bool) \<Rightarrow> ('n, 'l, 'v, 's) core \<Rightarrow> bool" where
  "encs_ok ok nopCore = True"
| "encs_ok ok (ioCore en enc out) = ok enc"
| "encs_ok ok (multiCore cs) = list_all (encs_ok ok) cs"
| "encs_ok ok (hooked c fns) = encs_ok ok c"
| "encs_ok ok (levelFilterCore c en) = encs_ok ok c"
| "encs_ok ok (lazyWithCore c fs) = encs_ok ok c"
| "encs_ok ok (sampler c cid tick first th hook) = encs_ok ok c"
| "encs_ok ok (contextObserver en logs ctx) = True"

text \<open>The contract of an encoder with its users: fields added to a clone beforehand come first in every
  entry, as if they had been given with it.\<close>

locale context_encoder =
  fixes E :: "('n, 'l, 'v) Encoder" and ok :: "'n \<Rightarrow> bool"
  assumes with_ok: "ok enc \<Longrightarrow> enc_addFields E fs (enc_Clone E enc) = Some enc' \<Longrightarrow> ok enc'"
    and encode_with: "ok enc \<Longrightarrow> enc_addFields E fs (enc_Clone E enc) = Some enc'
      \<Longrightarrow> enc_EncodeEntry E ent gs enc' = enc_EncodeEntry E ent (fs @ gs) enc"
begin

lemma encode_withs:
  "ok enc \<Longrightarrow> enc_Withs E fss enc = Some enc'
    \<Longrightarrow> ok enc' \<and> enc_EncodeEntry E ent gs enc' = enc_EncodeEntry E ent (concat fss @ gs) enc"
proof (induction fss arbitrary: enc)
  case (Cons fs fss)
  then obtain enc1 where "enc_addFields E fs (enc_Clone E enc) = Some enc1" "enc_Withs E fss enc1 = Some enc'"
    by (auto split: option.splits)
  then show ?case
    using Cons.IH [of enc1] Cons.prems(1) with_ok [of enc fs enc1] encode_with [of enc fs enc1] by simp
qed simp

lemma multi_write_eq:
  assumes "list_all2 (\<lambda>c c'. \<forall>w. Core_Write app E c' ent gs w = Core_Write app E c ent hs w) cs cs'"
  shows "multiCore_Write app E cs' ent gs err w = multiCore_Write app E cs ent hs err w"
  using assms
proof (induction arbitrary: err w rule: list_all2_induct)
  case (Cons c cs c' cs')
  then show ?case
    by (auto intro: then_do_cong)
qed simp

lemma with_write:
  assumes "Core_Withs E fss c = Some c'" and "encs_ok ok c"
  shows "Core_Write app E c' ent gs w = Core_Write app E c ent (concat fss @ gs) w"
  using assms
proof (induction c arbitrary: fss c' gs w)
  case (ioCore en enc out)
  then show ?case
    using encode_withs [of enc fss] by (auto simp: ioCore_Write_def)
next
  case (multiCore cs)
  then obtain cs' where cs': "c' = multiCore cs'" "list_all2 (\<lambda>c c'. Core_Withs E fss c = Some c') cs cs'"
    by (auto simp: multi_Withs_list)
  have "list_all2 (\<lambda>c c'. \<forall>w. Core_Write app E c' ent gs w = Core_Write app E c ent (concat fss @ gs) w) cs cs'"
    using cs'(2) multiCore.IH multiCore.prems(2) 
    by (auto simp: list_all2_conv_all_nth list_all_length)
  then show ?case
    using multi_write_eq cs'(1) by fastforce
next
  case (lazyWithCore c fs0)
  from lazyWithCore.prems have all: "Core_Withs E (fs0 # fss) c = Some c'" and ok: "encs_ok ok c"
    by simp_all
  then obtain d where d: "Core_With E fs0 c = Some d"
    by (elim lazy_Withs)
  then have "Core_Write app E d ent (concat fss @ gs) w = Core_Write app E c ent (fs0 @ concat fss @ gs) w"
    using lazyWithCore.IH [of "[fs0]" d "concat fss @ gs" w] ok by (simp add: Core_With_def)
  then show ?case
    using d lazyWithCore.IH [OF all ok, of gs w] by simp
qed auto

end

section \<open>The contract of the JSON encoder\<close>

definition json_context :: "('l, 'v) EncoderConfig \<Rightarrow> ('l, 'v) jsonEncoder \<Rightarrow> bool" where
  "json_context c enc \<longleftrightarrow> (\<exists>sp ctx. has_context c sp ctx enc)"

lemma json_context_encoder:
  fixes G :: "('l, 'v) gostd"
  assumes "encoder_contract G c"
  shows "context_encoder (json_ops G local) (json_context c)"
proof
  have format: "json_format G c"
    using assms by unfold_locales
  fix enc enc' :: "('l, 'v) jsonEncoder" and fs gs :: "('l, 'v) Field list" and ent :: "'l Entry"
  assume ok: "json_context c enc" and add: "enc_addFields (json_ops G local) fs (enc_Clone (json_ops G local) enc) = Some enc'"
  obtain sp ctx where ctx: "has_context c sp ctx enc"
    using ok by (auto simp: json_context_def)
  then have with_fs: "json_With G local [fs] enc = Some enc'"
    using add by (auto simp: json_ops_def split: option.splits)
  from json_format.json_With_context [OF format ctx, of local "[fs]"] with_fs
  obtain err hs where hs: "obj_json G c (addFields local fs) = Some (err, hs)" "has_context c sp (fappend ctx hs) enc'"
    by auto
  show "json_context c enc'"
    using hs(2) by (auto simp: json_context_def)
  have "map_option bs (json_EncodeEntry G local ent gs enc') = map_option bs (json_EncodeEntry G local ent (fs @ gs) enc)"
    using hs(1) json_format.encode_entry [OF format hs(2), of local ent gs]
      json_format.encode_entry [OF format ctx, of local ent "fs @ gs"]
    by (simp add: addFields_append obj_json_obind option.map_comp comp_def fappend_assoc)
  then have "map_option (Inr \<circ> bs) (json_EncodeEntry G local ent gs enc')
      = map_option (Inr \<circ> bs) (json_EncodeEntry G local ent (fs @ gs) enc)"
    by (metis option.map_comp)
  then show "enc_EncodeEntry (json_ops G local) ent gs enc' = enc_EncodeEntry (json_ops G local) ent (fs @ gs) enc"
    by (simp add: json_ops_def buffer_simps comp_def)
qed

interpretation production_ops: context_encoder "json_ops plain_std ()" "json_context (cfg production_encoder)"
  by (rule json_context_encoder [OF production.contract])

lemma json_context_production: "json_context (cfg production_encoder) production_encoder"
  using has_context_new [of plain_std "NewProductionEncoderConfig (\<lambda>a b. word_of_int (a div b))" False]
  by (auto simp: json_context_def production_encoder_def NewJSONEncoder_def)

section \<open>Properties\<close>

text \<open>Fields given to \<^verbatim>\<open>With\<close> are written like fields given at the call, before those: for every tree
  of cores with JSON encoders (tees, hooks, filters, samplers, lazy cores), writing the fields
  \<open>gs\<close> through the core with context \<open>fs\<close> has the same result and the same effect as writing
  \<open>fs\<close> and \<open>gs\<close> through the core itself.\<close>

theorem with_is_transparent:
  assumes "encoder_contract G cf" and "encs_ok (json_context cf) c" and "Core_With (json_ops G local) fs c = Some c'"
  shows "Core_Write app (json_ops G local) c' ent gs w = Core_Write app (json_ops G local) c ent (fs @ gs) w"
  using context_encoder.with_write [OF json_context_encoder [OF assms(1)], of local "[fs]" c c' app ent gs w] assms(2,3)
  by (simp add: Core_With_def)

theorem with_is_transparent_witness:
  "\<exists>c'. Core_With (json_ops plain_std ()) [Bool_field ''a'' True] (NewTee [demo_core, nopCore]) = Some c'
    \<and> Core_Write join_errors (json_ops plain_std ()) c' (demo_entry InfoLevel) [] demo_world
      = Core_Write join_errors (json_ops plain_std ()) (NewTee [demo_core, nopCore]) (demo_entry InfoLevel)
          [Bool_field ''a'' True] demo_world"
proof -
  have "cfg (json_Clone production_encoder) = cfg production_encoder"
    by (simp add: clone_emit)
  from production.fields_step [OF this, of "addFields () [Bool_field ''a'' True]"]
  obtain e where e: "enc_addFields (json_ops plain_std ()) [Bool_field ''a'' True]
      (enc_Clone (json_ops plain_std ()) production_encoder) = Some e"
    by (simp add: json_ops_def Field_AddTo_def field_ctor_defs add_prim_def val_json_def)
  then obtain c' where c': "Core_With (json_ops plain_std ()) [Bool_field ''a'' True] (NewTee [demo_core, nopCore]) = Some c'"
    by (simp add: NewTee_def Core_With_def demo_core_def NewCore_def)
  have "encs_ok (json_context (cfg production_encoder)) (NewTee [demo_core, nopCore])"
    by (simp add: NewTee_def demo_core_def NewCore_def json_context_production)
  from with_is_transparent [OF production.contract this c', of join_errors "demo_entry InfoLevel" "[]" demo_world] c'
  show ?thesis by simp
qed

text \<open>\<^verbatim>\<open>NewIncreaseLevelCore\<close> only restricts: either it reports an error, and then there is a level
  that the new enabler would have added, or the new core is enabled for a level of zap only if the
  old one is, and passes on exactly the entries that both enable.\<close>

theorem increase_level_restricts:
  "case NewIncreaseLevelCore c en s of
     Inl e \<Rightarrow> \<exists>l. valid_level l \<and> en_Enabled en l s \<and> \<not> Core_Enabled c l s
   | Inr c' \<Rightarrow> (\<forall>l. valid_level l \<longrightarrow> Core_Enabled c' l s \<longrightarrow> Core_Enabled c l s)
       \<and> (\<forall>ent ce w. outside w = s \<longrightarrow> Core_Check E c' ent ce w =
            (if en_Enabled en (ent_Level ent) s then Core_Check E c ent ce w else (Ret ce, w)))"
proof (cases "NewIncreaseLevelCore c en s")
  case (Inl e)
  then obtain l where "find (\<lambda>l. \<not> Core_Enabled c l s \<and> en_Enabled en l s) increase_levels = Some l"
    by (auto simp: NewIncreaseLevelCore_def split: option.splits)
  then have "l \<in> set increase_levels" "\<not> Core_Enabled c l s" "en_Enabled en l s"
    by (auto simp: find_Some_iff)
  moreover have "valid_level l"
    using \<open>l \<in> set increase_levels\<close> by (auto simp: increase_levels_def valid_level_def level_simps)
  ultimately show ?thesis
    using Inl by auto
next
  case (Inr c')
  then have none: "find (\<lambda>l. \<not> Core_Enabled c l s \<and> en_Enabled en l s) increase_levels = None"
      and c': "c' = levelFilterCore c en"
    by (auto simp: NewIncreaseLevelCore_def split: option.splits)
  have "valid_level l \<Longrightarrow> l \<in> set increase_levels" for l
    by (erule valid_level_cases) (simp_all add: increase_levels_def)
  then show ?thesis
    using none c' Inr by (auto simp: find_None_iff)
qed

theorem increase_level_restricts_witness:
  "\<exists>c'. NewIncreaseLevelCore demo_core (level_enabler WarnLevel) new_TestBuffer = Inr c'
    \<and> Core_Check (json_ops plain_std ()) c' (demo_entry InfoLevel) None demo_world = (Ret None, demo_world)"
proof -
  have c': "NewIncreaseLevelCore demo_core (level_enabler WarnLevel) new_TestBuffer
      = Inr (levelFilterCore demo_core (level_enabler WarnLevel))"
    by (simp add: NewIncreaseLevelCore_def increase_levels_def demo_core_def NewCore_def level_enabler_def
        Level_Enabled_def level_simps)
  have info: "\<not> en_Enabled (level_enabler WarnLevel) (ent_Level (demo_entry InfoLevel)) (outside demo_world)"
    "outside demo_world = new_TestBuffer"
    by (simp_all add: demo_world_def demo_entry_def level_enabler_def Level_Enabled_def level_simps)
  show ?thesis
    using increase_level_restricts [where c = demo_core and en = "level_enabler WarnLevel" and s = new_TestBuffer
        and E = "json_ops plain_std ()"] info
    by (auto simp: c')
qed

text \<open>How a core is used: \<^verbatim>\<open>Check\<close>, and \<^verbatim>\<open>Write\<close> on the checked entry if there is one.\<close>

definition check_and_write :: "(bytes option \<Rightarrow> bytes option \<Rightarrow> bytes option) \<Rightarrow> 'l gofmt \<Rightarrow> ('n, 'l, 'v) Encoder
      \<Rightarrow> ('n, 'l, 'v, 's) core \<Rightarrow> 'l Entry \<Rightarrow> ('l, 'v) Field list \<Rightarrow> ('l, 'v, 's) world \<Rightarrow> unit outcome \<times> ('l, 'v, 's) world" where
  "check_and_write app F E c ent fs w =
     then_do (Core_Check E c ent None w)
       (\<lambda>ce w1. case ce of
          None \<Rightarrow> (Ret (), w1)
        | Some ce \<Rightarrow> (case CheckedEntry_Write app F E ce fs w1 of ((r, _), w2) \<Rightarrow> (r, w2)))"

text \<open>A checked entry that only cores have added to holds the entry and the cores.\<close>

definition plain_entry :: "'l Entry \<Rightarrow> ('n, 'l, 'v, 's) CheckedEntry option \<Rightarrow> bool" where
  "plain_entry ent ce \<longleftrightarrow> (case ce of None \<Rightarrow> True | Some c \<Rightarrow> \<exists>cs. c = (getCheckedEntry ent)\<lparr>cores := cs\<rparr>)"

lemma plain_entry_AddCore: "plain_entry ent ce \<Longrightarrow> plain_entry ent (Some (AddCore ent c ce))"
  by (cases ce) (auto simp: plain_entry_def AddCore_def ce_or_new_def getCheckedEntry_def)

lemma Core_Check_plain:
  fixes c :: "('n, 'l, 'v, 's) core" and cs :: "('n, 'l, 'v, 's) core list"
  shows "Core_Check E c ent ce w = (Ret d, w') \<Longrightarrow> plain_entry ent ce \<Longrightarrow> plain_entry ent d"
    and "multi_Check E cs ent ce w = (Ret d, w') \<Longrightarrow> plain_entry ent ce \<Longrightarrow> plain_entry ent d"
proof (induction E c ent ce w and E cs ent ce w arbitrary: d w' and d w' rule: Core_Check_multi_Check.induct)
  case (4 E c fns ent ce w)
  then obtain d1 where "Core_Check E c ent ce w = (Ret d1, w')" "d = ce \<or> (\<exists>x. d1 = Some x \<and> d = Some (AddCore ent (hooked c fns) (Some x)))"
    by (auto simp: then_do_Ret split: option.splits)
  then show ?case
    using 4 plain_entry_AddCore by blast
next
  case (7 E c cid tick first th hook ent ce w)
  then show ?case
    by (auto split: if_splits prod.splits)
next
  case (10 E c cs ent ce w)
  then show ?case
    by (auto simp: then_do_Ret)
qed (auto intro: plain_entry_AddCore split: if_splits option.splits)

lemma write_plain:
  assumes "plain_entry ent (Some ce)"
  shows "(case CheckedEntry_Write app F E ce fs w of ((r, _), w2) \<Rightarrow> (r, w2))
    = then_do (multiCore_Write app E (cores ce) ent fs None w) (\<lambda>_ w1. (Ret (), w1))"
proof -
  have "ce_Entry ce = ent" "ErrorOutput ce = None" "\<not> dirty ce" "after ce = None" "before ce = []"
    using assms by (auto simp: plain_entry_def getCheckedEntry_def)
  then show ?thesis
    by (auto simp: CheckedEntry_Write_def run_before_def Let_def option.case_eq_if split: prod.split
        intro!: arg_cong2 [where f = then_do] ext)
qed

lemma multiCore_Write_snoc:
  "multiCore_Write app E (cs @ [c]) ent fs err w =
     then_do (multiCore_Write app E cs ent fs err w)
       (\<lambda>e w1. then_do (Core_Write app E c ent fs w1) (\<lambda>e1 w2. (Ret (app e e1), w2)))"
  by (induction cs arbitrary: err w) (auto simp: then_do_assoc intro!: arg_cong2 [where f = then_do] ext)

lemma run_hooks_fold: "snd (run_hooks app fns ent err s) = fold (\<lambda>hook s. snd (hook ent s)) fns s"
  by (induction fns arbitrary: err s) (simp_all split: prod.split)

text \<open>C30. In a tee the hooks of a core run for entries that the core does not log: if a core before it has taken the
  entry, the hooks registered on a core that is not enabled for the level run when the entry is written, after the
  write of the first core.  With the two in the other order they do not run, and neither do they without the tee.
  So the order of the cores in the tee decides.\<close>

theorem tee_runs_hooks_of_disabled_core:
  assumes "Core_Check E a ent None w = (Ret (Some ce), w1)"
    and "\<not> Core_Enabled b (ent_Level ent) (outside w)" and "\<not> Core_Enabled b (ent_Level ent) (outside w1)" and "hookless b"
  shows "check_and_write app F E (NewTee [a, RegisterHooks b fns]) ent fs w
      = then_do (check_and_write app F E a ent fs w)
          (\<lambda>_ w2. (Ret (), w2\<lparr>outside := fold (\<lambda>hook s. snd (hook ent s)) fns (outside w2)\<rparr>))
    \<and> check_and_write app F E (NewTee [RegisterHooks b fns, a]) ent fs w = check_and_write app F E a ent fs w
    \<and> check_and_write app F E (RegisterHooks b fns) ent fs w = (Ret (), w)"
proof -
  let ?d = "ce\<lparr>cores := cores ce @ [hooked b fns]\<rparr>"
  have plain: "plain_entry ent (Some ce)"
    using Core_Check_plain(1) [OF assms(1)] by (simp add: plain_entry_def)
  then have "plain_entry ent (Some ?d)"
    using plain_entry_AddCore [OF plain, of "hooked b fns"] by (simp add: AddCore_def ce_or_new_def)
  moreover have "Core_Check E (multiCore [a, hooked b fns]) ent None w = (Ret (Some ?d), w1)"
    using assms by (simp add: disabled_hookless AddCore_def ce_or_new_def)
  ultimately have "check_and_write app F E (NewTee [a, RegisterHooks b fns]) ent fs w
      = then_do (multiCore_Write app E (cores ce @ [hooked b fns]) ent fs None w1) (\<lambda>_ w2. (Ret (), w2))"
    by (simp add: check_and_write_def NewTee_def RegisterHooks_def write_plain)
  moreover have a: "check_and_write app F E a ent fs w
      = then_do (multiCore_Write app E (cores ce) ent fs None w1) (\<lambda>_ w2. (Ret (), w2))"
    using assms(1) by (simp add: check_and_write_def write_plain [OF plain])
  moreover have "check_and_write app F E (NewTee [RegisterHooks b fns, a]) ent fs w = check_and_write app F E a ent fs w"
    using assms by (simp add: check_and_write_def NewTee_def RegisterHooks_def disabled_hookless)
  moreover have "check_and_write app F E (RegisterHooks b fns) ent fs w = (Ret (), w)"
    using assms by (simp add: check_and_write_def RegisterHooks_def disabled_hookless)
  ultimately show ?thesis
    by (auto simp: multiCore_Write_snoc then_do_assoc run_hooks_fold [of app _ _ None, symmetric] intro!: arg_cong2 [where f = then_do] ext split: prod.split)
qed

definition demo_hook :: "unit Entry \<Rightarrow> bytes TestBuffer \<Rightarrow> bytes option \<times> bytes TestBuffer" where
  "demo_hook ent s = (None, s\<lparr>tb_writes := tb_writes s @ [''hook of '' @ Message ent]\<rparr>)"

theorem tee_runs_hooks_of_disabled_core_witness:
  "check_and_write join_errors demo_fmt (json_ops plain_std ()) (NewTee [demo_core, RegisterHooks nopCore [demo_hook]])
      (demo_entry InfoLevel) [] demo_world
    = then_do (check_and_write join_errors demo_fmt (json_ops plain_std ()) demo_core (demo_entry InfoLevel) [] demo_world)
        (\<lambda>_ w2. (Ret (), w2\<lparr>outside := (outside w2)\<lparr>tb_writes := tb_writes (outside w2) @ [''hook of hi'']\<rparr>\<rparr>))"
proof -
  have "Core_Check (json_ops plain_std ()) demo_core (demo_entry InfoLevel) None demo_world
      = (Ret (Some ((getCheckedEntry (demo_entry InfoLevel))\<lparr>cores := [demo_core]\<rparr>)), demo_world)"
    by (simp add: demo_core_def NewCore_def level_enabler_def demo_entry_def Level_Enabled_def level_simps AddCore_def
        ce_or_new_def getCheckedEntry_def)
  from tee_runs_hooks_of_disabled_core [OF this, of nopCore join_errors demo_fmt "[demo_hook]" "[]"] show ?thesis
    by (simp add: demo_hook_def demo_entry_def)
qed

text \<open>The level of a tee of cores of which none is enabled for any level is reported as \<^verbatim>\<open>FatalLevel\<close>,
  although the documented result of \<^verbatim>\<open>LevelOf\<close> is then \<^verbatim>\<open>InvalidLevel\<close>, which a single such core
  gives.\<close>

theorem tee_level_of_disabled_cores:
  "Core_LevelOf (multiCore [nopCore, nopCore]) s = FatalLevel
    \<and> Core_LevelOf nopCore s = InvalidLevel
    \<and> \<not> Core_Enabled (multiCore [nopCore, nopCore]) FatalLevel s"
  by (simp add: LevelOf_def LevelOf_loop.simps level_simps maxLevel_def)

end
