(* ===== verification/Stacktrace.thy ===== *)
theory Stacktrace
  imports Encoder_Config
begin

text \<open>
  \<^verbatim>\<open>src/internal/stacktrace/stack.go\<close>.  The stack of the goroutine is a parameter: the list of
  frames that \<^verbatim>\<open>runtime.Callers\<close> sees, itself first.  A program counter and the frame that
  \<^verbatim>\<open>runtime.CallersFrames\<close> gives for it are the same thing here.
\<close>

section \<open>Capture\<close>

record Frame =
  fr_PC :: uint64
  fr_Function :: bytes
  fr_File :: bytes
  fr_Line :: int64

datatype Depth = First | Full

text \<open>\<^verbatim>\<open>runtime.Callers(skip, pcs)\<close> fills a slice of length \<open>n\<close> as far as there are frames.\<close>

definition runtime_Callers :: "Frame list \<Rightarrow> nat \<Rightarrow> nat \<Rightarrow> Frame list" where
  "runtime_Callers stk skip n = take n (drop skip stk)"

text \<open>The loop that doubles the storage until it is not filled; the result is the frames and the size of
  the storage.  With a storage of size 0 it would not end.\<close>

partial_function (option) Capture_loop :: "Frame list \<Rightarrow> nat \<Rightarrow> nat \<Rightarrow> Frame list \<Rightarrow> (Frame list \<times> nat) option" where
  [code]: "Capture_loop stk skip n pcs =
     (if length pcs = n then Capture_loop stk skip (n * 2) (runtime_Callers stk skip (n * 2))
      else Some (pcs, n))"

text \<open>\<^verbatim>\<open>Capture\<close> with the size of the pooled storage: the frames, and the storage afterwards.\<close>

definition Capture :: "Frame list \<Rightarrow> nat \<Rightarrow> nat \<Rightarrow> Depth \<Rightarrow> (Frame list \<times> nat) option" where
  "Capture stk storage skip depth =
     (case depth of
        First \<Rightarrow> Some (runtime_Callers stk (skip + 2) 1, storage)
      | Full \<Rightarrow> Capture_loop stk (skip + 2) storage (runtime_Callers stk (skip + 2) storage))"

definition Stack_Count :: "Frame list \<Rightarrow> nat" where
  "Stack_Count pcs = length pcs"

text \<open>\<^verbatim>\<open>Next\<close>: the next frame and whether more follow, and the remaining frames.\<close>

definition zero_Frame :: Frame where
  "zero_Frame = \<lparr>fr_PC = 0, fr_Function = [], fr_File = [], fr_Line = 0\<rparr>"

fun Stack_Next :: "Frame list \<Rightarrow> (Frame \<times> bool) \<times> Frame list" where
  "Stack_Next [] = ((zero_Frame, False), [])"
| "Stack_Next (f # fs) = ((f, fs \<noteq> []), fs)"

section \<open>Formatting\<close>

record Formatter =
  f_b :: Buffer
  nonEmpty :: bool

definition NewFormatter :: "Buffer \<Rightarrow> Formatter" where
  "NewFormatter b = \<lparr>f_b = b, nonEmpty = False\<rparr>"

definition FormatFrame :: "Frame \<Rightarrow> Formatter \<Rightarrow> Formatter" where
  "FormatFrame fr sf =
     (let b = (if nonEmpty sf then Buffer_AppendByte newline (f_b sf) else f_b sf);
          b = Buffer_AppendString (fr_Function fr) b;
          b = Buffer_AppendByte newline b;
          b = Buffer_AppendByte (CHR 0x09) b;
          b = Buffer_AppendString (fr_File fr) b;
          b = Buffer_AppendByte (CHR '':'') b;
          b = Buffer_AppendInt (fr_Line fr) b
      in \<lparr>f_b = b, nonEmpty = True\<rparr>)"

text \<open>The loop stops at the frame after which there is none.\<close>

fun FormatStack :: "Frame list \<Rightarrow> Formatter \<Rightarrow> Formatter" where
  "FormatStack [] sf = sf"
| "FormatStack [f] sf = sf"
| "FormatStack (f # g # fs) sf = FormatStack (g # fs) (FormatFrame f sf)"

definition Take :: "Frame list \<Rightarrow> nat \<Rightarrow> nat \<Rightarrow> bytes option" where
  "Take stk storage skip =
     (case Capture stk storage (skip + 1) Full of
        None \<Rightarrow> None
      | Some (pcs, _) \<Rightarrow> Some (Buffer_String (f_b (FormatStack pcs (NewFormatter bufferpool_Get)))))"

section \<open>Properties\<close>

lemma Capture_loop_full:
  assumes "0 < n" and "pcs = runtime_Callers stk skip n"
  shows "\<exists>m. Capture_loop stk skip n pcs = Some (drop skip stk, m)"
  using assms
proof (induction "Suc (length stk) - n" arbitrary: n pcs rule: less_induct)
  case less
  show ?case
  proof (cases "length pcs = n")
    case True
    then have "n \<le> length stk"
      using less.prems by (simp add: runtime_Callers_def)
    then have "\<exists>m. Capture_loop stk skip (n * 2) (runtime_Callers stk skip (n * 2)) = Some (drop skip stk, m)"
      using less.prems by (intro less.hyps) auto
    then show ?thesis
      using True by (simp add: Capture_loop.simps)
  next
    case False
    then show ?thesis
      using less.prems by (auto simp: runtime_Callers_def Capture_loop.simps)
  qed
qed

text \<open>What is captured depends on the frames that are not skipped only.\<close>

lemma Capture_loop_drop:
  assumes "Capture_loop stk skip n pcs = Some r"
  shows "\<forall>stk' skip'. drop skip stk = drop skip' stk' \<longrightarrow> Capture_loop stk' skip' n pcs = Some r"
proof (rule Capture_loop.raw_induct [where P = "\<lambda>stk skip n pcs r. \<forall>stk' skip'. drop skip stk = drop skip' stk'
      \<longrightarrow> Capture_loop stk' skip' n pcs = Some r", OF _ assms])
  fix loop stk skip n pcs r
  assume IH: "\<And>stk skip n pcs r. loop stk skip n pcs = Some r
      \<Longrightarrow> \<forall>stk' skip'. drop skip stk = drop skip' stk' \<longrightarrow> Capture_loop stk' skip' n pcs = Some r"
    and loop: "(if length pcs = n then loop stk skip (n * 2) (runtime_Callers stk skip (n * 2)) else Some (pcs, n)) = Some r"
  show "\<forall>stk' skip'. drop skip stk = drop skip' stk' \<longrightarrow> Capture_loop stk' skip' n pcs = Some r"
  proof (intro allI impI)
    fix stk' skip'
    assume "drop skip stk = drop skip' stk'"
    then show "Capture_loop stk' skip' n pcs = Some r"
      using loop IH [of stk skip "n * 2" "runtime_Callers stk skip (n * 2)" r]
      by (subst Capture_loop.simps) (auto simp: runtime_Callers_def split: if_splits)
  qed
qed

lemma Capture_cong:
  assumes "drop (skip + 2) stk = drop (skip' + 2) stk'"
  shows "Capture stk storage skip depth = Capture stk' storage skip' depth"
proof -
  have "Capture_loop stk (skip + 2) n pcs = Capture_loop stk' (skip' + 2) n pcs" for n pcs
    using Capture_loop_drop assms by (metis not_Some_eq)
  then show ?thesis
    using assms by (auto simp: Capture_def runtime_Callers_def split: Depth.split)
qed

definition frame_text :: "Frame \<Rightarrow> bytes" where
  "frame_text fr = fr_Function fr @ [newline, CHR 0x09] @ fr_File fr @ CHR '':'' # itoa (sint (fr_Line fr))"

text \<open>Lines joined with newlines.\<close>

fun join_lines :: "bytes list \<Rightarrow> bytes" where
  "join_lines [] = []"
| "join_lines [x] = x"
| "join_lines (x # y # xs) = x @ newline # join_lines (y # xs)"

lemma FormatFrame_text:
  "bs (f_b (FormatFrame fr sf)) = bs (f_b sf) @ (if nonEmpty sf then [newline] else []) @ frame_text fr"
  "nonEmpty (FormatFrame fr sf)"
  by (simp_all add: FormatFrame_def frame_text_def buffer_simps Let_def)

lemma FormatStack_nonEmpty:
  "nonEmpty sf \<Longrightarrow> bs (f_b (FormatStack fs sf)) = bs (f_b sf) @ concat (map (\<lambda>f. newline # frame_text f) (butlast fs))"
  by (induction fs sf rule: FormatStack.induct) (simp_all add: FormatFrame_text)

lemma join_lines_Cons: "join_lines (x # xs) = x @ concat (map ((#) newline) xs)"
  by (induction xs arbitrary: x) auto

lemma FormatStack_text:
  "bs (f_b (FormatStack fs (NewFormatter bufferpool_Get))) = join_lines (map frame_text (butlast fs))"
proof (cases fs rule: remdups_adj.cases)
  case (3 f g rest)
  then show ?thesis
    by (cases "rest = []")
      (simp_all add: FormatStack_nonEmpty FormatFrame_text join_lines_Cons NewFormatter_def bufferpool_Get_def comp_def)
qed (simp_all add: NewFormatter_def bufferpool_Get_def)

text \<open>C32. \<^verbatim>\<open>Capture\<close> ends and gets the whole stack, however deep it is and whatever the size of the pooled
  storage, and \<^verbatim>\<open>Take\<close> is the text of all its frames but the last, one after the other.\<close>

theorem stack_capture_terminates:
  assumes "0 < storage"
  shows "(\<exists>m. Capture stk storage skip Full = Some (drop (skip + 2) stk, m))
    \<and> Take stk storage skip = Some (join_lines (map frame_text (butlast (drop (skip + 3) stk))))"
proof -
  have *: "\<exists>m. Capture stk storage skip Full = Some (drop (skip + 2) stk, m)" for skip
    unfolding Capture_def using Capture_loop_full [OF assms refl] by simp
  moreover obtain m where "Capture stk storage (skip + 1) Full = Some (drop (skip + 3) stk, m)"
    using * [of "skip + 1"] by (auto simp: numeral_3_eq_3)
  ultimately show ?thesis
    by (simp add: Take_def FormatStack_text buffer_simps)
qed

theorem stack_capture_terminates_witness:
  "Take (replicate 100 zero_Frame) 64 95 = Some (frame_text zero_Frame)"
  using stack_capture_terminates [of 64 "replicate 100 zero_Frame" 95] by (simp add: numeral_2_eq_2)

end
