(* ===== verification/Logger.thy ===== *)
theory Logger
  imports Core_Laws Stacktrace
begin

text \<open>
  \<^verbatim>\<open>src/logger.go\<close> and \<^verbatim>\<open>src/options.go\<close>.  The functions of other packages that a logger calls, and
  the stack of the goroutine at the call, are gathered in an environment.
\<close>

section \<open>State\<close>

record ('n, 'l, 'v) env =
  multierr :: "bytes option \<Rightarrow> bytes option \<Rightarrow> bytes option"
  fmt :: "'l gofmt"
  ops :: "('n, 'l, 'v) Encoder"
  stack_frames :: "Frame list"
  stack_storage :: nat

record ('n, 'l, 'v, 's) Logger =
  lg_core :: "('n, 'l, 'v, 's) core"
  development :: bool
  addCaller :: bool
  onPanic :: "('l, 'v, 's) CheckWriteHook option"
  onFatal :: "('l, 'v, 's) CheckWriteHook option"
  lg_name :: bytes
  errorOutput :: "('s, bytes) WriteSyncer"
  addStack :: "'s LevelEnabler"
  callerSkip :: int
  clock :: "'s \<Rightarrow> 'l time"

text \<open>\<^verbatim>\<open>NewNop\<close> and \<^verbatim>\<open>New\<close> before its options; \<open>now\<close> is the system clock, \<open>stderr\<close> the standard
  error.\<close>

definition NewNop :: "('s \<Rightarrow> 'l time) \<Rightarrow> ('n, 'l, 'v, 's) Logger" where
  "NewNop now =
     \<lparr>lg_core = NewNopCore, development = False, addCaller = False, onPanic = None, onFatal = None, lg_name = [],
      errorOutput = AddSync io_Discard, addStack = level_enabler (FatalLevel + 1), callerSkip = 0, clock = now\<rparr>"

definition new_Logger :: "('s \<Rightarrow> 'l time) \<Rightarrow> ('s, bytes) WriteSyncer \<Rightarrow> ('n, 'l, 'v, 's) core \<Rightarrow> ('n, 'l, 'v, 's) Logger" where
  "new_Logger now stderr c =
     \<lparr>lg_core = c, development = False, addCaller = False, onPanic = None, onFatal = None, lg_name = [],
      errorOutput = Lock stderr, addStack = level_enabler (FatalLevel + 1), callerSkip = 0, clock = now\<rparr>"

section \<open>Options\<close>

type_synonym ('n, 'l, 'v, 's) Opt =
  "('n, 'l, 'v, 's) Logger \<Rightarrow> ('l, 'v, 's) world \<Rightarrow> ('n, 'l, 'v, 's) Logger outcome \<times> ('l, 'v, 's) world"

definition WrapCore :: "(('n, 'l, 'v, 's) core \<Rightarrow> ('l, 'v, 's) world \<Rightarrow> ('n, 'l, 'v, 's) core \<times> ('l, 'v, 's) world)
      \<Rightarrow> ('n, 'l, 'v, 's) Opt" where
  "WrapCore f log w = (case f (lg_core log) w of (c, w1) \<Rightarrow> (Ret (log\<lparr>lg_core := c\<rparr>), w1))"

definition Hooks :: "('l Entry \<Rightarrow> 's \<Rightarrow> bytes option \<times> 's) list \<Rightarrow> ('n, 'l, 'v, 's) Opt" where
  "Hooks hooks log w = (Ret (log\<lparr>lg_core := RegisterHooks (lg_core log) hooks\<rparr>), w)"

definition Fields :: "('n, 'l, 'v) env \<Rightarrow> ('l, 'v) Field list \<Rightarrow> ('n, 'l, 'v, 's) Opt" where
  "Fields env fs log w =
     (case Core_With (ops env) fs (lg_core log) of
        None \<Rightarrow> (MarshalerPanics, w)
      | Some c \<Rightarrow> (Ret (log\<lparr>lg_core := c\<rparr>), w))"

definition ErrorOutput_option :: "('s, bytes) WriteSyncer \<Rightarrow> ('n, 'l, 'v, 's) Opt" where
  "ErrorOutput_option ws log w = (Ret (log\<lparr>errorOutput := ws\<rparr>), w)"

definition Development :: "('n, 'l, 'v, 's) Opt" where
  "Development log w = (Ret (log\<lparr>development := True\<rparr>), w)"

definition WithCaller :: "bool \<Rightarrow> ('n, 'l, 'v, 's) Opt" where
  "WithCaller enabled log w = (Ret (log\<lparr>addCaller := enabled\<rparr>), w)"

definition AddCaller :: "('n, 'l, 'v, 's) Opt" where
  "AddCaller = WithCaller True"

definition AddCallerSkip :: "int \<Rightarrow> ('n, 'l, 'v, 's) Opt" where
  "AddCallerSkip skip log w = (Ret (log\<lparr>callerSkip := callerSkip log + skip\<rparr>), w)"

definition AddStacktrace :: "'s LevelEnabler \<Rightarrow> ('n, 'l, 'v, 's) Opt" where
  "AddStacktrace lvl log w = (Ret (log\<lparr>addStack := lvl\<rparr>), w)"

definition IncreaseLevel :: "('n, 'l, 'v) env \<Rightarrow> 's LevelEnabler \<Rightarrow> ('n, 'l, 'v, 's) Opt" where
  "IncreaseLevel env lvl log w =
     (case NewIncreaseLevelCore (lg_core log) lvl (outside w) of
        Inl err \<Rightarrow>
          (Ret log, w\<lparr>outside := snd (WS_Write (multierr env) (errorOutput log)
             (''failed to IncreaseLevel: '' @ err @ [newline]) (outside w))\<rparr>)
      | Inr c \<Rightarrow> (Ret (log\<lparr>lg_core := c\<rparr>), w))"

definition WithPanicHook :: "('l, 'v, 's) CheckWriteHook option \<Rightarrow> ('n, 'l, 'v, 's) Opt" where
  "WithPanicHook hook log w = (Ret (log\<lparr>onPanic := hook\<rparr>), w)"

definition WithFatalHook :: "('l, 'v, 's) CheckWriteHook option \<Rightarrow> ('n, 'l, 'v, 's) Opt" where
  "WithFatalHook hook log w = (Ret (log\<lparr>onFatal := hook\<rparr>), w)"

definition OnFatal :: "CheckWriteAction \<Rightarrow> ('n, 'l, 'v, 's) Opt" where
  "OnFatal action = WithFatalHook (Some (Action action))"

definition WithClock :: "('s \<Rightarrow> 'l time) \<Rightarrow> ('n, 'l, 'v, 's) Opt" where
  "WithClock ck log w = (Ret (log\<lparr>clock := ck\<rparr>), w)"

fun WithOptions :: "('n, 'l, 'v, 's) Opt list \<Rightarrow> ('n, 'l, 'v, 's) Opt" where
  "WithOptions [] log w = (Ret log, w)"
| "WithOptions (opt # opts) log w = then_do (opt log w) (WithOptions opts)"

text \<open>\<^verbatim>\<open>New\<close>; a nil core is \<open>None\<close>.\<close>

definition Logger_New :: "('s \<Rightarrow> 'l time) \<Rightarrow> ('s, bytes) WriteSyncer \<Rightarrow> ('n, 'l, 'v, 's) core option
      \<Rightarrow> ('n, 'l, 'v, 's) Opt list \<Rightarrow> ('l, 'v, 's) world \<Rightarrow> ('n, 'l, 'v, 's) Logger outcome \<times> ('l, 'v, 's) world" where
  "Logger_New now stderr c opts w =
     (case c of None \<Rightarrow> (Ret (NewNop now), w) | Some c \<Rightarrow> WithOptions opts (new_Logger now stderr c) w)"

section \<open>Child loggers\<close>

definition Logger_Named :: "bytes \<Rightarrow> ('n, 'l, 'v, 's) Logger \<Rightarrow> ('n, 'l, 'v, 's) Logger" where
  "Logger_Named s log =
     (if s = [] then log
      else if lg_name log = [] then log\<lparr>lg_name := s\<rparr>
      else log\<lparr>lg_name := lg_name log @ [CHR ''.''] @ s\<rparr>)"

definition Logger_With :: "('n, 'l, 'v) env \<Rightarrow> ('l, 'v) Field list \<Rightarrow> ('n, 'l, 'v, 's) Logger
      \<Rightarrow> ('n, 'l, 'v, 's) Logger option" where
  "Logger_With env fs log =
     (if fs = [] then Some log
      else map_option (\<lambda>c. log\<lparr>lg_core := c\<rparr>) (Core_With (ops env) fs (lg_core log)))"

text \<open>\<^verbatim>\<open>WithLazy\<close> with fields whose values do not change; with fields that do, see theory \<^verbatim>\<open>Lazy_With\<close>.\<close>

definition Logger_WithLazy :: "('l, 'v) Field list \<Rightarrow> ('n, 'l, 'v, 's) Logger \<Rightarrow> ('n, 'l, 'v, 's) Logger" where
  "Logger_WithLazy fs log =
     (if fs = [] then log else log\<lparr>lg_core := NewLazyWith (lg_core log) fs\<rparr>)"

definition Logger_Level :: "('n, 'l, 'v, 's) Logger \<Rightarrow> 's \<Rightarrow> Level" where
  "Logger_Level log s = Core_LevelOf (lg_core log) s"

definition Logger_Sync :: "('n, 'l, 'v) env \<Rightarrow> ('n, 'l, 'v, 's) Logger \<Rightarrow> ('l, 'v, 's) world
      \<Rightarrow> bytes option outcome \<times> ('l, 'v, 's) world" where
  "Logger_Sync env log w = Core_Sync (multierr env) (ops env) (lg_core log) w"

definition Logger_Core :: "('n, 'l, 'v, 's) Logger \<Rightarrow> ('n, 'l, 'v, 's) core" where
  "Logger_Core log = lg_core log"

definition Logger_Name :: "('n, 'l, 'v, 's) Logger \<Rightarrow> bytes" where
  "Logger_Name log = lg_name log"

definition Logger_Sugar :: "('n, 'l, 'v, 's) Logger \<Rightarrow> ('n, 'l, 'v, 's) Logger" where
  "Logger_Sugar log = log\<lparr>callerSkip := callerSkip log + 2\<rparr>"

section \<open>Logging\<close>

definition terminalHookOverride ::
    "('l, 'v, 's) CheckWriteHook \<Rightarrow> ('l, 'v, 's) CheckWriteHook option \<Rightarrow> ('l, 'v, 's) CheckWriteHook" where
  "terminalHookOverride defaultHook override =
     (case override of
        None \<Rightarrow> defaultHook
      | Some (Action WriteThenNoop) \<Rightarrow> defaultHook
      | Some h \<Rightarrow> h)"

text \<open>The terminal behaviour of the level.\<close>

definition set_terminal :: "('n, 'l, 'v, 's) Logger \<Rightarrow> 'l Entry \<Rightarrow> ('n, 'l, 'v, 's) CheckedEntry option
      \<Rightarrow> ('n, 'l, 'v, 's) CheckedEntry option" where
  "set_terminal log ent ce =
     (if ent_Level ent = PanicLevel then
        Some (After ent (terminalHookOverride (Action WriteThenPanic) (onPanic log)) ce)
      else if ent_Level ent = FatalLevel then
        Some (After ent (terminalHookOverride (Action WriteThenFatal) (onFatal log)) ce)
      else if ent_Level ent = DPanicLevel \<and> development log then
        Some (After ent (terminalHookOverride (Action WriteThenPanic) (onPanic log)) ce)
      else ce)"

text \<open>The caller and the stack trace from the captured frames; the first frame is formatted even if it is
  the only one.\<close>

definition frame_caller :: "Frame \<Rightarrow> EntryCaller" where
  "frame_caller frame =
     \<lparr>Defined = (fr_PC frame \<noteq> 0), PC = fr_PC frame, File = fr_File frame, Line = fr_Line frame,
      Function = fr_Function frame\<rparr>"

definition stack_text :: "Frame list \<Rightarrow> bytes" where
  "stack_text pcs =
     (case Stack_Next pcs of ((frame, has_more), rest) \<Rightarrow>
        let sf = FormatFrame frame (NewFormatter bufferpool_Get)
        in Buffer_String (f_b (if has_more then FormatStack rest sf else sf)))"

definition annotate :: "bool \<Rightarrow> bool \<Rightarrow> Frame list \<Rightarrow> ('n, 'l, 'v, 's) CheckedEntry \<Rightarrow> ('n, 'l, 'v, 's) CheckedEntry" where
  "annotate caller stack pcs ce =
     (let ce1 = (if caller then ce\<lparr>ce_Entry := (ce_Entry ce)\<lparr>ent_Caller := frame_caller (fst (fst (Stack_Next pcs)))\<rparr>\<rparr> else ce)
      in if stack then ce1\<lparr>ce_Entry := (ce_Entry ce1)\<lparr>Stack := stack_text pcs\<rparr>\<rparr> else ce1)"

definition new_entry :: "('n, 'l, 'v, 's) Logger \<Rightarrow> Level \<Rightarrow> bytes \<Rightarrow> 's \<Rightarrow> 'l Entry" where
  "new_entry log lvl msg s =
     \<lparr>ent_Level = lvl, ent_Time = clock log s, LoggerName = lg_name log, Message = msg,
      ent_Caller = NewEntryCaller 0 [] 0 False, Stack = []\<rparr>"

text \<open>The part of \<^verbatim>\<open>check\<close> after the core has taken the entry.\<close>

definition annotate_entry :: "('n, 'l, 'v) env \<Rightarrow> ('n, 'l, 'v, 's) Logger \<Rightarrow> 'l Entry \<Rightarrow> ('n, 'l, 'v, 's) CheckedEntry
      \<Rightarrow> ('l, 'v, 's) world \<Rightarrow> ('n, 'l, 'v, 's) CheckedEntry option outcome \<times> ('l, 'v, 's) world" where
  "annotate_entry env log ent ce w =
     (let ce = ce\<lparr>ErrorOutput := Some (errorOutput log)\<rparr>;
          stack = en_Enabled (addStack log) (ent_Level (ce_Entry ce)) (outside w)
      in if \<not> addCaller log \<and> \<not> stack then (Ret (Some ce), w)
         else case Capture (stack_frames env) (stack_storage env) (nat (callerSkip log + 2)) (if stack then Full else First) of
                None \<Rightarrow> (Diverges, w)
              | Some (pcs, _) \<Rightarrow>
                  if Stack_Count pcs = 0 then
                    (Ret (Some ce),
                     if addCaller log
                     then w\<lparr>outside := report (multierr env) (errorOutput log)
                            (fmt_utc (fmt env) (ent_Time ent) @ '' Logger.check error: failed to get caller'' @ [newline])
                            (outside w)\<rparr>
                     else w)
                  else (Ret (Some (annotate (addCaller log) stack pcs ce)), w))"

definition Logger_check :: "('n, 'l, 'v) env \<Rightarrow> ('n, 'l, 'v, 's) Logger \<Rightarrow> Level \<Rightarrow> bytes \<Rightarrow> ('l, 'v, 's) world
      \<Rightarrow> ('n, 'l, 'v, 's) CheckedEntry option outcome \<times> ('l, 'v, 's) world" where
  "Logger_check env log lvl msg w =
     (if sint lvl < sint DPanicLevel \<and> \<not> Core_Enabled (lg_core log) lvl (outside w) then (Ret None, w)
      else
        let ent = new_entry log lvl msg (outside w) in
        then_do (Core_Check (ops env) (lg_core log) ent None w)
          (\<lambda>ce w1. case (ce, set_terminal log ent ce) of
             (Some _, Some ce2) \<Rightarrow> annotate_entry env log ent ce2 w1
           | (_, ce2) \<Rightarrow> (Ret ce2, w1)))"

definition Logger_Check :: "('n, 'l, 'v) env \<Rightarrow> ('n, 'l, 'v, 's) Logger \<Rightarrow> Level \<Rightarrow> bytes \<Rightarrow> ('l, 'v, 's) world
      \<Rightarrow> ('n, 'l, 'v, 's) CheckedEntry option outcome \<times> ('l, 'v, 's) world" where
  "Logger_Check env log lvl msg w = Logger_check env log lvl msg w"

definition Logger_Log :: "('n, 'l, 'v) env \<Rightarrow> ('n, 'l, 'v, 's) Logger \<Rightarrow> Level \<Rightarrow> bytes \<Rightarrow> ('l, 'v) Field list
      \<Rightarrow> ('l, 'v, 's) world \<Rightarrow> unit outcome \<times> ('l, 'v, 's) world" where
  "Logger_Log env log lvl msg fs w =
     then_do (Logger_check env log lvl msg w)
       (\<lambda>ce w1. case ce of
          None \<Rightarrow> (Ret (), w1)
        | Some ce \<Rightarrow>
            (case CheckedEntry_Write (multierr env) (fmt env) (ops env) ce fs w1 of ((r, _), w2) \<Rightarrow> (r, w2)))"

definition Logger_Debug where "Logger_Debug env log msg fs w = Logger_Log env log DebugLevel msg fs w"
definition Logger_Info where "Logger_Info env log msg fs w = Logger_Log env log InfoLevel msg fs w"
definition Logger_Warn where "Logger_Warn env log msg fs w = Logger_Log env log WarnLevel msg fs w"
definition Logger_Error where "Logger_Error env log msg fs w = Logger_Log env log ErrorLevel msg fs w"
definition Logger_DPanic where "Logger_DPanic env log msg fs w = Logger_Log env log DPanicLevel msg fs w"
definition Logger_Panic where "Logger_Panic env log msg fs w = Logger_Log env log PanicLevel msg fs w"
definition Logger_Fatal where "Logger_Fatal env log msg fs w = Logger_Log env log FatalLevel msg fs w"

section \<open>Control flow\<close>

text \<open>What the cores do: they return or a marshaler panics.\<close>

definition benign :: "'a outcome \<Rightarrow> bool" where
  "benign r \<longleftrightarrow> (\<exists>x. r = Ret x) \<or> r = MarshalerPanics"

lemma benign_simps [simp]: "benign (Ret x)" "benign MarshalerPanics" "\<not> benign (Panics m)" "\<not> benign Goexits"
    "\<not> benign (Exits n)" "\<not> benign Diverges"
  by (auto simp: benign_def)

lemma then_do_benign: "benign (fst r) \<Longrightarrow> (\<And>x w. r = (Ret x, w) \<Longrightarrow> benign (fst (k x w))) \<Longrightarrow> benign (fst (then_do r k))"
  by (cases "(r, k)" rule: then_do.cases) auto

lemma Core_Check_benign:
  fixes c :: "('n, 'l, 'v, 's) core" and cs :: "('n, 'l, 'v, 's) core list"
  shows "benign (fst (Core_Check E c ent ce w))" and "benign (fst (multi_Check E cs ent ce w))"
proof (induction E c ent ce w and E cs ent ce w rule: Core_Check_multi_Check.induct)
  case (4 E c fns ent ce w)
  then show ?case
    by (auto intro!: then_do_benign split: option.split)
next
  case (10 E c cs ent ce w)
  then show ?case
    by (auto intro!: then_do_benign)
qed (auto split: option.split prod.split)

lemma Core_Write_benign:
  fixes c :: "('n, 'l, 'v, 's) core" and cs :: "('n, 'l, 'v, 's) core list"
  shows "benign (fst (Core_Write app E c ent fs w))" and "benign (fst (multiCore_Write app E cs ent fs err w))"
proof (induction app E c ent fs w and app E cs ent fs err w rule: Core_Write_multiCore_Write.induct)
  case (10 app E c cs ent fs err w)
  then show ?case
    by (auto intro!: then_do_benign)
qed (auto simp: ioCore_Write_def split: option.split prod.split sum.split)

text \<open>A checked entry as the cores make it.\<close>

definition ce_fresh :: "'l Entry \<Rightarrow> ('n, 'l, 'v, 's) CheckedEntry option \<Rightarrow> bool" where
  "ce_fresh ent ce \<longleftrightarrow> (\<forall>a. ce = Some a \<longrightarrow> ce_Entry a = ent \<and> \<not> dirty a \<and> after a = None \<and> before a = []
     \<and> ErrorOutput a = None)"

lemma ce_fresh_simps [simp]: "ce_fresh ent None" "ce_fresh ent ce \<Longrightarrow> ce_fresh ent (Some (AddCore ent c ce))"
  by (cases ce; simp add: ce_fresh_def AddCore_def ce_or_new_def getCheckedEntry_def)+

lemma fresh_check:
  fixes c :: "('n, 'l, 'v, 's) core" and cs :: "('n, 'l, 'v, 's) core list"
  shows "Core_Check E c ent ce w = (Ret d, w1) \<Longrightarrow> ce_fresh ent ce \<Longrightarrow> ce_fresh ent d"
    and "multi_Check E cs ent ce w = (Ret d, w1) \<Longrightarrow> ce_fresh ent ce \<Longrightarrow> ce_fresh ent d"
  by (induction E c ent ce w and E cs ent ce w arbitrary: d w1 and d w1 rule: Core_Check_multi_Check.induct)
    (auto simp: then_do_Ret split: if_splits option.splits prod.splits)

text \<open>What a level ends with, given the hooks of the logger.\<close>

fun hook_given :: "('l, 'v, 's) CheckWriteHook option \<Rightarrow> bool" where
  "hook_given None = False"
| "hook_given (Some (Action WriteThenNoop)) = False"
| "hook_given (Some h) = True"

definition terminal_hook :: "('n, 'l, 'v, 's) Logger \<Rightarrow> Level \<Rightarrow> ('l, 'v, 's) CheckWriteHook option" where
  "terminal_hook log lvl =
     (if lvl = PanicLevel \<or> lvl = DPanicLevel \<and> development log
      then if hook_given (onPanic log) then onPanic log else Some (Action WriteThenPanic)
      else if lvl = FatalLevel
      then if hook_given (onFatal log) then onFatal log else Some (Action WriteThenFatal)
      else None)"

lemma override_given: "(if hook_given h then h else Some d) = Some (terminalHookOverride d h)"
  by (cases h rule: hook_given.cases) (simp_all add: terminalHookOverride_def)

fun terminal_outcome :: "('l, 'v, 's) CheckWriteHook option \<Rightarrow> bytes \<Rightarrow> unit outcome" where
  "terminal_outcome (Some (Action WriteThenPanic)) msg = Panics msg"
| "terminal_outcome (Some (Action WriteThenFatal)) msg = Exits 1"
| "terminal_outcome (Some (Action WriteThenGoexit)) msg = Goexits"
| "terminal_outcome _ msg = Ret ()"

lemma OnWrite_action: "hook = Action a \<Longrightarrow> OnWrite hook ent fs w = (terminal_outcome (Some hook) (Message ent), w)"
  by (cases a) (simp_all add: OnWrite_def)

lemma set_terminal_hook:
  "set_terminal log ent ce = (case terminal_hook log (ent_Level ent) of
     None \<Rightarrow> ce | Some h \<Rightarrow> Some (After ent h ce))"
  unfolding terminal_hook_def override_given by (auto simp: set_terminal_def level_simps)

text \<open>Writing a checked entry ends as its hook says, unless a marshaler panics.\<close>

lemma write_outcome:
  assumes "\<not> dirty ce" and "\<forall>h. after ce \<noteq> Some (UserHook h)"
    and "CheckedEntry_Write app F E ce fs w = ((r, ce1), w1)"
  shows "r = MarshalerPanics \<or> r = terminal_outcome (after ce) (Message (ce_Entry ce))"
proof -
  obtain ent fs1 where before: "run_before (before ce) (ce_Entry ce) fs = (ent, fs1)"
    by fastforce
  obtain x w2 where cores: "multiCore_Write app E (cores ce) ent fs1 None w = (x, w2)"
    by fastforce
  then have "benign x"
    using Core_Write_benign(2) [of app E "cores ce" ent fs1 None w] by simp
  then show ?thesis
    using assms cores before
    by (cases "after ce"; auto simp: CheckedEntry_Write_def Let_def benign_def OnWrite_action split: prod.splits)
      (metis CheckWriteHook.exhaust OnWrite_action fst_conv)+
qed

definition ce_checked :: "('n, 'l, 'v, 's) Logger \<Rightarrow> Level \<Rightarrow> bytes \<Rightarrow> ('n, 'l, 'v, 's) CheckedEntry option \<Rightarrow> bool" where
  "ce_checked log lvl msg ce =
     (case ce of
        None \<Rightarrow> terminal_hook log lvl = None
      | Some a \<Rightarrow> \<not> dirty a \<and> after a = terminal_hook log lvl \<and> Message (ce_Entry a) = msg)"

lemma annotate_keeps [simp]:
  "dirty (annotate b1 b2 pcs ce) = dirty ce" "after (annotate b1 b2 pcs ce) = after ce"
  "cores (annotate b1 b2 pcs ce) = cores ce" "before (annotate b1 b2 pcs ce) = before ce"
  "Message (ce_Entry (annotate b1 b2 pcs ce)) = Message (ce_Entry ce)"
  by (simp_all add: annotate_def Let_def)

lemma terminal_checked:
  assumes "ce_fresh ent ce" and "ent = new_entry log lvl msg s"
  shows "ce_checked log lvl msg (set_terminal log ent ce)"
  using assms by (cases ce) (auto simp: ce_checked_def set_terminal_hook new_entry_def ce_fresh_def After_def ce_or_new_def
      getCheckedEntry_def split: option.split)

lemma annotate_checked:
  assumes "0 < stack_storage env" and "ce_checked log lvl msg (Some ce)"
  shows "\<exists>ce' w'. annotate_entry env log ent ce w = (Ret (Some ce'), w') \<and> ce_checked log lvl msg (Some ce')"
proof -
  have "\<exists>pcs m. Capture (stack_frames env) (stack_storage env) skip depth = Some (pcs, m)" for skip depth
    using Capture_loop_full [OF assms(1) refl, of "stack_frames env" "Suc (Suc skip)"]
    by (cases depth) (auto simp: Capture_def)
  then obtain pcs m where "Capture (stack_frames env) (stack_storage env) (nat (callerSkip log + 2))
      (if en_Enabled (addStack log) (ent_Level (ce_Entry ce)) (outside w) then Full else First) = Some (pcs, m)"
    by blast
  then show ?thesis
    using assms(2) by (simp add: annotate_entry_def ce_checked_def Let_def)
qed

lemma check_outcome:
  assumes "0 < stack_storage env"
  shows "fst (Logger_check env log lvl msg w) = MarshalerPanics
    \<or> (\<exists>ce. fst (Logger_check env log lvl msg w) = Ret ce \<and> ce_checked log lvl msg ce)"
proof (cases "sint lvl < sint DPanicLevel \<and> \<not> Core_Enabled (lg_core log) lvl (outside w)")
  case True
  then have "terminal_hook log lvl = None"
    by (auto simp: terminal_hook_def level_simps)
  then show ?thesis
    using True by (simp add: Logger_check_def ce_checked_def)
next
  case False
  let ?ent = "new_entry log lvl msg (outside w)"
  obtain r w1 where check: "Core_Check (ops env) (lg_core log) ?ent None w = (r, w1)"
    by fastforce
  then consider "r = MarshalerPanics" | d where "r = Ret d"
    using Core_Check_benign(1) [of "ops env" "lg_core log" ?ent None w] by (auto simp: benign_def)
  then show ?thesis
  proof cases
    case 1
    then show ?thesis
      using False check by (auto simp: Logger_check_def Let_def)
  next
    case (2 d)
    then have "ce_checked log lvl msg (set_terminal log ?ent d)"
      using check fresh_check(1) terminal_checked by fastforce
    then show ?thesis
      using False check 2 annotate_checked [OF assms, of log lvl msg _ ?ent w1]
      by (cases d; cases "set_terminal log ?ent d")
        (fastforce simp: Logger_check_def Let_def set_terminal_hook split: option.splits)+
  qed
qed

lemma log_outcome:
  assumes "0 < stack_storage env" and "\<forall>h. terminal_hook log lvl \<noteq> Some (UserHook h)"
  shows "fst (Logger_Log env log lvl msg fs w) \<in> {MarshalerPanics, terminal_outcome (terminal_hook log lvl) msg}"
proof -
  obtain r w1 where check: "Logger_check env log lvl msg w = (r, w1)"
    by fastforce
  with check_outcome [OF assms(1), of log lvl msg w] consider "r = MarshalerPanics"
    | "r = Ret None" "terminal_hook log lvl = None"
    | a where "r = Ret (Some a)" "\<not> dirty a" "after a = terminal_hook log lvl" "Message (ce_Entry a) = msg"
    by (cases r; fastforce simp: ce_checked_def split: option.splits)
  then show ?thesis
  proof cases
    case 1
    then show ?thesis
      using check by (simp add: Logger_Log_def)
  next
    case 2
    then show ?thesis
      using check by (simp add: Logger_Log_def)
  next
    case (3 a)
    obtain r' ce1 w2 where "CheckedEntry_Write (multierr env) (fmt env) (ops env) a fs w1 = ((r', ce1), w2)"
      by (metis surj_pair)
    then show ?thesis
      using 3 check assms(2) write_outcome [OF 3(2)] by (auto simp: Logger_Log_def)
  qed
qed

section \<open>Properties\<close>

text \<open>C4. How logging ends: for every logger, every tree of cores and every level, a call returns to the
  caller exactly when its level is not a terminal one, panics with the message after \<^verbatim>\<open>Panic\<close>
  (and \<^verbatim>\<open>DPanic\<close> in development), and exits with status 1 after \<^verbatim>\<open>Fatal\<close>, also if the level is
  disabled and whatever fails in writing; an action given for panics or exits takes their place
  unless it is the one that does nothing.  The only exception is a panic of a marshaler.\<close>

theorem log_control_flow:
  assumes "0 < stack_storage env" and "\<forall>h. terminal_hook log lvl \<noteq> Some (UserHook h)"
  shows "fst (Logger_Log env log lvl msg fs w) \<in> {MarshalerPanics, terminal_outcome (terminal_hook log lvl) msg}"
  using assms by (rule log_outcome)

definition demo_env :: "((unit, bytes) jsonEncoder, unit, bytes) env" where
  "demo_env = \<lparr>multierr = join_errors, fmt = demo_fmt, ops = json_ops plain_std (), stack_frames = [], stack_storage = 64\<rparr>"

definition demo_clock :: "'s \<Rightarrow> unit time" where
  "demo_clock s = \<lparr>t_nanos = 5, t_loc = ()\<rparr>"

theorem log_control_flow_witness:
  "fst (Logger_Log demo_env (NewNop demo_clock) FatalLevel ''bye'' [] demo_world) \<in> {MarshalerPanics, Exits 1}"
  using log_control_flow [of demo_env "NewNop demo_clock" FatalLevel "''bye''" "[]" demo_world]
  by (simp add: demo_env_def NewNop_def terminal_hook_def level_simps)

text \<open>C13. A fatal entry is in the sink and the sink is synced when the process exits: for a new logger over
  a core that is enabled and whose encoder and sink accept the entry.\<close>

theorem fatal_written_and_synced:
  assumes "multierr_ok (multierr env)" and "en_Enabled en FatalLevel (outside w)"
    and "log = new_Logger now stderr (NewCore enc out en)"
    and "enc_EncodeEntry (ops env) (new_entry log FatalLevel msg (outside w)) fs enc = Some (Inr line)"
    and "WS_Write (multierr env) out line (outside w) = ((n, None), s1)"
  shows "Logger_Fatal env log msg fs w = (Exits 1, w\<lparr>outside := snd (WS_Sync (multierr env) out s1)\<rparr>)"
proof -
  let ?ent = "new_entry log FatalLevel msg (outside w)"
  let ?ce = "AddCore ?ent (ioCore en enc out) None"
  let ?ce2 = "(After ?ent (Action WriteThenFatal) (Some ?ce))\<lparr>ErrorOutput := Some (errorOutput log)\<rparr>"
  have "sint (FatalLevel + 1) = 6"
    by (simp add: FatalLevel_def)
  then have "Logger_check env log FatalLevel msg w = (Ret (Some ?ce2), w)"
    using assms(2,3)
    by (simp add: Logger_check_def NewCore_def new_Logger_def set_terminal_def annotate_entry_def terminalHookOverride_def
        new_entry_def level_enabler_def Level_Enabled_def AddCore_def After_def ce_or_new_def getCheckedEntry_def
        level_simps Let_def)
  moreover have "multierr env None None = None"
    using assms(1) by (simp add: multierr_left)
  then have "multiCore_Write (multierr env) (ops env) [ioCore en enc out] ?ent fs None w
      = (Ret None, w\<lparr>outside := snd (WS_Sync (multierr env) out s1)\<rparr>)"
    using assms(4,5) by (simp add: ioCore_Write_def new_entry_def level_simps)
  ultimately show ?thesis
    by (simp add: Logger_Fatal_def Logger_Log_def CheckedEntry_Write_def run_before_def OnWrite_def AddCore_def After_def
        ce_or_new_def getCheckedEntry_def Let_def)
qed

lemma demo_encode: "\<exists>line. enc_EncodeEntry (json_ops plain_std ()) (new_entry (new_Logger demo_clock out demo_core) lvl msg s) []
    production_encoder = Some (Inr line)"
proof -
  let ?ent = "new_entry (new_Logger demo_clock out demo_core) lvl msg s"
  have "has_context (cfg production_encoder) False FNil production_encoder"
    using has_context_new by (simp add: production_encoder_def NewJSONEncoder_def)
  from production.encode_entry [OF this, of "()" ?ent "[]"] show ?thesis
    by (auto simp: json_ops_def caller_panics_def new_entry_def NewEntryCaller_def)
qed

theorem fatal_written_and_synced_witness:
  "\<exists>s. Logger_Fatal demo_env (new_Logger demo_clock test_syncer demo_core) ''bye'' [] demo_world
      = (Exits 1, demo_world\<lparr>outside := s\<rparr>) \<and> sy_called s"
proof -
  obtain line where line: "enc_EncodeEntry (ops demo_env) (new_entry (new_Logger demo_clock test_syncer demo_core)
      FatalLevel ''bye'' (outside demo_world)) [] production_encoder = Some (Inr line)"
    using demo_encode by (fastforce simp: demo_env_def)
  have en: "en_Enabled (level_enabler InfoLevel) FatalLevel (outside demo_world)"
    by (simp add: level_enabler_def Level_Enabled_def level_simps)
  have wr: "WS_Write (multierr demo_env) test_syncer line (outside demo_world)
      = ((int (length line), None), (outside demo_world)\<lparr>tb_writes := tb_writes (outside demo_world) @ [line]\<rparr>)"
    by (simp add: test_syncer_def TestBuffer_Write_def)
  have ok: "multierr_ok (multierr demo_env)"
    by (simp add: demo_env_def)
  show ?thesis
    using fatal_written_and_synced [OF ok en demo_core_def [THEN arg_cong, of "new_Logger demo_clock test_syncer"] line wr]
    by (intro exI [of _ "(outside demo_world)\<lparr>tb_writes := tb_writes (outside demo_world) @ [line], sy_called := True\<rparr>"])
      (simp add: test_syncer_def TestBuffer_Sync_def)
qed

section \<open>With on loggers\<close>

context context_encoder
begin

lemma Core_Withs_encs_ok:
  fixes c :: "('n, 'l, 'v, 's) core"
  shows "Core_Withs E fss c = Some c' \<Longrightarrow> encs_ok ok c \<Longrightarrow> encs_ok ok c'"
proof (induction c arbitrary: fss c')
  case (ioCore en enc out)
  then show ?case
    using encode_withs [of enc fss] by auto
next
  case (multiCore cs)
  then obtain cs' where "c' = multiCore cs'" "list_all2 (\<lambda>c c'. Core_Withs E fss c = Some c') cs cs'"
    by (auto simp: multi_Withs_list)
  then show ?case
    using multiCore by (auto simp: list_all2_conv_all_nth list_all_length) (metis nth_mem)
qed auto

text \<open>The cores of a checked entry have good encoders.\<close>

definition ce_encs_ok :: "('n, 'l, 'v, 's) CheckedEntry option \<Rightarrow> bool" where
  "ce_encs_ok ce \<longleftrightarrow> (\<forall>a. ce = Some a \<longrightarrow> list_all (encs_ok ok) (cores a))"

lemma ce_encs_ok_simps [simp]: "ce_encs_ok None"
    "ce_encs_ok ce \<Longrightarrow> encs_ok ok c \<Longrightarrow> ce_encs_ok (Some (AddCore ent c ce))"
  by (cases ce; simp add: ce_encs_ok_def AddCore_def ce_or_new_def getCheckedEntry_def)+

lemma check_encs_ok:
  fixes c :: "('n, 'l, 'v, 's) core" and cs :: "('n, 'l, 'v, 's) core list"
  shows "Core_Check E' c ent ce w = (Ret d, w1) \<Longrightarrow> E' = E \<Longrightarrow> encs_ok ok c \<Longrightarrow> ce_encs_ok ce \<Longrightarrow> ce_encs_ok d"
    and "multi_Check E' cs ent ce w = (Ret d, w1) \<Longrightarrow> E' = E \<Longrightarrow> list_all (encs_ok ok) cs \<Longrightarrow> ce_encs_ok ce \<Longrightarrow> ce_encs_ok d"
proof (induction E' c ent ce w and E' cs ent ce w arbitrary: d w1 and d w1 rule: Core_Check_multi_Check.induct)
  case (6 E' c fs ent ce w)
  then show ?case
    using Core_Withs_encs_ok [of "[fs]" c] by (auto simp: Core_With_def split: if_splits option.splits)
qed (auto simp: then_do_Ret split: if_splits option.splits prod.splits)

text \<open>Checked entries that differ by \<^verbatim>\<open>With\<close> write the same.\<close>

lemma write_rel:
  fixes a b :: "('n, 'l, 'v, 's) CheckedEntry"
  assumes "ce_rel E fs (Some a) (Some b)" and "ce_encs_ok (Some a)" and "before a = []" and "\<not> dirty a"
    and "\<forall>h. after a \<noteq> Some (UserHook h)"
  shows "map_prod fst id (CheckedEntry_Write app F E b gs w) = map_prod fst id (CheckedEntry_Write app F E a (fs @ gs) w)"
proof -
  have rel: "list_all2 (\<lambda>c c'. Core_With E fs c = Some c') (cores a) (cores b)" and b: "b = a\<lparr>cores := cores b\<rparr>"
    using assms(1) by (simp_all add: ce_rel_def)
  have eqs: "ce_Entry b = ce_Entry a" "before b = []" "\<not> dirty b" "after b = after a" "ErrorOutput b = ErrorOutput a"
    using assms(3,4) by (subst b; simp)+
  have one: "Core_Write app E c' ent gs w = Core_Write app E c ent (fs @ gs) w"
    if "Core_With E fs c = Some c'" "encs_ok ok c" for c c' :: "('n, 'l, 'v, 's) core" and ent w
    using with_write [of "[fs]" c c' app ent gs w] that by (simp add: Core_With_def)
  have "list_all2 (\<lambda>c c'. \<forall>w. Core_Write app E c' ent gs w = Core_Write app E c ent (fs @ gs) w) (cores a) (cores b)" for ent
    using rel assms(2) by (auto simp: list_all2_conv_all_nth list_all_length ce_encs_ok_def intro!: one)
  then have cores: "multiCore_Write app E (cores b) ent gs None w = multiCore_Write app E (cores a) ent (fs @ gs) None w" for ent
    by (rule multi_write_eq)
  have hook: "OnWrite h ent gs w' = OnWrite h ent (fs @ gs) w'" if "after a = Some h" for h ent and w' :: "('l, 'v, 's) world"
    using assms(5) that by (cases h) (simp_all add: OnWrite_def)
  show ?thesis
    using assms(3,4) eqs cores
    by (simp add: CheckedEntry_Write_def run_before_def Let_def)
      (intro arg_cong2 [of _ _ _ _ Pair] arg_cong [of _ _ fst] arg_cong [of _ _ snd] then_do_cong refl;
       simp add: hook split: option.split)
qed

lemma ce_rel_Some: "ce_rel E fs (Some a) y \<longleftrightarrow>
    (\<exists>cs'. list_all2 (\<lambda>c c'. Core_With E fs c = Some c') (cores a) cs' \<and> y = Some (a\<lparr>cores := cs'\<rparr>))"
  by (cases y) (auto simp: ce_rel_def)

lemma ce_rel_After: "ce_rel E fs a b \<Longrightarrow> ce_rel E fs (Some (After ent h a)) (Some (After ent h b))"
  by (cases a) (auto simp: ce_rel_Some After_def ce_or_new_def getCheckedEntry_def)

lemma ce_rel_terminal:
  assumes "ce_rel E fs a b"
  shows "ce_rel E fs (set_terminal log ent a) (set_terminal (log\<lparr>lg_core := c\<rparr>) ent b)"
  using assms by (auto simp: set_terminal_def ce_rel_After)

lemma annotate_cores: "annotate b1 b2 pcs (a\<lparr>cores := cs, ErrorOutput := eo\<rparr>)
    = (annotate b1 b2 pcs (a\<lparr>ErrorOutput := eo\<rparr>))\<lparr>cores := cs\<rparr>"
  by (simp add: annotate_def Let_def)

lemma ce_rel_annotate:
  assumes "ce_rel E fs (Some a) (Some b)"
  obtains r r' w1 where "annotate_entry env log ent a w = (r, w1)"
    "annotate_entry env (log\<lparr>lg_core := c\<rparr>) ent b w = (r', w1)"
    "r = Diverges \<and> r' = Diverges \<or> (\<exists>x y. r = Ret (Some x) \<and> r' = Ret (Some y) \<and> ce_rel E fs (Some x) (Some y)
       \<and> after x = after a \<and> before x = before a \<and> dirty x = dirty a \<and> cores x = cores a)"
proof -
  obtain cs' where b: "b = a\<lparr>cores := cs'\<rparr>" "list_all2 (\<lambda>c c'. Core_With E fs c = Some c') (cores a) cs'"
    using assms by (auto simp: ce_rel_Some)
  show thesis
    by (rule that [of "fst (annotate_entry env log ent a w)" "snd (annotate_entry env log ent a w)"
          "fst (annotate_entry env (log\<lparr>lg_core := c\<rparr>) ent b w)"])
      (use b in \<open>auto simp: annotate_entry_def ce_rel_Some annotate_cores Let_def split: option.splits prod.splits\<close>)
qed

lemma terminal_facts:
  assumes "ce_fresh ent d" and "set_terminal log ent d = Some a"
  shows "\<not> dirty a" and "before a = []" and "after a = terminal_hook log (ent_Level ent)"
    and "ce_encs_ok d \<Longrightarrow> ce_encs_ok (Some a)"
  using assms by (cases d; auto simp: set_terminal_hook ce_fresh_def After_def ce_or_new_def getCheckedEntry_def ce_encs_ok_def
      split: option.splits)+

lemma check_enabled:
  "\<not> (sint lvl < sint DPanicLevel \<and> \<not> Core_Enabled (lg_core log) lvl (outside w)) \<Longrightarrow> Logger_check env log lvl msg w =
     then_do (Core_Check (ops env) (lg_core log) (new_entry log lvl msg (outside w)) None w)
       (\<lambda>ce w1. case (ce, set_terminal log (new_entry log lvl msg (outside w)) ce) of
          (Some _, Some ce2) \<Rightarrow> annotate_entry env log (new_entry log lvl msg (outside w)) ce2 w1
        | (_, ce2) \<Rightarrow> (Ret ce2, w1))"
  by (simp only: Logger_check_def if_False Let_def)

lemma write_fst: "(case p of ((r, x), w2) \<Rightarrow> (r, w2)) = map_prod fst id p"
  by (auto split: prod.split)

lemma logger_with:
  assumes E: "ops env = E" and c': "Core_With E fs (lg_core log) = Some c'" and enc: "encs_ok ok (lg_core log)"
    and lazy: "lazy_ok False (lg_core log)" and hook: "\<forall>h. terminal_hook log lvl \<noteq> Some (UserHook h)"
  shows "Logger_Log env (log\<lparr>lg_core := c'\<rparr>) lvl msg gs w = Logger_Log env log lvl msg (fs @ gs) w"
proof (cases "sint lvl < sint DPanicLevel \<and> \<not> Core_Enabled (lg_core log) lvl (outside w)")
  case True
  moreover have "Core_Enabled c' lvl (outside w) = Core_Enabled (lg_core log) lvl (outside w)"
    using Core_Withs_Enabled(1) c' by (simp add: Core_With_def)
  ultimately show ?thesis
    by (simp add: Logger_Log_def Logger_check_def)
next
  case False
  let ?ent = "new_entry log lvl msg (outside w)"
  have en: "Core_Enabled c' lvl (outside w) = Core_Enabled (lg_core log) lvl (outside w)"
    using Core_Withs_Enabled(1) c' by (simp add: Core_With_def)
  obtain d d' w1 where check: "Core_Check E (lg_core log) ?ent None w = (Ret d, w1)"
      "Core_Check E c' ?ent None w = (Ret d', w1)" "ce_rel E fs d d'"
    using check_with(1) [OF c', of None None False ?ent w] lazy by auto
  have fresh: "ce_fresh ?ent d" and encs: "ce_encs_ok d"
    using fresh_check(1) [OF check(1)] check_encs_ok(1) [OF check(1) refl enc] by simp_all
  have rel: "ce_rel E fs (set_terminal log ?ent d) (set_terminal (log\<lparr>lg_core := c'\<rparr>) ?ent d')"
    by (rule ce_rel_terminal [OF check(3)])
  have ent: "new_entry (log\<lparr>lg_core := c'\<rparr>) lvl msg (outside w) = ?ent" "ent_Level ?ent = lvl"
    by (simp_all add: new_entry_def)
  note facts = terminal_facts [OF fresh, of log]
  show ?thesis
  proof (cases "set_terminal log ?ent d")
    case None
    then have "d = None" "d' = None" "set_terminal (log\<lparr>lg_core := c'\<rparr>) ?ent d' = None"
      using rel check(3) by (auto simp: set_terminal_hook split: option.splits)
    then show ?thesis
      using None False en check ent E by (simp add: Logger_Log_def check_enabled)
  next
    case (Some a)
    then obtain b where b: "set_terminal (log\<lparr>lg_core := c'\<rparr>) ?ent d' = Some b" "ce_rel E fs (Some a) (Some b)"
      using rel by (cases "set_terminal (log\<lparr>lg_core := c'\<rparr>) ?ent d'") auto
    show ?thesis
    proof (cases d)
      case None
      then show ?thesis
        using Some b False en check ent E facts [OF Some] hook encs write_rel [OF b(2), of "multierr env" "fmt env" gs w1]
        by (simp add: Logger_Log_def check_enabled write_fst)
    next
      case (Some d1)
      note d1 = this
      obtain d1' where d1': "d' = Some d1'"
        using check(3) d1 by (cases d') auto
      obtain r r' w2 where ann: "annotate_entry env log ?ent a w1 = (r, w2)"
          "annotate_entry env (log\<lparr>lg_core := c'\<rparr>) ?ent b w1 = (r', w2)"
          "r = Diverges \<and> r' = Diverges \<or> (\<exists>x y. r = Ret (Some x) \<and> r' = Ret (Some y) \<and> ce_rel E fs (Some x) (Some y)
             \<and> after x = after a \<and> before x = before a \<and> dirty x = dirty a \<and> cores x = cores a)"
        by (rule ce_rel_annotate [OF b(2)])
      show ?thesis
        using ann(3)
      proof (elim disjE exE conjE)
        assume "r = Diverges" "r' = Diverges"
        then show ?thesis
          using d1 d1' \<open>set_terminal log ?ent d = Some a\<close> b ann False en check ent E
          by (simp add: Logger_Log_def check_enabled)
      next
        fix x y
        assume x: "r = Ret (Some x)" "r' = Ret (Some y)" "ce_rel E fs (Some x) (Some y)" "after x = after a"
          "before x = before a" "dirty x = dirty a" "cores x = cores a"
        then have "ce_encs_ok (Some x)"
          using facts(4) [OF \<open>set_terminal log ?ent d = Some a\<close> encs] by (simp add: ce_encs_ok_def)
        then show ?thesis
          using d1 d1' \<open>set_terminal log ?ent d = Some a\<close> b ann(1,2) False en check ent E x hook
            facts [OF \<open>set_terminal log ?ent d = Some a\<close>] write_rel [OF x(3), of "multierr env" "fmt env" gs w2]
          by (simp add: Logger_Log_def check_enabled write_fst)
      qed
    qed
  qed
qed

end

text \<open>C14. Fields given to \<^verbatim>\<open>Logger.With\<close> act exactly like fields given at the call, before the others: the
  same bytes go to the same sinks in the same order, the same counters change and the call ends the
  same way, for every tree of cores with JSON encoders, whether or not the level is enabled.\<close>

theorem logger_with_is_transparent:
  assumes "encoder_contract G cf" and "ops env = json_ops G local" and "encs_ok (json_context cf) (lg_core log)"
    and "lazy_ok False (lg_core log)" and "\<forall>h. terminal_hook log lvl \<noteq> Some (UserHook h)"
    and "Logger_With env fs log = Some log'"
  shows "Logger_Log env log' lvl msg gs w = Logger_Log env log lvl msg (fs @ gs) w"
proof (cases "fs = []")
  case True
  then show ?thesis
    using assms(6) by (simp add: Logger_With_def)
next
  case False
  then obtain c' where "Core_With (json_ops G local) fs (lg_core log) = Some c'" "log' = log\<lparr>lg_core := c'\<rparr>"
    using assms(2,6) by (auto simp: Logger_With_def)
  then show ?thesis
    using context_encoder.logger_with [OF json_context_encoder [OF assms(1)] assms(2) _ assms(3-5)] by simp
qed

text \<open>The core of the witness: a tee with hooks and a sampler.\<close>

definition demo_logger :: "((unit, bytes) jsonEncoder, unit, bytes, bytes TestBuffer) Logger" where
  "demo_logger = new_Logger demo_clock test_syncer
     (NewTee [hooked demo_core [\<lambda>ent s. (None, s)], sampler demo_core 0 1000 1 2 (\<lambda>ent d s. s)])"

lemma demo_ops: "ops demo_env = json_ops plain_std ()"
  by (simp add: demo_env_def)

lemma demo_with: "\<exists>log'. Logger_With demo_env [Bool_field ''a'' True] demo_logger = Some log'"
proof -
  have "cfg (json_Clone production_encoder) = cfg production_encoder"
    by (simp add: clone_emit)
  from production.fields_step [OF this, of "addFields () [Bool_field ''a'' True]"]
  obtain e where "enc_addFields (json_ops plain_std ()) [Bool_field ''a'' True]
      (enc_Clone (json_ops plain_std ()) production_encoder) = Some e"
    by (simp add: json_ops_def Field_AddTo_def field_ctor_defs add_prim_def val_json_def)
  then show ?thesis
    by (simp add: Logger_With_def demo_ops demo_logger_def new_Logger_def NewTee_def Core_With_def demo_core_def NewCore_def)
qed

theorem logger_with_is_transparent_witness:
  "\<exists>log'. Logger_With demo_env [Bool_field ''a'' True] demo_logger = Some log'
    \<and> Logger_Log demo_env log' WarnLevel ''m'' [] demo_world
      = Logger_Log demo_env demo_logger WarnLevel ''m'' [Bool_field ''a'' True] demo_world"
proof -
  obtain log' where log': "Logger_With demo_env [Bool_field ''a'' True] demo_logger = Some log'"
    using demo_with by blast
  have ok: "encs_ok (json_context (cfg production_encoder)) (lg_core demo_logger)" "lazy_ok False (lg_core demo_logger)"
    by (simp_all add: demo_logger_def new_Logger_def NewTee_def demo_core_def NewCore_def json_context_production)
  have "\<forall>h. terminal_hook demo_logger WarnLevel \<noteq> Some (UserHook h)"
    by (simp add: terminal_hook_def level_simps)
  from logger_with_is_transparent [OF production.contract demo_ops ok this log', of "''m''" "[]" demo_world] log'
  show ?thesis by simp
qed

lemma lg_core_irrelevant:
  "annotate_entry env (log\<lparr>lg_core := c\<rparr>) ent ce w = annotate_entry env log ent ce w"
  "set_terminal (log\<lparr>lg_core := c\<rparr>) ent cf = set_terminal log ent cf"
  "new_entry (log\<lparr>lg_core := c\<rparr>) lvl msg s = new_entry log lvl msg s"
  by (simp_all add: annotate_entry_def set_terminal_def new_entry_def Let_def cong: if_cong option.case_cong)

text \<open>A lazy child logger whose fields do not change logs exactly as one made by \<^verbatim>\<open>With\<close>, for every encoder and every
  tree of cores, provided the fields can be marshaled.  Fields that change are in theory \<^verbatim>\<open>Lazy_With\<close>.\<close>

lemma with_lazy_equals_with:
  assumes "Logger_With env fs log = Some log'"
  shows "Logger_Log env (Logger_WithLazy fs log) lvl msg gs w = Logger_Log env log' lvl msg gs w"
proof (cases "fs = []")
  case True
  then show ?thesis
    using assms by (simp add: Logger_With_def Logger_WithLazy_def)
next
  case False
  then obtain c' where c': "Core_With (ops env) fs (lg_core log) = Some c'" "log' = log\<lparr>lg_core := c'\<rparr>"
    using assms by (auto simp: Logger_With_def)
  have en: "Core_Enabled c' l s = Core_Enabled (lg_core log) l s" for l s
    using Core_Withs_Enabled(1) c'(1) by (simp add: Core_With_def)
  have check: "Core_Check (ops env) (lazyWithCore (lg_core log) fs) ent None w = Core_Check (ops env) c' ent None w" for ent w
    using c'(1) disabled_check(1) [of c' ent w None "ops env"] by (simp add: en)
  then show ?thesis
    using False c'(2)
    by (simp add: Logger_Log_def Logger_check_def Logger_WithLazy_def NewLazyWith_def en check Let_def lg_core_irrelevant
        del: Core_Check.simps cong: option.case_cong)
qed

end
