(* ===== verification/Sugar.thy ===== *)
theory Sugar
  imports Logger
begin

text \<open>
  \<^verbatim>\<open>src/sugar.go\<close>: the loosely typed logger.  A sugared logger is its base logger.  The arguments that
  a caller passes are Go values of any type; \<^verbatim>\<open>sweetenFields\<close> sorts them into fields and mistakes, and
  reports the mistakes through the base logger.
\<close>

section \<open>Arguments\<close>

text \<open>An argument is a \<^verbatim>\<open>Field\<close>, a value that implements \<^verbatim>\<open>error\<close> (with the value as \<^verbatim>\<open>Any\<close> sees it, which
  may prefer another interface of it), or another value.\<close>

datatype ('l, 'v) arg =
    FieldArg "('l, 'v) Field"
  | ErrorArg goerror "('l, 'v) goval"
  | Arg "('l, 'v) goval"

text \<open>What the sugared logger uses of \<^verbatim>\<open>fmt\<close> and \<^verbatim>\<open>time\<close>; \<open>field_value\<close> is a \<^verbatim>\<open>Field\<close> as a value for
  reflection.  The frames are those of the calls inside the package: \<^verbatim>\<open>Logger.Check\<close>, \<^verbatim>\<open>Logger.Error\<close>, \<^verbatim>\<open>SugaredLogger.log\<close>
  (or \<^verbatim>\<open>logln\<close>), \<^verbatim>\<open>SugaredLogger.sweetenFields\<close> and the method that was called.\<close>

record ('l, 'v) sugar_std =
  Sprint :: "('l, 'v) arg list \<Rightarrow> bytes"
  Sprintf :: "bytes \<Rightarrow> ('l, 'v) arg list \<Rightarrow> bytes"
  Sprintln :: "('l, 'v) arg list \<Rightarrow> bytes"
  time_Local :: 'l
  field_value :: "('l, 'v) Field \<Rightarrow> 'v"
  frame_Check :: Frame
  frame_Error :: Frame
  frame_log :: Frame
  frame_sweeten :: Frame
  frame_method :: Frame

text \<open>The assertions \<^verbatim>\<open>arg.(error)\<close> and \<^verbatim>\<open>arg.(string)\<close>, and the argument as a value for \<^verbatim>\<open>Any\<close>.\<close>

fun arg_error :: "('l, 'v) arg \<Rightarrow> goerror option" where
  "arg_error (ErrorArg e v) = Some e"
| "arg_error (Arg (GError e)) = Some e"
| "arg_error _ = None"

fun arg_string :: "('l, 'v) arg \<Rightarrow> bytes option" where
  "arg_string (Arg (GString (Plain s))) = Some s"
| "arg_string _ = None"

fun arg_value :: "('l, 'v) sugar_std \<Rightarrow> ('l, 'v) arg \<Rightarrow> ('l, 'v) goval" where
  "arg_value U (FieldArg f) = GOther (field_value U f)"
| "arg_value U (ErrorArg e v) = v"
| "arg_value U (Arg v) = v"

definition arg_Any :: "('l, 'v) sugar_std \<Rightarrow> bytes \<Rightarrow> ('l, 'v) arg \<Rightarrow> ('l, 'v) Field" where
  "arg_Any U key a = Any_field (time_Local U) key (arg_value U a)"

section \<open>Sweetening\<close>

definition oddNumberErrMsg :: bytes where
  "oddNumberErrMsg = ''Ignored key without a value.''"

definition nonStringKeyErrMsg :: bytes where
  "nonStringKeyErrMsg = ''Ignored key-value pairs with non-string keys.''"

definition multipleErrMsg :: bytes where
  "multipleErrMsg = ''Multiple errors without a key.''"

record ('l, 'v) invalidPair =
  position :: nat
  ip_key :: "('l, 'v) arg"
  ip_value :: "('l, 'v) arg"

definition invalidPair_MarshalLogObject :: "('l, 'v) sugar_std \<Rightarrow> ('l, 'v) invalidPair \<Rightarrow> ('l time, 'v) omarsh" where
  "invalidPair_MarshalLogObject U p =
     OAdd ''position'' (VPrim (PInt64 (of_nat (position p))))
       (\<lambda>_. obind (Field_AddTo (time_Local U) (arg_Any U ''key'' (ip_key p)))
       (\<lambda>_. obind (Field_AddTo (time_Local U) (arg_Any U ''value'' (ip_value p))) (\<lambda>_. ORet None)))"

fun invalidPairs_loop :: "('l, 'v) sugar_std \<Rightarrow> (bytes option \<Rightarrow> bytes option \<Rightarrow> bytes option) \<Rightarrow> bytes option
      \<Rightarrow> ('l, 'v) invalidPair list \<Rightarrow> ('l time, 'v) amarsh" where
  "invalidPairs_loop U app err [] = ARet err"
| "invalidPairs_loop U app err (p # ps) =
     AAppend (VObject (invalidPair_MarshalLogObject U p)) (\<lambda>e. invalidPairs_loop U app (app err e) ps)"

definition invalidPairs_MarshalLogArray :: "('l, 'v) sugar_std \<Rightarrow> (bytes option \<Rightarrow> bytes option \<Rightarrow> bytes option)
      \<Rightarrow> ('l, 'v) invalidPair list \<Rightarrow> ('l time, 'v) amarsh" where
  "invalidPairs_MarshalLogArray U app ps = invalidPairs_loop U app None ps"

text \<open>The loop of \<^verbatim>\<open>sweetenFields\<close>: \<open>i\<close> is the index of the first of the remaining arguments.\<close>

fun sweeten_loop :: "('l, 'v) sugar_std \<Rightarrow> ('n, 'l, 'v) env \<Rightarrow> ('n, 'l, 'v, 's) Logger \<Rightarrow> nat \<Rightarrow> ('l, 'v) arg list
      \<Rightarrow> ('l, 'v) Field list \<Rightarrow> ('l, 'v) invalidPair list \<Rightarrow> bool \<Rightarrow> ('l, 'v, 's) world
      \<Rightarrow> (('l, 'v) Field list \<times> ('l, 'v) invalidPair list) outcome \<times> ('l, 'v, 's) world" where
  "sweeten_loop U env base i [] flds invalid seenError w = (Ret (flds, invalid), w)"
| "sweeten_loop U env base i (FieldArg f # args) flds invalid seenError w =
     sweeten_loop U env base (i + 1) args (flds @ [f]) invalid seenError w"
| "sweeten_loop U env base i (a # args) flds invalid seenError w =
     (case arg_error a of
        Some err \<Rightarrow>
          if \<not> seenError then sweeten_loop U env base (i + 1) args (flds @ [Error_field (Some err)]) invalid True w
          else then_do (Logger_Error env base multipleErrMsg [Error_field (Some err)] w)
                 (\<lambda>_ w1. sweeten_loop U env base (i + 1) args flds invalid seenError w1)
      | None \<Rightarrow>
          (case args of
             [] \<Rightarrow> then_do (Logger_Error env base oddNumberErrMsg [arg_Any U ''ignored'' a] w)
                     (\<lambda>_ w1. (Ret (flds, invalid), w1))
           | val # rest \<Rightarrow>
               (case arg_string a of
                  None \<Rightarrow> sweeten_loop U env base (i + 2) rest flds
                            (invalid @ [\<lparr>position = i, ip_key = a, ip_value = val\<rparr>]) seenError w
                | Some key \<Rightarrow> sweeten_loop U env base (i + 2) rest (flds @ [arg_Any U key val]) invalid seenError w)))"

definition sweetenFields :: "('l, 'v) sugar_std \<Rightarrow> ('n, 'l, 'v) env \<Rightarrow> ('n, 'l, 'v, 's) Logger \<Rightarrow> ('l, 'v) arg list
      \<Rightarrow> ('l, 'v, 's) world \<Rightarrow> ('l, 'v) Field list outcome \<times> ('l, 'v, 's) world" where
  "sweetenFields U env base args w =
     (if args = [] then (Ret [], w)
      else then_do (sweeten_loop U env base 0 args [] [] False w)
        (\<lambda>(flds, invalid) w1.
           if invalid \<noteq> [] then
             then_do (Logger_Error env base nonStringKeyErrMsg
                 [Array_field ''invalid'' (invalidPairs_MarshalLogArray U (multierr env) invalid)] w1)
               (\<lambda>_ w2. (Ret flds, w2))
           else (Ret flds, w1)))"

section \<open>Messages and logging\<close>

definition getMessage :: "('l, 'v) sugar_std \<Rightarrow> bytes \<Rightarrow> ('l, 'v) arg list \<Rightarrow> bytes" where
  "getMessage U template fmtArgs =
     (if fmtArgs = [] then template
      else if template \<noteq> [] then Sprintf U template fmtArgs
      else case fmtArgs of
             [a] \<Rightarrow> (case arg_string a of Some str \<Rightarrow> str | None \<Rightarrow> Sprint U fmtArgs)
           | _ \<Rightarrow> Sprint U fmtArgs)"

definition getMessageln :: "('l, 'v) sugar_std \<Rightarrow> ('l, 'v) arg list \<Rightarrow> bytes" where
  "getMessageln U fmtArgs = (let msg = Sprintln U fmtArgs in take (length msg - 1) msg)"

text \<open>The stack.  The frames of the environment are those of a typed call: \<^verbatim>\<open>runtime.Callers\<close>, \<^verbatim>\<open>Capture\<close>, \<^verbatim>\<open>check\<close>, the
  method of the logger, and its callers.  Where a sugared method takes its place, \<^verbatim>\<open>check\<close> is called by \<^verbatim>\<open>Logger.Check\<close>, that by
  \<^verbatim>\<open>log\<close>, and that by the method; a report of \<^verbatim>\<open>sweetenFields\<close> is a call of \<^verbatim>\<open>Logger.Error\<close> from there.\<close>

definition check_frames :: "('l, 'v) sugar_std \<Rightarrow> Frame list \<Rightarrow> Frame list" where
  "check_frames U fr = take 3 fr @ [frame_Check U, frame_log U, frame_method U] @ drop 4 fr"

definition report_frames :: "('l, 'v) sugar_std \<Rightarrow> Frame list \<Rightarrow> Frame list \<Rightarrow> Frame list" where
  "report_frames U callers fr = take 3 fr @ [frame_Error U, frame_sweeten U] @ callers @ drop 4 fr"

definition on_stack :: "(Frame list \<Rightarrow> Frame list) \<Rightarrow> ('n, 'l, 'v) env \<Rightarrow> ('n, 'l, 'v) env" where
  "on_stack frs env = env\<lparr>stack_frames := frs (stack_frames env)\<rparr>"

lemma on_stack_simps [simp]: "multierr (on_stack frs env) = multierr env" "fmt (on_stack frs env) = fmt env"
    "ops (on_stack frs env) = ops env" "stack_storage (on_stack frs env) = stack_storage env"
    "stack_frames (on_stack frs env) = frs (stack_frames env)"
  by (simp_all add: on_stack_def)

definition sugar_write :: "('l, 'v) sugar_std \<Rightarrow> ('n, 'l, 'v) env \<Rightarrow> ('n, 'l, 'v, 's) Logger \<Rightarrow> Level \<Rightarrow> bytes
      \<Rightarrow> ('l, 'v) arg list \<Rightarrow> ('l, 'v, 's) world \<Rightarrow> unit outcome \<times> ('l, 'v, 's) world" where
  "sugar_write U env base lvl msg ctx w =
     then_do (Logger_Check (on_stack (check_frames U) env) base lvl msg w)
       (\<lambda>ce w1. case ce of
          None \<Rightarrow> (Ret (), w1)
        | Some ce \<Rightarrow>
            then_do (sweetenFields U (on_stack (report_frames U [frame_log U, frame_method U]) env) base ctx w1)
              (\<lambda>fs w2. case CheckedEntry_Write (multierr env) (fmt env) (ops env) ce fs w2 of ((r, _), w3) \<Rightarrow> (r, w3)))"

definition sugar_log :: "('l, 'v) sugar_std \<Rightarrow> ('n, 'l, 'v) env \<Rightarrow> ('n, 'l, 'v, 's) Logger \<Rightarrow> Level \<Rightarrow> bytes
      \<Rightarrow> ('l, 'v) arg list \<Rightarrow> ('l, 'v) arg list \<Rightarrow> ('l, 'v, 's) world \<Rightarrow> unit outcome \<times> ('l, 'v, 's) world" where
  "sugar_log U env base lvl template fmtArgs ctx w =
     (if sint lvl < sint DPanicLevel \<and> \<not> Core_Enabled (lg_core base) lvl (outside w) then (Ret (), w)
      else sugar_write U env base lvl (getMessage U template fmtArgs) ctx w)"

definition sugar_logln :: "('l, 'v) sugar_std \<Rightarrow> ('n, 'l, 'v) env \<Rightarrow> ('n, 'l, 'v, 's) Logger \<Rightarrow> Level
      \<Rightarrow> ('l, 'v) arg list \<Rightarrow> ('l, 'v) arg list \<Rightarrow> ('l, 'v, 's) world \<Rightarrow> unit outcome \<times> ('l, 'v, 's) world" where
  "sugar_logln U env base lvl fmtArgs ctx w =
     (if sint lvl < sint DPanicLevel \<and> \<not> Core_Enabled (lg_core base) lvl (outside w) then (Ret (), w)
      else sugar_write U env base lvl (getMessageln U fmtArgs) ctx w)"

section \<open>Child loggers\<close>

definition Sugar_Desugar :: "('n, 'l, 'v, 's) Logger \<Rightarrow> ('n, 'l, 'v, 's) Logger" where
  "Sugar_Desugar base = base\<lparr>callerSkip := callerSkip base - 2\<rparr>"

definition Sugar_Named :: "bytes \<Rightarrow> ('n, 'l, 'v, 's) Logger \<Rightarrow> ('n, 'l, 'v, 's) Logger" where
  "Sugar_Named name base = Logger_Named name base"

definition Sugar_WithOptions :: "('n, 'l, 'v, 's) Opt list \<Rightarrow> ('n, 'l, 'v, 's) Opt" where
  "Sugar_WithOptions opts base w = WithOptions opts base w"

definition Sugar_With :: "('l, 'v) sugar_std \<Rightarrow> ('n, 'l, 'v) env \<Rightarrow> ('l, 'v) arg list \<Rightarrow> ('n, 'l, 'v, 's) Opt" where
  "Sugar_With U env args base w =
     then_do (sweetenFields U (on_stack (report_frames U [frame_method U]) env) base args w)
       (\<lambda>fs w1. case Logger_With env fs base of None \<Rightarrow> (MarshalerPanics, w1) | Some log \<Rightarrow> (Ret log, w1))"

definition Sugar_WithLazy :: "('l, 'v) sugar_std \<Rightarrow> ('n, 'l, 'v) env \<Rightarrow> ('l, 'v) arg list \<Rightarrow> ('n, 'l, 'v, 's) Opt" where
  "Sugar_WithLazy U env args base w =
     then_do (sweetenFields U (on_stack (report_frames U [frame_method U]) env) base args w) (\<lambda>fs w1. (Ret (Logger_WithLazy fs base), w1))"

definition Sugar_Level :: "('n, 'l, 'v, 's) Logger \<Rightarrow> 's \<Rightarrow> Level" where
  "Sugar_Level base s = Core_LevelOf (lg_core base) s"

definition Sugar_Sync :: "('n, 'l, 'v) env \<Rightarrow> ('n, 'l, 'v, 's) Logger \<Rightarrow> ('l, 'v, 's) world
      \<Rightarrow> bytes option outcome \<times> ('l, 'v, 's) world" where
  "Sugar_Sync env base w = Logger_Sync env base w"

section \<open>The methods of the levels\<close>

definition Sugar_Log where "Sugar_Log U env base lvl args w = sugar_log U env base lvl [] args [] w"
definition Sugar_Debug where "Sugar_Debug U env base args w = sugar_log U env base DebugLevel [] args [] w"
definition Sugar_Info where "Sugar_Info U env base args w = sugar_log U env base InfoLevel [] args [] w"
definition Sugar_Warn where "Sugar_Warn U env base args w = sugar_log U env base WarnLevel [] args [] w"
definition Sugar_Error where "Sugar_Error U env base args w = sugar_log U env base ErrorLevel [] args [] w"
definition Sugar_DPanic where "Sugar_DPanic U env base args w = sugar_log U env base DPanicLevel [] args [] w"
definition Sugar_Panic where "Sugar_Panic U env base args w = sugar_log U env base PanicLevel [] args [] w"
definition Sugar_Fatal where "Sugar_Fatal U env base args w = sugar_log U env base FatalLevel [] args [] w"
definition Sugar_Logf where "Sugar_Logf U env base lvl template args w = sugar_log U env base lvl template args [] w"
definition Sugar_Debugf where "Sugar_Debugf U env base template args w = sugar_log U env base DebugLevel template args [] w"
definition Sugar_Infof where "Sugar_Infof U env base template args w = sugar_log U env base InfoLevel template args [] w"
definition Sugar_Warnf where "Sugar_Warnf U env base template args w = sugar_log U env base WarnLevel template args [] w"
definition Sugar_Errorf where "Sugar_Errorf U env base template args w = sugar_log U env base ErrorLevel template args [] w"
definition Sugar_DPanicf where "Sugar_DPanicf U env base template args w = sugar_log U env base DPanicLevel template args [] w"
definition Sugar_Panicf where "Sugar_Panicf U env base template args w = sugar_log U env base PanicLevel template args [] w"
definition Sugar_Fatalf where "Sugar_Fatalf U env base template args w = sugar_log U env base FatalLevel template args [] w"
definition Sugar_Logw where "Sugar_Logw U env base lvl msg kvs w = sugar_log U env base lvl msg [] kvs w"
definition Sugar_Debugw where "Sugar_Debugw U env base msg kvs w = sugar_log U env base DebugLevel msg [] kvs w"
definition Sugar_Infow where "Sugar_Infow U env base msg kvs w = sugar_log U env base InfoLevel msg [] kvs w"
definition Sugar_Warnw where "Sugar_Warnw U env base msg kvs w = sugar_log U env base WarnLevel msg [] kvs w"
definition Sugar_Errorw where "Sugar_Errorw U env base msg kvs w = sugar_log U env base ErrorLevel msg [] kvs w"
definition Sugar_DPanicw where "Sugar_DPanicw U env base msg kvs w = sugar_log U env base DPanicLevel msg [] kvs w"
definition Sugar_Panicw where "Sugar_Panicw U env base msg kvs w = sugar_log U env base PanicLevel msg [] kvs w"
definition Sugar_Fatalw where "Sugar_Fatalw U env base msg kvs w = sugar_log U env base FatalLevel msg [] kvs w"
definition Sugar_Logln where "Sugar_Logln U env base lvl args w = sugar_logln U env base lvl args [] w"
definition Sugar_Debugln where "Sugar_Debugln U env base args w = sugar_logln U env base DebugLevel args [] w"
definition Sugar_Infoln where "Sugar_Infoln U env base args w = sugar_logln U env base InfoLevel args [] w"
definition Sugar_Warnln where "Sugar_Warnln U env base args w = sugar_logln U env base WarnLevel args [] w"
definition Sugar_Errorln where "Sugar_Errorln U env base args w = sugar_logln U env base ErrorLevel args [] w"
definition Sugar_DPanicln where "Sugar_DPanicln U env base args w = sugar_logln U env base DPanicLevel args [] w"
definition Sugar_Panicln where "Sugar_Panicln U env base args w = sugar_logln U env base PanicLevel args [] w"
definition Sugar_Fatalln where "Sugar_Fatalln U env base args w = sugar_logln U env base FatalLevel args [] w"

section \<open>What sweetening means\<close>

text \<open>The arguments as the documentation describes them: typed fields, errors without a key, key-value
  pairs, pairs whose key is not a string, and a last key without a value.\<close>

datatype ('l, 'v) item =
    KField "('l, 'v) Field"
  | KError goerror "('l, 'v) arg"
  | KPair bytes "('l, 'v) arg" "('l, 'v) arg"
  | KInvalid "('l, 'v) invalidPair"
  | KDangling "('l, 'v) arg"

fun sort_args :: "nat \<Rightarrow> ('l, 'v) arg list \<Rightarrow> ('l, 'v) item list" where
  "sort_args i [] = []"
| "sort_args i (FieldArg f # args) = KField f # sort_args (i + 1) args"
| "sort_args i (a # args) =
     (case arg_error a of
        Some err \<Rightarrow> KError err a # sort_args (i + 1) args
      | None \<Rightarrow>
          (case args of
             [] \<Rightarrow> [KDangling a]
           | val # rest \<Rightarrow>
               (case arg_string a of
                  None \<Rightarrow> KInvalid \<lparr>position = i, ip_key = a, ip_value = val\<rparr>
                | Some key \<Rightarrow> KPair key a val) # sort_args (i + 2) rest))"

fun item_args :: "('l, 'v) item \<Rightarrow> ('l, 'v) arg list" where
  "item_args (KField f) = [FieldArg f]"
| "item_args (KError err a) = [a]"
| "item_args (KPair key a val) = [a, val]"
| "item_args (KInvalid p) = [ip_key p, ip_value p]"
| "item_args (KDangling a) = [a]"

text \<open>The items that become fields, and those that are reported: all but the first of the errors
  without a key, invalid pairs and a dangling key.\<close>

fun item_ok :: "bool \<Rightarrow> ('l, 'v) item \<Rightarrow> bool" where
  "item_ok seen (KError err a) = (\<not> seen)"
| "item_ok seen (KInvalid p) = False"
| "item_ok seen (KDangling a) = False"
| "item_ok seen _ = True"

fun is_error :: "('l, 'v) item \<Rightarrow> bool" where
  "is_error (KError err a) = True"
| "is_error _ = False"

fun accepted :: "bool \<Rightarrow> ('l, 'v) item list \<Rightarrow> ('l, 'v) item list" where
  "accepted seen [] = []"
| "accepted seen (x # xs) = (if item_ok seen x then [x] else []) @ accepted (seen \<or> is_error x) xs"

fun rejected :: "bool \<Rightarrow> ('l, 'v) item list \<Rightarrow> ('l, 'v) item list" where
  "rejected seen [] = []"
| "rejected seen (x # xs) = (if item_ok seen x then [] else [x]) @ rejected (seen \<or> is_error x) xs"

fun item_field :: "('l, 'v) sugar_std \<Rightarrow> ('l, 'v) item \<Rightarrow> ('l, 'v) Field" where
  "item_field U (KField f) = f"
| "item_field U (KError err a) = Error_field (Some err)"
| "item_field U (KPair key a val) = arg_Any U key val"
| "item_field U _ = Skip_field"

text \<open>The reports: one for each surplus error and for a dangling key, in the order of the arguments, and
  one for all invalid pairs at the end.\<close>

fun item_reports :: "('l, 'v) sugar_std \<Rightarrow> ('l, 'v) item \<Rightarrow> (bytes \<times> ('l, 'v) Field list) list" where
  "item_reports U (KError err a) = [(multipleErrMsg, [Error_field (Some err)])]"
| "item_reports U (KDangling a) = [(oddNumberErrMsg, [arg_Any U ''ignored'' a])]"
| "item_reports U _ = []"

fun item_invalid :: "('l, 'v) item \<Rightarrow> ('l, 'v) invalidPair list" where
  "item_invalid (KInvalid p) = [p]"
| "item_invalid _ = []"

definition reports :: "('l, 'v) sugar_std \<Rightarrow> (bytes option \<Rightarrow> bytes option \<Rightarrow> bytes option) \<Rightarrow> ('l, 'v) item list
      \<Rightarrow> (bytes \<times> ('l, 'v) Field list) list" where
  "reports U app xs =
     concat (map (item_reports U) xs)
     @ (let ps = concat (map item_invalid xs)
        in if ps = [] then []
           else [(nonStringKeyErrMsg, [Array_field ''invalid'' (invalidPairs_MarshalLogArray U app ps)])])"

fun report_all :: "('n, 'l, 'v) env \<Rightarrow> ('n, 'l, 'v, 's) Logger \<Rightarrow> (bytes \<times> ('l, 'v) Field list) list
      \<Rightarrow> ('l, 'v, 's) world \<Rightarrow> unit outcome \<times> ('l, 'v, 's) world" where
  "report_all env base [] w = (Ret (), w)"
| "report_all env base ((msg, fs) # rs) w =
     then_do (Logger_Error env base msg fs w) (\<lambda>_. report_all env base rs)"

lemma report_all_append:
  "report_all env base (rs @ rs') w = then_do (report_all env base rs w) (\<lambda>_. report_all env base rs')"
  by (induction rs arbitrary: w) (auto simp: then_do_assoc intro!: arg_cong2 [where f = then_do] ext)

lemma sort_args_lossless: "concat (map item_args (sort_args i args)) = args"
  by (induction i args rule: sort_args.induct) (auto split: option.split list.split)

lemma sort_args_items: "set (accepted seen xs) \<union> set (rejected seen xs) = set xs"
  "length (accepted seen xs) + length (rejected seen xs) = length xs"
  by (induction seen xs rule: accepted.induct) auto

lemma sweeten_loop_sorts:
  "sweeten_loop U env base i args flds invalid seen w =
     (let xs = sort_args i args
      in then_do (report_all env base (concat (map (item_reports U) (rejected seen xs))) w)
           (\<lambda>_ w1. (Ret (flds @ map (item_field U) (accepted seen xs),
                        invalid @ concat (map item_invalid (rejected seen xs))), w1)))"
  by (induction U env base i args flds invalid seen w rule: sweeten_loop.induct)
    (auto simp: Let_def then_do_assoc split: option.split list.split cong: then_do_cong)

lemma sweetenFields_sorts:
  "sweetenFields U env base args w =
     (let xs = sort_args 0 args
      in then_do (report_all env base (reports U (multierr env) (rejected False xs)) w)
           (\<lambda>_ w1. (Ret (map (item_field U) (accepted False xs)), w1)))"
  by (auto simp: sweetenFields_def sweeten_loop_sorts reports_def report_all_append then_do_assoc Let_def
      intro!: arg_cong2 [where f = then_do] ext)


lemma Logger_Error_returns:
  assumes "0 < stack_storage env"
  shows "benign (fst (Logger_Error env base msg fs w))"
proof -
  have "terminal_hook base ErrorLevel = None"
    by (simp add: terminal_hook_def level_simps)
  then show ?thesis
    using log_outcome [OF assms, of base ErrorLevel msg fs w] by (auto simp: Logger_Error_def)
qed

lemma report_all_returns: "0 < stack_storage env \<Longrightarrow> benign (fst (report_all env base rs w))"
  by (induction env base rs w rule: report_all.induct) (auto intro!: then_do_benign Logger_Error_returns)

section \<open>Properties\<close>

text \<open>C17. Sweetening loses no argument: the arguments split, in order and without overlap, into typed
  fields, errors, pairs, invalid pairs and a dangling key; every item is either turned into its field,
  in the order of the arguments, or reported through the base logger: each error after the first, a
  dangling key, and all pairs with a key that is not a string in one report after the others.\<close>

theorem sweeten_accounts_for_every_argument:
  "concat (map item_args (sort_args 0 args)) = args
   \<and> set (accepted False (sort_args 0 args)) \<union> set (rejected False (sort_args 0 args)) = set (sort_args 0 args)
   \<and> length (accepted False (sort_args 0 args)) + length (rejected False (sort_args 0 args)) = length (sort_args 0 args)
   \<and> sweetenFields U env base args w =
       then_do (report_all env base (reports U (multierr env) (rejected False (sort_args 0 args))) w)
         (\<lambda>_ w1. (Ret (map (item_field U) (accepted False (sort_args 0 args))), w1))"
  by (simp add: sort_args_lossless sort_args_items sweetenFields_sorts Let_def)

text \<open>The two frames that \<^verbatim>\<open>Sugar\<close> adds to the skip are those that a sugared call has more than a typed one, so both
  find the same caller and the same stack.\<close>

lemma drop_check_frames: "drop (k + 6) (check_frames U fr) = drop (k + 4) fr"
proof (cases "3 \<le> length fr")
  case True
  then show ?thesis
    by (simp add: check_frames_def min_def drop_Cons' add.commute)
next
  case False
  then show ?thesis
    by (simp add: check_frames_def)
qed

lemma Capture_sugared:
  assumes "0 \<le> callerSkip log"
  shows "Capture (check_frames U fr) storage (nat (callerSkip (Logger_Sugar log) + 2)) depth = Capture fr storage (nat (callerSkip log + 2)) depth"
proof (rule Capture_cong)
  have "nat (callerSkip (Logger_Sugar log) + 2) + 2 = nat (callerSkip log) + 6" "nat (callerSkip log + 2) + 2 = nat (callerSkip log) + 4"
    using assms by (simp_all add: Logger_Sugar_def)
  then show "drop (nat (callerSkip (Logger_Sugar log) + 2) + 2) (check_frames U fr) = drop (nat (callerSkip log + 2) + 2) fr"
    by (simp only: drop_check_frames)
qed

lemma sugared_check:
  assumes "0 \<le> callerSkip log"
  shows "Logger_check (on_stack (check_frames U) env) (Logger_Sugar log) lvl msg w = Logger_check env log lvl msg w"
proof -
  have sel: "errorOutput (Logger_Sugar log) = errorOutput log" "addStack (Logger_Sugar log) = addStack log"
      "addCaller (Logger_Sugar log) = addCaller log"
    by (simp_all add: Logger_Sugar_def)
  have "annotate_entry (on_stack (check_frames U) env) (Logger_Sugar log) ent ce w = annotate_entry env log ent ce w" for ent ce w
    by (simp only: annotate_entry_def sel on_stack_simps Capture_sugared [OF assms])
  moreover have "set_terminal (Logger_Sugar log) ent cf = set_terminal log ent cf"
      "new_entry (Logger_Sugar log) lvl msg s = new_entry log lvl msg s" "lg_core (Logger_Sugar log) = lg_core log" for ent cf s
    by (simp_all add: set_terminal_def new_entry_def Logger_Sugar_def)
  ultimately show ?thesis
    by (simp add: Logger_check_def Let_def cong: option.case_cong)
qed

text \<open>The reports of \<^verbatim>\<open>With\<close> have the same skip and fit, too.  Those of the logging methods have one frame more, \<^verbatim>\<open>log\<close>,
  so that their caller is the sugared method instead of the code that called it.\<close>

lemma report_callers:
  assumes "4 \<le> length fr"
  shows "drop 6 (report_frames U [frame_method U] fr) = drop 4 fr"
    and "drop 6 (report_frames U [frame_log U, frame_method U] fr) = frame_method U # drop 4 fr"
  using assms by (simp_all add: report_frames_def min_def drop_Cons')

text \<open>C18. A sugared call whose arguments contain no mistake is the typed call: \<^verbatim>\<open>Infow\<close> and the like of \<^verbatim>\<open>log.Sugar()\<close>
  end and change the world as \<^verbatim>\<open>Log\<close> of \<open>log\<close> called from the same place does with the formatted message and the fields
  made from the arguments, also when the level is disabled.  The caller and the stack trace in the entry are the same too, for a
  logger that does not skip a negative number of callers.\<close>

theorem sugared_call_is_typed_call:
  assumes "rejected False (sort_args 0 ctx) = []" and "0 \<le> callerSkip log"
  shows "sugar_log U env (Logger_Sugar log) lvl template fmtArgs ctx w =
    Logger_Log env log lvl (getMessage U template fmtArgs) (map (item_field U) (accepted False (sort_args 0 ctx))) w"
proof -
  have "lg_core (Logger_Sugar log) = lg_core log"
    by (simp add: Logger_Sugar_def)
  moreover have "Logger_check env log lvl msg w = (Ret None, w)"
    if "sint lvl < sint DPanicLevel \<and> \<not> Core_Enabled (lg_core log) lvl (outside w)" for msg
    using that by (simp add: Logger_check_def)
  ultimately show ?thesis
    using assms
    by (simp add: sugar_log_def sugar_write_def Logger_Check_def sugared_check Logger_Log_def sweetenFields_sorts reports_def Let_def
        cong: option.case_cong)
qed

definition demo_sugar :: "(unit, bytes) sugar_std" where
  "demo_sugar = \<lparr>Sprint = \<lambda>as. ''p'', Sprintf = \<lambda>f as. f, Sprintln = \<lambda>as. [newline], time_Local = (), field_value = Key,
     frame_Check = zero_Frame, frame_Error = zero_Frame, frame_log = zero_Frame, frame_sweeten = zero_Frame, frame_method = zero_Frame\<rparr>"

theorem sugared_call_is_typed_call_witness:
  "Sugar_Infow demo_sugar demo_env (Logger_Sugar demo_logger) ''m''
      [Arg (GString (Plain ''a'')), Arg (GBool (Plain True)), FieldArg (Bool_field ''b'' False)] demo_world
    = Logger_Log demo_env demo_logger InfoLevel ''m'' [Bool_field ''a'' True, Bool_field ''b'' False] demo_world"
proof -
  let ?args = "[Arg (GString (Plain ''a'')), Arg (GBool (Plain True)), FieldArg (Bool_field ''b'' False)] :: (unit, bytes) arg list"
  have "rejected False (sort_args 0 ?args) = []"
    by simp
  moreover have "0 \<le> callerSkip demo_logger"
    by (simp add: demo_logger_def new_Logger_def)
  ultimately show ?thesis
    using sugared_call_is_typed_call [of ?args demo_logger demo_sugar demo_env InfoLevel "''m''" "[]" demo_world]
    by (simp add: Sugar_Infow_def getMessage_def arg_Any_def Any_field_def any_shape_def)
qed

text \<open>C33. Mistakes in the arguments of \<^verbatim>\<open>With\<close> never panic, whatever they are and whether or not the logger is
  in development mode: the call returns a logger unless a marshaler panics.\<close>

theorem sugar_mistakes_do_not_panic:
  assumes "0 < stack_storage env"
  shows "fst (Sugar_With U env args base w) = MarshalerPanics \<or> (\<exists>log. fst (Sugar_With U env args base w) = Ret log)"
proof -
  have "benign (fst (Sugar_With U env args base w))"
    using report_all_returns [of "on_stack (report_frames U [frame_method U]) env"] assms
    by (auto simp: Sugar_With_def sweetenFields_sorts Let_def then_do_assoc split: option.split intro!: then_do_benign)
  then show ?thesis
    by (auto simp: benign_def)
qed

theorem sugar_mistakes_do_not_panic_witness:
  "development (demo_logger\<lparr>development := True\<rparr>)
   \<and> (fst (Sugar_With demo_sugar demo_env [Arg (GInt (Plain 1)), Arg GNil, Arg (GString (Plain ''k''))]
          (demo_logger\<lparr>development := True\<rparr>) demo_world) = MarshalerPanics
      \<or> (\<exists>log. fst (Sugar_With demo_sugar demo_env [Arg (GInt (Plain 1)), Arg GNil, Arg (GString (Plain ''k''))]
          (demo_logger\<lparr>development := True\<rparr>) demo_world) = Ret log))"
  using sugar_mistakes_do_not_panic [of demo_env demo_sugar
      "[Arg (GInt (Plain 1)), Arg GNil, Arg (GString (Plain ''k''))]" "demo_logger\<lparr>development := True\<rparr>" demo_world]
  by (simp add: demo_env_def)

end
