(* ===== verification/Zapio_Writer.thy ===== *)
theory Zapio_Writer
  imports Logger
begin

text \<open>
  \<^verbatim>\<open>src/zapio/writer.go\<close>: a writer that logs each line of a byte stream.  The state is the writer and the
  world; a call of the logger may panic or exit, which ends the call of the writer as well.
\<close>

section \<open>The writer\<close>

record ('n, 'l, 'v, 's) Writer =
  wr_Log :: "('n, 'l, 'v, 's) Logger"
  wr_Level :: Level
  buff :: bytes

type_synonym ('n, 'l, 'v, 's) writer_state = "('n, 'l, 'v, 's) Writer \<times> ('l, 'v, 's) world"

definition Writer_log :: "('n, 'l, 'v) env \<Rightarrow> bytes \<Rightarrow> ('n, 'l, 'v, 's) writer_state
      \<Rightarrow> unit outcome \<times> ('n, 'l, 'v, 's) writer_state" where
  "Writer_log env b st =
     (case st of (wr, w) \<Rightarrow>
        (case Logger_Log env (wr_Log wr) (wr_Level wr) b [] w of (r, w1) \<Rightarrow> (r, (wr, w1))))"

definition buff_Write :: "bytes \<Rightarrow> ('n, 'l, 'v, 's) writer_state \<Rightarrow> ('n, 'l, 'v, 's) writer_state" where
  "buff_Write b st = (case st of (wr, w) \<Rightarrow> (wr\<lparr>buff := buff wr @ b\<rparr>, w))"

definition buff_Reset :: "('n, 'l, 'v, 's) writer_state \<Rightarrow> ('n, 'l, 'v, 's) writer_state" where
  "buff_Reset st = (case st of (wr, w) \<Rightarrow> (wr\<lparr>buff := []\<rparr>, w))"

definition Writer_flush :: "('n, 'l, 'v) env \<Rightarrow> bool \<Rightarrow> ('n, 'l, 'v, 's) writer_state
      \<Rightarrow> unit outcome \<times> ('n, 'l, 'v, 's) writer_state" where
  "Writer_flush env allowEmpty st =
     then_do (if allowEmpty \<or> length (buff (fst st)) > 0 then Writer_log env (buff (fst st)) st else (Ret (), st))
       (\<lambda>_ st1. (Ret (), buff_Reset st1))"

definition writeLine :: "('n, 'l, 'v) env \<Rightarrow> bytes \<Rightarrow> ('n, 'l, 'v, 's) writer_state
      \<Rightarrow> bytes outcome \<times> ('n, 'l, 'v, 's) writer_state" where
  "writeLine env line st =
     (case IndexByte line newline of
        None \<Rightarrow> (Ret [], buff_Write line st)
      | Some idx \<Rightarrow>
          let remaining = drop (idx + 1) line; line = take idx line
          in if length (buff (fst st)) = 0
             then then_do (Writer_log env line st) (\<lambda>_ st1. (Ret remaining, st1))
             else then_do (Writer_flush env True (buff_Write line st)) (\<lambda>_ st1. (Ret remaining, st1)))"

lemma writeLine_shorter:
  assumes "line \<noteq> []" and "writeLine env line st = (Ret remaining, st1)"
  shows "length remaining < length line"
  using assms IndexByte_Some [of line newline]
  by (auto simp: writeLine_def then_do_Ret Let_def split: option.splits if_splits)

text \<open>The loop of \<^verbatim>\<open>Write\<close>.\<close>

function write_lines :: "('n, 'l, 'v) env \<Rightarrow> bytes \<Rightarrow> ('n, 'l, 'v, 's) writer_state
      \<Rightarrow> unit outcome \<times> ('n, 'l, 'v, 's) writer_state" where
  "write_lines env data st =
     (if data = [] then (Ret (), st)
      else then_do (writeLine env data st) (\<lambda>remaining st1. write_lines env remaining st1))"
  by pat_completeness auto
termination
  by (relation "measure (\<lambda>(env, data, st). length data)") (auto dest: writeLine_shorter)

declare write_lines.simps [simp del]

definition Writer_Write :: "('n, 'l, 'v) env \<Rightarrow> bytes \<Rightarrow> ('n, 'l, 'v, 's) writer_state
      \<Rightarrow> (int \<times> bytes option) outcome \<times> ('n, 'l, 'v, 's) writer_state" where
  "Writer_Write env data st =
     (if \<not> Core_Enabled (lg_core (wr_Log (fst st))) (wr_Level (fst st)) (outside (snd st))
      then (Ret (int (length data), None), st)
      else then_do (write_lines env data st) (\<lambda>_ st1. (Ret (int (length data), None), st1)))"

definition Writer_Sync :: "('n, 'l, 'v) env \<Rightarrow> ('n, 'l, 'v, 's) writer_state
      \<Rightarrow> bytes option outcome \<times> ('n, 'l, 'v, 's) writer_state" where
  "Writer_Sync env st = then_do (Writer_flush env False st) (\<lambda>_ st1. (Ret None, st1))"

definition Writer_Close :: "('n, 'l, 'v) env \<Rightarrow> ('n, 'l, 'v, 's) writer_state
      \<Rightarrow> bytes option outcome \<times> ('n, 'l, 'v, 's) writer_state" where
  "Writer_Close env st = Writer_Sync env st"

section \<open>Lines\<close>

text \<open>The lines of a text; a newline at its end does not start another line.\<close>

fun lines_of :: "bytes \<Rightarrow> bytes list" where
  "lines_of [] = []"
| "lines_of (b # text) =
     (if b = newline then [] # lines_of text
      else case lines_of text of [] \<Rightarrow> [[b]] | l # ls \<Rightarrow> (b # l) # ls)"

lemma lines_of_newline: "newline \<notin> set l \<Longrightarrow> lines_of (l @ newline # text) = l # lines_of text"
  by (induction l) auto

lemma lines_of_last: "newline \<notin> set l \<Longrightarrow> lines_of l = (if l = [] then [] else [l])"
  by (induction l) auto

text \<open>Logging messages one after the other, and writing chunks one after the other.\<close>

fun log_all :: "('n, 'l, 'v) env \<Rightarrow> ('n, 'l, 'v, 's) Logger \<Rightarrow> Level \<Rightarrow> bytes list \<Rightarrow> ('l, 'v, 's) world
      \<Rightarrow> unit outcome \<times> ('l, 'v, 's) world" where
  "log_all env log lvl [] w = (Ret (), w)"
| "log_all env log lvl (m # ms) w = then_do (Logger_Log env log lvl m [] w) (\<lambda>_. log_all env log lvl ms)"

fun write_chunks :: "('n, 'l, 'v) env \<Rightarrow> bytes list \<Rightarrow> ('n, 'l, 'v, 's) writer_state
      \<Rightarrow> bytes option outcome \<times> ('n, 'l, 'v, 's) writer_state" where
  "write_chunks env [] st = Writer_Close env st"
| "write_chunks env (c # cs) st = then_do (Writer_Write env c st) (\<lambda>_. write_chunks env cs)"

text \<open>The outcome of a call without the error it returns, and the world.\<close>

fun ending :: "'a outcome \<Rightarrow> unit outcome" where
  "ending (Ret x) = Ret ()"
| "ending MarshalerPanics = MarshalerPanics"
| "ending (Panics m) = Panics m"
| "ending Goexits = Goexits"
| "ending (Exits n) = Exits n"
| "ending Diverges = Diverges"

definition seen :: "'a outcome \<times> ('b \<times> 'w) \<Rightarrow> unit outcome \<times> 'w" where
  "seen r = (ending (fst r), snd (snd r))"

text \<open>Running a continuation on the state of the writer, as the world sees it.\<close>

lemma seen_log:
  assumes "\<And>w1. seen (k () (wr, w1)) = k' w1"
  shows "seen (then_do (Writer_log env m (wr, w)) k) = then_do (Logger_Log env (wr_Log wr) (wr_Level wr) m [] w) (\<lambda>_. k')"
  using assms
  by (cases "Logger_Log env (wr_Log wr) (wr_Level wr) m [] w" rule: prod.exhaust; cases "fst (Logger_Log env (wr_Log wr) (wr_Level wr) m [] w)")
    (auto simp: Writer_log_def seen_def)


lemma data_split:
  assumes "IndexByte line newline = Some idx"
  shows "line = take idx line @ newline # drop (Suc idx) line" and "newline \<notin> set (take idx line)"
  using IndexByte_Some [OF assms] by (metis id_take_nth_drop)+

lemma seen_write_lines:
  assumes "newline \<notin> set p"
    and "\<And>p w. newline \<notin> set p \<Longrightarrow> seen (k () (wr\<lparr>buff := p\<rparr>, w)) = log_all env (wr_Log wr) (wr_Level wr) (lines_of (p @ rest)) w"
  shows "seen (then_do (write_lines env data (wr\<lparr>buff := p\<rparr>, w)) k) =
    log_all env (wr_Log wr) (wr_Level wr) (lines_of (p @ data @ rest)) w"
  using assms(1)
proof (induction "length data" arbitrary: data p w rule: less_induct)
  case less
  show ?case
  proof (cases "IndexByte data newline")
    case None
    then have "newline \<notin> set (p @ data)"
      using less.prems by (simp add: IndexByte_None)
    then show ?thesis
      using None less.prems assms(2) [of p w] assms(2) [of "p @ data" w]
      by (simp add: write_lines.simps [of env data] write_lines.simps [of env "[]"] writeLine_def buff_Write_def)
  next
    case (Some idx)
    define l rem where "l = take idx data" and "rem = drop (Suc idx) data"
    then have data: "data = l @ newline # rem" and "newline \<notin> set (p @ l)"
      using data_split [OF Some] less.prems by auto
    then have lines: "lines_of (p @ data @ rest) = (p @ l) # lines_of (rem @ rest)"
      using lines_of_newline [of "p @ l" "rem @ rest"] by simp
    have "seen (then_do (write_lines env rem (wr\<lparr>buff := []\<rparr>, w1)) k)
        = log_all env (wr_Log wr) (wr_Level wr) (lines_of (rem @ rest)) w1" for w1
      using less.hyps [of rem "[]" w1] data by simp
    then have log: "seen (then_do (Writer_log env (p @ l) (wr\<lparr>buff := q\<rparr>, w))
          (\<lambda>_ st. then_do (write_lines env rem (after_log st)) k))
        = log_all env (wr_Log wr) (wr_Level wr) ((p @ l) # lines_of (rem @ rest)) w"
      if "\<And>w1. after_log (wr\<lparr>buff := q\<rparr>, w1) = (wr\<lparr>buff := []\<rparr>, w1)" for q after_log
      by (subst seen_log [where k' = "log_all env (wr_Log wr) (wr_Level wr) (lines_of (rem @ rest))"])
        (simp_all add: that)
    have "data \<noteq> []"
      using data by simp
    then show ?thesis
      using Some lines log [of buff_Reset "p @ l"] log [of "\<lambda>st. st" "[]"]
      by (cases "p = []") (simp_all add: write_lines.simps [of env data] writeLine_def Writer_flush_def
          buff_Write_def buff_Reset_def then_do_assoc l_def [symmetric] rem_def [symmetric] Let_def)
  qed
qed

lemma seen_Close:
  assumes "newline \<notin> set p"
  shows "seen (Writer_Close env (wr\<lparr>buff := p\<rparr>, w)) = log_all env (wr_Log wr) (wr_Level wr) (lines_of p) w"
proof (cases "p = []")
  case True
  then show ?thesis
    by (simp add: Writer_Close_def Writer_Sync_def Writer_flush_def seen_def buff_Reset_def)
next
  case False
  then show ?thesis
    using assms seen_log [of "\<lambda>_ st. (Ret None, buff_Reset st)" "wr\<lparr>buff := p\<rparr>" "log_all env (wr_Log wr) (wr_Level wr) []"]
    by (simp add: Writer_Close_def Writer_Sync_def Writer_flush_def then_do_assoc lines_of_last seen_def [of "(Ret _, _)"]
        buff_Reset_def case_prod_unfold)
qed

section \<open>Properties\<close>

text \<open>C19. If the level of the writer stays enabled, then however a stream is cut into writes, the messages logged are its lines: each line ended by a
  newline is one entry, empty ones included, and the rest is one more entry when the writer is closed,
  if it is not empty.  The world is the one that logging these lines directly gives, and if a call of the
  logger ends the goroutine or the process, the writer ends the same way.\<close>

theorem writer_logs_lines:
  assumes "\<forall>s. Core_Enabled (lg_core log) lvl s"
  shows "seen (write_chunks env chunks (\<lparr>wr_Log = log, wr_Level = lvl, buff = []\<rparr>, w))
    = log_all env log lvl (lines_of (concat chunks)) w"
proof -
  have "seen (write_chunks env chunks (\<lparr>wr_Log = log, wr_Level = lvl, buff = p\<rparr>, w))
      = log_all env log lvl (lines_of (p @ concat chunks)) w" if "newline \<notin> set p" for p w
    using that
  proof (induction chunks arbitrary: p w)
    case Nil
    then show ?case
      using seen_Close [of p env "\<lparr>wr_Log = log, wr_Level = lvl, buff = p\<rparr>"] by simp
  next
    case (Cons c cs)
    then show ?case
      using seen_write_lines [of p "\<lambda>_ st. write_chunks env cs st" "\<lparr>wr_Log = log, wr_Level = lvl, buff = p\<rparr>" env "concat cs"]
        assms
      by (simp add: Writer_Write_def then_do_assoc)
  qed
  from this [of "[]"] show ?thesis by simp
qed

definition demo_all_logger :: "((unit, bytes) jsonEncoder, unit, bytes, bytes TestBuffer) Logger" where
  "demo_all_logger = new_Logger demo_clock test_syncer demo_core"

theorem writer_logs_lines_witness:
  "seen (write_chunks demo_env [''a'', ''b'' @ [newline] @ ''c''] (\<lparr>wr_Log = demo_all_logger, wr_Level = InfoLevel, buff = []\<rparr>, demo_world))
    = log_all demo_env demo_all_logger InfoLevel [''ab'', ''c''] demo_world"
  using writer_logs_lines [of demo_all_logger InfoLevel demo_env "[''a'', ''b'' @ [newline] @ ''c'']" demo_world]
  by (simp add: demo_all_logger_def new_Logger_def demo_core_def NewCore_def level_enabler_def Level_Enabled_def level_simps)

end
