(* ===== verification/Memory_Encoder.thy ===== *)
theory Memory_Encoder
  imports Json_Encoder
begin

text \<open>
  \<^verbatim>\<open>src/zapcore/memory_encoder.go\<close>: the encoder that builds a map in memory, and the array encoder that
  builds a slice.

  The encoder of the code has a pointer to the map of the innermost open namespace.  No map is
  reachable in two ways and an outer map is not changed while a namespace is open, so the pointer
  is the list of the keys that lead from the root to that map.
\<close>

section \<open>Values in memory\<close>

text \<open>The dynamic values that the encoders store.\<close>

datatype ('t, 'v) mem =
    MPrim "'t prim"
  | MBinary bytes
  | MDuration int64
  | MTime 't
  | MReflected "'v option"
  | MArray "('t, 'v) mem list"
  | MMap "bytes \<Rightarrow> ('t, 'v) mem option"

record ('t, 'v) MapObjectEncoder =
  Fields_of :: "bytes \<rightharpoonup> ('t, 'v) mem"
  cur :: "bytes list"

definition NewMapObjectEncoder :: "('t, 'v) MapObjectEncoder" where
  "NewMapObjectEncoder = \<lparr>Fields_of = Map.empty, cur = []\<rparr>"

text \<open>The assignment \<^verbatim>\<open>m.cur[k] = v\<close>.\<close>

fun update_at :: "bytes list \<Rightarrow> ((bytes \<rightharpoonup> ('t, 'v) mem) \<Rightarrow> (bytes \<rightharpoonup> ('t, 'v) mem)) \<Rightarrow> (bytes \<rightharpoonup> ('t, 'v) mem)
      \<Rightarrow> (bytes \<rightharpoonup> ('t, 'v) mem)" where
  "update_at [] f m = f m"
| "update_at (p # ps) f m =
     (case m p of Some (MMap n) \<Rightarrow> m(p \<mapsto> MMap (update_at ps f n)) | _ \<Rightarrow> m)"

definition set_cur :: "bytes \<Rightarrow> ('t, 'v) mem \<Rightarrow> ('t, 'v) MapObjectEncoder \<Rightarrow> ('t, 'v) MapObjectEncoder" where
  "set_cur k v m = m\<lparr>Fields_of := update_at (cur m) (\<lambda>n. n(k \<mapsto> v)) (Fields_of m)\<rparr>"

definition map_OpenNamespace :: "bytes \<Rightarrow> ('t, 'v) MapObjectEncoder \<Rightarrow> ('t, 'v) MapObjectEncoder" where
  "map_OpenNamespace k m = (set_cur k (MMap Map.empty) m)\<lparr>cur := cur m @ [k]\<rparr>"

section \<open>The encoders\<close>

text \<open>The primitive methods; byte strings are stored as strings.  \<^verbatim>\<open>AppendTimeLayout\<close> is not a method of these
  encoders: \<^verbatim>\<open>encodeTimeLayout\<close> appends the formatted string, which is what \<open>format\<close> gives.\<close>

fun mem_prim :: "('t \<Rightarrow> bytes \<Rightarrow> bytes) \<Rightarrow> 't prim \<Rightarrow> 't prim" where
  "mem_prim format (PByteString v) = PString v"
| "mem_prim format (PTimeLayout t layout) = PString (format t layout)"
| "mem_prim format p = p"

text \<open>What a marshaler does to an encoder: the error and the encoder, or a panic.\<close>

type_synonym ('t, 'v) map_fn = "('t, 'v) MapObjectEncoder \<Rightarrow> (bytes option \<times> ('t, 'v) MapObjectEncoder) option"
type_synonym ('t, 'v) slice_fn = "('t, 'v) mem list \<Rightarrow> (bytes option \<times> ('t, 'v) mem list) option"

text \<open>The value stored for a call and the error it returns.  The slice that \<^verbatim>\<open>AddArray\<close> starts with is empty,
  the one of \<^verbatim>\<open>AppendArray\<close> nil; both are the empty list here.\<close>

definition mem_val :: "('t \<Rightarrow> bytes \<Rightarrow> bytes) \<Rightarrow> ('t, 'v, ('t, 'v) map_fn, ('t, 'v) slice_fn) val
      \<Rightarrow> (bytes option \<times> ('t, 'v) mem) option" where
  "mem_val format v =
     (case v of
        VPrim p \<Rightarrow> Some (None, MPrim (mem_prim format p))
      | VDuration d \<Rightarrow> Some (None, MDuration d)
      | VTime t \<Rightarrow> Some (None, MTime t)
      | VReflected r \<Rightarrow> Some (None, MReflected r)
      | VArray marshal \<Rightarrow> map_option (\<lambda>(err, elems). (err, MArray elems)) (marshal [])
      | VObject marshal \<Rightarrow> map_option (\<lambda>(err, m). (err, MMap (Fields_of m))) (marshal NewMapObjectEncoder))"

definition map_add :: "('t \<Rightarrow> bytes \<Rightarrow> bytes) \<Rightarrow> bytes \<Rightarrow> ('t, 'v, ('t, 'v) map_fn, ('t, 'v) slice_fn) val \<Rightarrow> ('t, 'v) map_fn" where
  "map_add format k v m = map_option (\<lambda>(err, x). (err, set_cur k x m)) (mem_val format v)"

definition slice_append :: "('t \<Rightarrow> bytes \<Rightarrow> bytes) \<Rightarrow> ('t, 'v, ('t, 'v) map_fn, ('t, 'v) slice_fn) val \<Rightarrow> ('t, 'v) slice_fn" where
  "slice_append format v elems = map_option (\<lambda>(err, x). (err, elems @ [x])) (mem_val format v)"

primrec map_obj :: "('t \<Rightarrow> bytes \<Rightarrow> bytes) \<Rightarrow> ('t, 'v) omarsh \<Rightarrow> ('t, 'v) map_fn"
  and slice_arr :: "('t \<Rightarrow> bytes \<Rightarrow> bytes) \<Rightarrow> ('t, 'v) amarsh \<Rightarrow> ('t, 'v) slice_fn" where
  "map_obj format (ORet e) = (\<lambda>m. Some (e, m))"
| "map_obj format (OAdd key v k) = (\<lambda>m.
     case map_add format key (map_val id id (map_obj format) (slice_arr format) v) m of
       None \<Rightarrow> None
     | Some (err, m1) \<Rightarrow> map_obj format (k err) m1)"
| "map_obj format (OAddBinary key b k) = (\<lambda>m. map_obj format k (set_cur key (MBinary b) m))"
| "map_obj format (OOpenNamespace key k) = (\<lambda>m. map_obj format k (map_OpenNamespace key m))"
| "map_obj format OPanic = (\<lambda>m. None)"
| "slice_arr format (ARet e) = (\<lambda>elems. Some (e, elems))"
| "slice_arr format (AAppend v k) = (\<lambda>elems.
     case slice_append format (map_val id id (map_obj format) (slice_arr format) v) elems of
       None \<Rightarrow> None
     | Some (err, elems1) \<Rightarrow> slice_arr format (k err) elems1)"
| "slice_arr format APanic = (\<lambda>elems. None)"

text \<open>\<^verbatim>\<open>LoggedEntry.ContextMap\<close> of \<^verbatim>\<open>src/zaptest/observer/logged_entry.go\<close>.\<close>

definition ContextMap :: "('l time \<Rightarrow> bytes \<Rightarrow> bytes) \<Rightarrow> 'l \<Rightarrow> ('l, 'v) Field list \<Rightarrow> (bytes \<rightharpoonup> ('l time, 'v) mem) option" where
  "ContextMap format local ctx = map_option (\<lambda>(_, m). Fields_of m) (map_obj format (addFields local ctx) NewMapObjectEncoder)"

section \<open>Adding is local\<close>

text \<open>An encoder on top of another: the second map laid over the innermost map of the first.\<close>

definition overlay :: "('t, 'v) MapObjectEncoder \<Rightarrow> ('t, 'v) MapObjectEncoder \<Rightarrow> ('t, 'v) MapObjectEncoder" where
  "overlay m n = \<lparr>Fields_of = update_at (cur m) (\<lambda>x. x ++ Fields_of n) (Fields_of m), cur = cur m @ cur n\<rparr>"

text \<open>The path of an encoder leads to a map.\<close>

fun has_path :: "bytes list \<Rightarrow> (bytes \<rightharpoonup> ('t, 'v) mem) \<Rightarrow> bool" where
  "has_path [] m = True"
| "has_path (p # ps) m = (case m p of Some (MMap n) \<Rightarrow> has_path ps n | _ \<Rightarrow> False)"

text \<open>The map that a path leads to.\<close>

fun submap :: "bytes list \<Rightarrow> (bytes \<rightharpoonup> ('t, 'v) mem) \<Rightarrow> (bytes \<rightharpoonup> ('t, 'v) mem)" where
  "submap [] m = m"
| "submap (p # ps) m = (case m p of Some (MMap n) \<Rightarrow> submap ps n | _ \<Rightarrow> Map.empty)"

lemma update_at_append: "update_at (ps @ qs) f m = update_at ps (update_at qs f) m"
  by (induction ps f m rule: update_at.induct) (auto split: option.split mem.split)

lemma update_at_update_at: "update_at ps f (update_at ps g m) = update_at ps (\<lambda>x. f (g x)) m"
  by (induction ps g m rule: update_at.induct) (auto split: option.split mem.split)

lemma update_at_id: "update_at ps (\<lambda>x. x) m = m"
  by (induction ps arbitrary: m) (auto split: option.split mem.split)

lemma update_at_over:
  assumes "has_path ps n" and "\<And>x y. f (x ++ y) = x ++ f y"
  shows "update_at ps f (x ++ n) = x ++ update_at ps f n"
proof (cases ps)
  case (Cons p qs)
  then obtain n' where "n p = Some (MMap n')"
    using assms(1) by (auto split: option.splits mem.splits)
  then show ?thesis
    using Cons by simp
qed (use assms(2) in simp)

lemma has_path_update: "has_path ps m \<Longrightarrow> has_path qs (f (submap ps m)) \<Longrightarrow> has_path (ps @ qs) (update_at ps f m)"
  by (induction ps m rule: has_path.induct) (auto split: option.splits mem.splits)

lemma set_cur_overlay:
  assumes "has_path (cur n) (Fields_of n)"
  shows "set_cur k v (overlay e n) = overlay e (set_cur k v n)"
  using assms by (simp add: set_cur_def overlay_def update_at_append update_at_update_at update_at_over)

lemma set_cur_path:
  assumes "has_path (cur n) (Fields_of n)"
  shows "has_path (cur (set_cur k v n)) (Fields_of (set_cur k v n))"
    and "has_path (cur (map_OpenNamespace k n)) (Fields_of (map_OpenNamespace k n))"
  using assms has_path_update [of "cur n" "Fields_of n" "[]"] has_path_update [of "cur n" "Fields_of n" "[k]"]
  by (simp_all add: set_cur_def map_OpenNamespace_def)

lemma OpenNamespace_overlay:
  assumes "has_path (cur n) (Fields_of n)"
  shows "map_OpenNamespace k (overlay e n) = overlay e (map_OpenNamespace k n)"
proof -
  have "cur (set_cur k v m) = cur m" for v and m :: "('t, 'v) MapObjectEncoder"
    by (simp add: set_cur_def)
  then show ?thesis
    using set_cur_overlay [OF assms, of k "MMap Map.empty" e]
    by (simp add: map_OpenNamespace_def overlay_def)
qed

lemma map_obj_overlay:
  "has_path (cur n) (Fields_of n) \<Longrightarrow>
     map_obj format m (overlay e n) = map_option (\<lambda>(err, n'). (err, overlay e n')) (map_obj format m n)"
proof (induction m arbitrary: n rule: omarsh_induct)
  case (2 key v k)
  show ?case
  proof (cases "mem_val format (map_val id id (map_obj format) (slice_arr format) v)")
    case (Some p)
    then show ?thesis
      using 2 set_cur_overlay [OF "2.prems"] set_cur_path(1) [OF "2.prems"]
      by (cases p) (simp add: map_add_def)
  qed (simp add: map_add_def)
qed (simp_all add: set_cur_overlay OpenNamespace_overlay set_cur_path)

section \<open>Properties\<close>

text \<open>Adding to a map encoder is local: what a marshaler does to an encoder is what it does to an empty
  one, laid over the map of the innermost open namespace.  Equal keys are replaced, everything else
  in the map is kept, and neither the errors nor a panic depend on what the encoder holds.\<close>

theorem map_encoder_is_local:
  "map_obj format m e = map_option (\<lambda>(err, n). (err, overlay e n)) (map_obj format m NewMapObjectEncoder)"
proof -
  have "overlay e NewMapObjectEncoder = e"
    by (simp add: overlay_def NewMapObjectEncoder_def update_at_id)
  then show ?thesis
    using map_obj_overlay [of NewMapObjectEncoder format m e] by (simp add: NewMapObjectEncoder_def)
qed

end
