(* ===== verification/Console_Encoder.thy ===== *)
theory Console_Encoder
  imports Json_Line Memory_Encoder
begin

text \<open>
  \<^verbatim>\<open>src/zapcore/console_encoder.go\<close>: the encoder for people.  A console encoder is the JSON encoder that
  collects its context; the metadata of an entry goes through the array encoder in memory and
  \<^verbatim>\<open>fmt.Fprint\<close>, which writes strings as they are and other values as the parameter \<open>fprint\<close> does.
\<close>

section \<open>The encoder\<close>

definition NewConsoleEncoder :: "('l, 'v) gostd \<Rightarrow> ('l, 'v) EncoderConfig \<Rightarrow> ('l, 'v) jsonEncoder" where
  "NewConsoleEncoder G c =
     newJSONEncoder G (if ConsoleSeparator c = [] then c\<lparr>ConsoleSeparator := [CHR 0x09]\<rparr> else c) True"

definition console_Clone :: "('l, 'v) jsonEncoder \<Rightarrow> ('l, 'v) jsonEncoder" where
  "console_Clone c = json_Clone c"

text \<open>The elements that the encoders of the configuration append for an entry.\<close>

definition console_elems :: "('l, 'v) gostd \<Rightarrow> ('l, 'v) EncoderConfig \<Rightarrow> 'l Entry \<Rightarrow> 'l prims" where
  "console_elems G c ent =
     map (mem_prim (timeFormat G))
       ((case EncodeTime c of
           Some e \<Rightarrow> if TimeKey c \<noteq> [] \<and> \<not> time_IsZero (ent_Time ent) then e (ent_Time ent) else []
         | None \<Rightarrow> [])
        @ (case EncodeLevel c of Some e \<Rightarrow> if LevelKey c \<noteq> [] then e (ent_Level ent) else [] | None \<Rightarrow> [])
        @ (if LoggerName ent \<noteq> [] \<and> NameKey c \<noteq> []
           then (case EncodeName c of Some e \<Rightarrow> e | None \<Rightarrow> FullNameEncoder) (LoggerName ent) else [])
        @ (if Defined (ent_Caller ent) then
             (case EncodeCaller c of Some e \<Rightarrow> if CallerKey c \<noteq> [] then e (ent_Caller ent) else [] | None \<Rightarrow> [])
             @ (if FunctionKey c \<noteq> [] then [PString (Function (ent_Caller ent))] else [])
           else []))"

fun Fprint :: "('l time prim \<Rightarrow> bytes) \<Rightarrow> 'l time prim \<Rightarrow> bytes" where
  "Fprint fprint (PString s) = s"
| "Fprint fprint p = fprint p"

text \<open>The loop over the elements; \<open>first\<close> is \<^verbatim>\<open>i == 0\<close>.\<close>

fun print_meta :: "('l time prim \<Rightarrow> bytes) \<Rightarrow> bytes \<Rightarrow> bool \<Rightarrow> 'l prims \<Rightarrow> Buffer \<Rightarrow> Buffer" where
  "print_meta fprint separator first [] line = line"
| "print_meta fprint separator first (e # es) line =
     print_meta fprint separator False es
       (buf_Write (Fprint fprint e) (if first then line else Buffer_AppendString separator line))"

definition addSeparatorIfNecessary :: "bytes \<Rightarrow> Buffer \<Rightarrow> Buffer" where
  "addSeparatorIfNecessary separator line =
     (if Buffer_Len line > 0 then Buffer_AppendString separator line else line)"

definition writeContext :: "('l, 'v) gostd \<Rightarrow> 'l \<Rightarrow> ('l, 'v) Field list \<Rightarrow> ('l, 'v) jsonEncoder \<Rightarrow> Buffer \<Rightarrow> Buffer option" where
  "writeContext G local extra enc line =
     (case json_obj G (addFields local extra) (json_Clone enc) of
        None \<Rightarrow> None
      | Some (_, ctx) \<Rightarrow>
          let ctx = closeOpenNamespaces ctx
          in if Buffer_Len (buf ctx) = 0 then Some line
             else Some (Buffer_AppendByte (CHR ''}'') (buf_Write (Buffer_Bytes (buf ctx))
               (Buffer_AppendByte (CHR ''{'') (addSeparatorIfNecessary (ConsoleSeparator (cfg enc)) line)))))"

definition console_EncodeEntry :: "('l time prim \<Rightarrow> bytes) \<Rightarrow> ('l, 'v) gostd \<Rightarrow> 'l \<Rightarrow> 'l Entry \<Rightarrow> ('l, 'v) Field list
      \<Rightarrow> ('l, 'v) jsonEncoder \<Rightarrow> Buffer option" where
  "console_EncodeEntry fprint G local ent fs enc =
     (let c = cfg enc;
          line = print_meta fprint (ConsoleSeparator c) True (console_elems G c ent) bufferpool_Get;
          line = (if MessageKey c \<noteq> []
                  then Buffer_AppendString (Message ent) (addSeparatorIfNecessary (ConsoleSeparator c) line) else line)
      in case writeContext G local fs enc line of
           None \<Rightarrow> None
         | Some line \<Rightarrow>
             let line = (if Stack ent \<noteq> [] \<and> StacktraceKey c \<noteq> []
                         then Buffer_AppendString (Stack ent) (Buffer_AppendByte newline line) else line)
             in Some (Buffer_AppendString (LineEnding c) line))"

section \<open>The line\<close>

text \<open>Two parts of the line with the separator between them, unless the first is empty.\<close>

definition console_join :: "bytes \<Rightarrow> bytes \<Rightarrow> bytes \<Rightarrow> bytes" where
  "console_join separator a b = (if a = [] then b else a @ separator @ b)"

fun separated :: "bytes \<Rightarrow> bytes list \<Rightarrow> bytes" where
  "separated separator [] = []"
| "separated separator [x] = x"
| "separated separator (x # xs) = x @ separator @ separated separator xs"

text \<open>The columns of the metadata: the key that turns a column on, and what its encoder prints if the entry has
  a value for it and there is an encoder.\<close>

definition console_columns :: "('l, 'v) EncoderConfig \<Rightarrow> 'l Entry \<Rightarrow> (bytes \<times> 'l prims option) list" where
  "console_columns c ent =
     [(TimeKey c, if time_IsZero (ent_Time ent) then None else map_option (\<lambda>e. e (ent_Time ent)) (EncodeTime c)),
      (LevelKey c, map_option (\<lambda>e. e (ent_Level ent)) (EncodeLevel c)),
      (NameKey c, if LoggerName ent = [] then None
         else Some (case EncodeName c of Some e \<Rightarrow> e (LoggerName ent) | None \<Rightarrow> [PString (LoggerName ent)])),
      (CallerKey c, if Defined (ent_Caller ent) then map_option (\<lambda>e. e (ent_Caller ent)) (EncodeCaller c) else None),
      (FunctionKey c, if Defined (ent_Caller ent) then Some [PString (Function (ent_Caller ent))] else None)]"

definition column_texts :: "('l time prim \<Rightarrow> bytes) \<Rightarrow> ('l, 'v) gostd \<Rightarrow> (bytes \<times> 'l prims option) list \<Rightarrow> bytes list" where
  "column_texts fprint G cols =
     concat (map (\<lambda>(key, col). case col of
         Some es \<Rightarrow> if key = [] then [] else map (\<lambda>e. Fprint fprint (mem_prim (timeFormat G) e)) es
       | None \<Rightarrow> []) cols)"

definition console_text :: "('l time prim \<Rightarrow> bytes) \<Rightarrow> ('l, 'v) gostd \<Rightarrow> ('l, 'v) EncoderConfig \<Rightarrow> 'l Entry \<Rightarrow> jfields \<Rightarrow> bytes" where
  "console_text fprint G c ent fs =
     (let separator = ConsoleSeparator c;
          meta = separated separator (column_texts fprint G (console_columns c ent));
          msg = (if MessageKey c \<noteq> [] then console_join separator meta (Message ent) else meta);
          ctx = (if fs = FNil then msg else console_join separator msg (print_json True (JObject fs)))
      in ctx @ (if Stack ent \<noteq> [] \<and> StacktraceKey c \<noteq> [] then newline # Stack ent else []) @ LineEnding c)"

lemma console_elems_columns:
  "map (Fprint fprint) (console_elems G c ent) = column_texts fprint G (console_columns c ent)"
  by (simp add: console_elems_def console_columns_def column_texts_def FullNameEncoder_def split: option.split)

lemma buf_Write_text [buffer_simps]: "bs (buf_Write p b) = bs b @ p"
  by (simp add: buf_Write_def Buffer_Write_def)

lemma print_meta_text:
  "bs (print_meta fprint separator first es line) =
     bs line @ (if first \<or> es = [] then [] else separator) @ separated separator (map (Fprint fprint) es)"
proof (induction fprint separator first es line rule: print_meta.induct)
  case (2 fprint separator first e es line)
  then show ?case
    by (cases es) (simp_all add: buffer_simps)
qed simp

lemma addSeparator_text: "bs (addSeparatorIfNecessary separator line) @ b = console_join separator (bs line) b"
  by (simp add: addSeparatorIfNecessary_def console_join_def buffer_simps)

lemma print_fields_empty: "print_fields sp True fs = [] \<longleftrightarrow> fs = FNil"
  by (cases fs) (simp_all add: key_text_def string_text_def)

lemma clone_put:
  assumes "has_context c sp ctx enc"
  shows "json_Clone enc = put_fields ctx ((json_clone enc)\<lparr>openNamespaces := 0\<rparr>)"
  using assms by (simp add: has_context_def clone_emit put_fields_def emit_def json_clone_def bufferpool_Get_def fresh_text_def)

context json_format
begin

lemma writeContext_text:
  assumes "has_context c True ctx enc"
  shows "map_option bs (writeContext G local fs enc line) =
    map_option (\<lambda>r. let all = fappend ctx (snd r)
       in if all = FNil then bs line else console_join (ConsoleSeparator c) (bs line) (print_json True (JObject all)))
      (obj_json G c (addFields local fs))"
proof -
  let ?start = "(json_clone enc)\<lparr>openNamespaces := 0\<rparr>"
  have start: "cfg ?start = c" "spaced ?start = True" "openNamespaces ?start = 0" "written_text ?start = []"
    and sep: "cfg enc = c"
    using assms by (simp_all add: has_context_def json_clone_def bufferpool_Get_def)
  have ok: "fields_ok ctx"
    using assms by (simp add: has_context_def)
  have fields: "json_obj G (addFields local fs) (json_Clone enc) =
      map_option (\<lambda>(err, gs). (err, put_fields (fappend ctx gs) ?start)) (obj_json G c (addFields local fs))"
    using start(1) ok by (simp add: clone_put [OF assms] fields_step put_put)
  have closed: "written_text (closeOpenNamespaces (put_fields all ?start)) = print_fields True True (seal all)" for all
    using close_step [OF start(3), of all] start by (simp add: fresh_text_def)
  show ?thesis
  proof (cases "obj_json G c (addFields local fs)")
    case None
    then show ?thesis
      using fields by (simp add: writeContext_def)
  next
    case (Some p)
    obtain err gs where p: "p = (err, gs)"
      by (cases p)
    define all where "all = fappend ctx gs"
    let ?text = "print_fields True True (seal all)"
    have "?text = [] \<longleftrightarrow> all = FNil"
      using print_fields_empty [of True "seal all"] by (cases all) simp_all
    moreover have "CHR ''{'' # ?text @ ''}'' = print_json True (JObject all)"
      by (simp add: print_seal replicate_append_same)
    moreover have "map_option bs (writeContext G local fs enc line) =
        Some (if ?text = [] then bs line
              else bs (addSeparatorIfNecessary (ConsoleSeparator c) line) @ CHR ''{'' # ?text @ ''}'')"
      using fields closed [of all] Some p by (simp add: writeContext_def sep buffer_simps all_def Let_def)
    ultimately have "map_option bs (writeContext G local fs enc line) =
        Some (if all = FNil then bs line
              else console_join (ConsoleSeparator c) (bs line) (print_json True (JObject all)))"
      by (simp only: addSeparator_text)
    then show ?thesis
      using Some p by (simp only: all_def Let_def option.map snd_conv)
  qed
qed

lemma console_entry_text:
  assumes "has_context c True ctx enc"
  shows "map_option bs (console_EncodeEntry fprint G local ent fs enc) =
    map_option (\<lambda>r. console_text fprint G c ent (fappend ctx (snd r))) (obj_json G c (addFields local fs))"
proof -
  define meta where "meta = print_meta fprint (ConsoleSeparator c) True (console_elems G c ent) bufferpool_Get"
  define line where "line = (if MessageKey c \<noteq> []
    then Buffer_AppendString (Message ent) (addSeparatorIfNecessary (ConsoleSeparator c) meta) else meta)"
  have cfg: "cfg enc = c"
    using assms by (simp add: has_context_def)
  have "bs meta = separated (ConsoleSeparator c) (column_texts fprint G (console_columns c ent))"
    by (simp add: meta_def print_meta_text bufferpool_Get_def console_elems_columns)
  then have line: "bs line = (if MessageKey c \<noteq> []
      then console_join (ConsoleSeparator c) (separated (ConsoleSeparator c) (column_texts fprint G (console_columns c ent)))
        (Message ent)
      else separated (ConsoleSeparator c) (column_texts fprint G (console_columns c ent)))"
    by (simp add: line_def buffer_simps addSeparator_text)
  have "console_EncodeEntry fprint G local ent fs enc = map_option (\<lambda>l. Buffer_AppendString (LineEnding c)
      (if Stack ent \<noteq> [] \<and> StacktraceKey c \<noteq> [] then Buffer_AppendString (Stack ent) (Buffer_AppendByte newline l) else l))
      (writeContext G local fs enc line)"
    by (simp add: console_EncodeEntry_def cfg line_def meta_def Let_def split: option.split)
  then have "map_option bs (console_EncodeEntry fprint G local ent fs enc) =
      map_option (\<lambda>l. l @ (if Stack ent \<noteq> [] \<and> StacktraceKey c \<noteq> [] then newline # Stack ent else []) @ LineEnding c)
        (map_option bs (writeContext G local fs enc line))"
    by (simp add: option.map_comp comp_def buffer_simps)
  then show ?thesis
    by (simp add: writeContext_text [OF assms] option.map_comp comp_def console_text_def line Let_def cong: if_cong)
qed

end

section \<open>Properties\<close>

text \<open>C21. The line of the console encoder: the metadata printed plainly and separated, the message, and all
  fields of the context and of the call as the one object that the JSON encoder would print of them,
  with spaces and with every namespace closed, or nothing if there are none; then the stack trace on its own
  lines and the line ending.  It does not matter which fields were given to \<^verbatim>\<open>With\<close>, and in how many calls.\<close>

theorem console_line:
  assumes "encoder_contract G (cfg (NewConsoleEncoder G cf))" and "c = cfg (NewConsoleEncoder G cf)"
  shows "Option.bind (json_With G local fss (NewConsoleEncoder G cf))
      (\<lambda>enc. map_option bs (console_EncodeEntry fprint G local ent fs enc)) =
    map_option (\<lambda>r. console_text fprint G c ent (snd r)) (obj_json G c (addFields local (concat fss @ fs)))"
proof -
  let ?e = "NewConsoleEncoder G cf"
  have format: "json_format G c"
    using assms by unfold_locales simp
  have "has_context c True FNil ?e"
    using has_context_new [of G "if ConsoleSeparator cf = [] then cf\<lparr>ConsoleSeparator := [CHR 0x09]\<rparr> else cf" True] assms(2)
    by (simp add: NewConsoleEncoder_def)
  note reached = json_format.json_With_context [OF format this, of local fss]
  show ?thesis
  proof (cases "json_With G local fss ?e")
    case None
    then show ?thesis
      using reached by (simp add: addFields_append obj_json_obind)
  next
    case (Some enc)
    then obtain err gs where gs: "obj_json G c (addFields local (concat fss)) = Some (err, gs)"
        "has_context c True gs enc"
      using reached by auto
    show ?thesis
      using Some gs(1) json_format.console_entry_text [OF format gs(2), of fprint local ent fs]
      by (simp add: addFields_append obj_json_obind option.map_comp comp_def case_prod_beta)
  qed
qed

definition dev_config :: "(unit, bytes) EncoderConfig" where
  "dev_config = NewDevelopmentEncoderConfig (\<lambda>d. itoa (sint d))"

lemma dev_contract: "encoder_contract plain_std (cfg (NewConsoleEncoder plain_std dev_config))"
proof -
  let ?c = "(NewDevelopmentEncoderConfig (\<lambda>d. itoa (sint d)) :: (unit, bytes) EncoderConfig)\<lparr>ConsoleSeparator := [CHR 0x09]\<rparr>"
  have "encoder_contract plain_std (cfg (newJSONEncoder plain_std ?c True))"
    by (rule default_contract [OF plain_std_contract])
      (simp_all add: NewDevelopmentEncoderConfig_def ShortCallerEncoder_def CapitalLevelEncoder_def
        ISO8601TimeEncoder_def StringDurationEncoder_def encodeTimeLayout_def)
  then show ?thesis
    by (simp add: NewConsoleEncoder_def dev_config_def NewDevelopmentEncoderConfig_def)
qed

lemmas dev_defs = NewConsoleEncoder_def newJSONEncoder_def dev_config_def NewDevelopmentEncoderConfig_def
  CapitalLevelEncoder_def ISO8601TimeEncoder_def encodeTimeLayout_def FullNameEncoder_def DefaultLineEnding_def

theorem console_line_witness:
  "map_option bs (console_EncodeEntry (\<lambda>p. ''?'') plain_std ()
      \<lparr>ent_Level = InfoLevel, ent_Time = \<lparr>t_nanos = 5, t_loc = ()\<rparr>, LoggerName = ''web'', Message = ''hi'',
       ent_Caller = NewEntryCaller 0 [] 0 False, Stack = []\<rparr>
      [Namespace_field ''n'', Bool_field ''b'' True] (NewConsoleEncoder plain_std dev_config)) =
   Some (itoa 5 @ [CHR 0x09] @ ''INFO'' @ [CHR 0x09] @ ''web'' @ [CHR 0x09] @ ''hi'' @ [CHR 0x09]
     @ print_json True (JObject (FNamespace ''n'' (FCons ''b'' (JRaw ''true'') FNil))) @ [newline])"
proof -
  let ?c = "cfg (NewConsoleEncoder plain_std dev_config)"
  let ?fs = "[Namespace_field ''n'', Bool_field ''b'' True] :: (unit, bytes) Field list"
  let ?ent = "\<lparr>ent_Level = InfoLevel, ent_Time = \<lparr>t_nanos = 5, t_loc = ()\<rparr>, LoggerName = ''web'', Message = ''hi'',
       ent_Caller = NewEntryCaller 0 [] 0 False, Stack = []\<rparr>"
  have "obj_json plain_std ?c (addFields () ?fs) = Some (None, FNamespace ''n'' (FCons ''b'' (JRaw ''true'') FNil))"
    by (simp add: Field_AddTo_def field_ctor_defs add_prim_def val_json_def)
  then have line: "map_option bs (console_EncodeEntry (\<lambda>p. ''?'') plain_std () ?ent ?fs (NewConsoleEncoder plain_std dev_config)) =
      Some (console_text (\<lambda>p. ''?'') plain_std ?c ?ent (FNamespace ''n'' (FCons ''b'' (JRaw ''true'') FNil)))"
    using console_line [OF dev_contract refl, of "()" "[]" "\<lambda>p. ''?''" ?ent ?fs] by simp
  have "column_texts (\<lambda>p. ''?'') plain_std (console_columns ?c ?ent) = [itoa 5, ''INFO'', ''web'']"
    by (simp add: column_texts_def console_columns_def dev_defs NewEntryCaller_def time_IsZero_def Level_CapitalString_def level_simps
        plain_std_def Let_def)
  moreover have "ConsoleSeparator ?c = [CHR 0x09]" "MessageKey ?c = ''M''" "LineEnding ?c = [newline]"
    by (simp_all add: dev_defs Let_def)
  ultimately show ?thesis
    by (simp add: line console_text_def console_join_def Let_def del: print_json.simps)
qed

end
