(* ===== verification/Http_Handler.thy ===== *)
theory Http_Handler
  imports Level
begin

text \<open>
  \<^verbatim>\<open>src/http_handler.go\<close>: reading and changing an \<^verbatim>\<open>AtomicLevel\<close> over HTTP.  A request is what the handler
  asks of it; what \<^verbatim>\<open>mime\<close>, \<^verbatim>\<open>encoding/json\<close> and \<^verbatim>\<open>fmt\<close> do is a parameter.
\<close>

section \<open>Requests and responses\<close>

text \<open>\<open>form_level\<close> is \<^verbatim>\<open>FormValue("level")\<close>; \<open>json_level\<close> is what the JSON decoder finds in the body: an error,
  or the text of the member \<open>level\<close>, if there is one that is not null.\<close>

record http_Request =
  Method :: bytes
  Content_Type :: bytes
  form_level :: bytes
  json_level :: "bytes + bytes option"

text \<open>A response: its content type, the status once one was written, and the body.\<close>

record http_Response =
  rs_type :: bytes
  rs_status :: "nat option"
  rs_body :: bytes

record http_std =
  ParseMediaType :: "bytes \<Rightarrow> bytes option"
  json_text :: "bytes \<Rightarrow> bytes"
  quoted :: "bytes \<Rightarrow> bytes"
  lower_unicode :: "bytes \<Rightarrow> bytes"
  write_error :: "bytes \<Rightarrow> bytes option"

definition WriteHeader :: "nat \<Rightarrow> http_Response \<Rightarrow> http_Response" where
  "WriteHeader code w = (case rs_status w of None \<Rightarrow> w\<lparr>rs_status := Some code\<rparr> | Some _ \<Rightarrow> w)"

text \<open>Writing the body sends the status 200 if none was set; a failed write leaves the body as it was.\<close>

definition http_Write :: "http_std \<Rightarrow> bytes \<Rightarrow> http_Response \<Rightarrow> bytes option \<times> http_Response" where
  "http_Write H p w =
     (let w1 = WriteHeader 200 w in
      case write_error H p of Some e \<Rightarrow> (Some e, w1) | None \<Rightarrow> (None, w1\<lparr>rs_body := rs_body w1 @ p\<rparr>))"

text \<open>\<^verbatim>\<open>json.Encoder.Encode\<close> of a struct with one string member.\<close>

definition encode_member :: "http_std \<Rightarrow> bytes \<Rightarrow> bytes \<Rightarrow> http_Response \<Rightarrow> bytes option \<times> http_Response" where
  "encode_member H name txt w =
     http_Write H ([CHR ''{''] @ json_text H name @ [CHR '':''] @ json_text H txt @ [CHR ''}'', newline]) w"

section \<open>The handler\<close>

definition level_error_text :: "http_std \<Rightarrow> level_error \<Rightarrow> bytes" where
  "level_error_text H e =
     (case e of
        ErrUnmarshalNilLevel \<Rightarrow> ''can't unmarshal a nil *Level''
      | ErrUnrecognizedLevel txt \<Rightarrow> ''unrecognized level: '' @ quoted H txt)"

definition decodePutURL :: "http_std \<Rightarrow> http_Request \<Rightarrow> bytes + Level" where
  "decodePutURL H r =
     (if form_level r = [] then Inl ''must specify logging level''
      else case Level_UnmarshalText (lower_unicode H) (Some 0) (form_level r) of
             (Some e, _) \<Rightarrow> Inl (level_error_text H e)
           | (None, Some l) \<Rightarrow> Inr l
           | (None, None) \<Rightarrow> Inr 0)"

text \<open>The decoder unmarshals the text of the member into a new level.\<close>

definition decodePutJSON :: "http_std \<Rightarrow> bytes + bytes option \<Rightarrow> bytes + Level" where
  "decodePutJSON H body =
     (case body of
        Inl e \<Rightarrow> Inl (''malformed request body: '' @ e)
      | Inr None \<Rightarrow> Inl ''must specify logging level''
      | Inr (Some txt) \<Rightarrow>
          (case Level_UnmarshalText (lower_unicode H) (Some 0) txt of
             (Some e, _) \<Rightarrow> Inl (''malformed request body: '' @ level_error_text H e)
           | (None, Some l) \<Rightarrow> Inr l
           | (None, None) \<Rightarrow> Inr 0))"

definition decodePutRequest :: "http_std \<Rightarrow> http_Request \<Rightarrow> bytes + Level" where
  "decodePutRequest H r =
     (if ParseMediaType H (Content_Type r) = Some ''application/x-www-form-urlencoded''
      then decodePutURL H r else decodePutJSON H (json_level r))"

text \<open>\<^verbatim>\<open>serveHTTP\<close>: the error it returns, the level after the call and the response; \<open>None\<close> is the panic of a
  nil level.\<close>

definition encode_level :: "http_std \<Rightarrow> AtomicLevel \<Rightarrow> http_Response \<Rightarrow> ((bytes option \<times> http_Response) \<times> AtomicLevel) option" where
  "encode_level H lvl w = map_option (\<lambda>l. (encode_member H ''level'' (Level_String l) w, lvl)) (AtomicLevel_Level lvl)"

definition serveHTTP :: "http_std \<Rightarrow> http_Request \<Rightarrow> AtomicLevel \<Rightarrow> http_Response
      \<Rightarrow> ((bytes option \<times> http_Response) \<times> AtomicLevel) option" where
  "serveHTTP H r lvl w =
     (let w = w\<lparr>rs_type := ''application/json''\<rparr> in
      if Method r = ''GET'' then encode_level H lvl w
      else if Method r = ''PUT'' then
        (case decodePutRequest H r of
           Inl err \<Rightarrow> Some (encode_member H ''error'' err (WriteHeader 400 w), lvl)
         | Inr requestedLvl \<Rightarrow>
             (case AtomicLevel_SetLevel lvl requestedLvl of
                None \<Rightarrow> None
              | Some lvl1 \<Rightarrow> encode_level H lvl1 w))
      else Some (encode_member H ''error'' ''Only GET and PUT are supported.'' (WriteHeader 405 w), lvl))"

definition ServeHTTP :: "http_std \<Rightarrow> http_Request \<Rightarrow> AtomicLevel \<Rightarrow> http_Response \<Rightarrow> (http_Response \<times> AtomicLevel) option" where
  "ServeHTTP H r lvl w =
     (case serveHTTP H r lvl w of
        None \<Rightarrow> None
      | Some ((None, w1), lvl1) \<Rightarrow> Some (w1, lvl1)
      | Some ((Some err, w1), lvl1) \<Rightarrow>
          Some (snd (http_Write H (''internal error: '' @ err)
            (WriteHeader 500 (w1\<lparr>rs_type := ''text/plain; charset=utf-8''\<rparr>))), lvl1))"

section \<open>Properties\<close>

definition new_response :: http_Response where
  "new_response = \<lparr>rs_type = [], rs_status = None, rs_body = []\<rparr>"

definition level_reply :: "http_std \<Rightarrow> Level \<Rightarrow> http_Response" where
  "level_reply H l = \<lparr>rs_type = ''application/json'', rs_status = Some 200,
     rs_body = [CHR ''{''] @ json_text H ''level'' @ [CHR '':''] @ json_text H (Level_String l) @ [CHR ''}'', newline]\<rparr>"

lemma encode_level_reply:
  assumes "\<forall>p. write_error H p = None"
  shows "encode_level H (Some c) (new_response\<lparr>rs_type := ''application/json''\<rparr>)
    = Some ((None, level_reply H (ucast c)), Some c)"
  using assms
  by (simp add: encode_level_def AtomicLevel_Level_def encode_member_def http_Write_def WriteHeader_def new_response_def
      level_reply_def)

lemma unmarshal_level: "valid_level l \<Longrightarrow> Level_UnmarshalText uni (Some x) (Level_String l) = (None, Some l)"
  by (simp add: Level_UnmarshalText_def unmarshal_String)

lemma Level_String_nonempty: "valid_level l \<Longrightarrow> Level_String l \<noteq> []"
  by (erule valid_level_cases) simp_all

text \<open>A request that is not a \<^verbatim>\<open>PUT\<close> with a level leaves the level as it is.\<close>

lemma http_bad_requests_keep_level:
  assumes "\<forall>p. write_error H p = None" and "Method r \<noteq> ''PUT'' \<or> (\<exists>e. decodePutRequest H r = Inl e)"
  shows "\<exists>w. ServeHTTP H r (Some c) new_response = Some (w, Some c)
    \<and> rs_status w = Some (if Method r = ''GET'' then 200 else if Method r = ''PUT'' then 400 else 405)"
  using assms encode_level_reply [OF assms(1), of c]
  by (auto simp: ServeHTTP_def serveHTTP_def encode_member_def http_Write_def WriteHeader_def new_response_def level_reply_def
      Let_def)

text \<open>C35. A level put over HTTP is in force and is reported: for every level, a \<^verbatim>\<open>PUT\<close> with its name, as a form
  value or as JSON, sets it and is answered with it, and a \<^verbatim>\<open>GET\<close> is then answered the same.  A request of
  another method and a \<^verbatim>\<open>PUT\<close> without a level that can be decoded keep the level and are answered
  with 405 and 400.\<close>

theorem http_put_then_get:
  assumes "\<forall>p. write_error H p = None" and "valid_level l" and "Method put = ''PUT''" and "Method get = ''GET''"
    and "ParseMediaType H (Content_Type put) = Some ''application/x-www-form-urlencoded'' \<and> form_level put = Level_String l
      \<or> ParseMediaType H (Content_Type put) = Some ''application/json'' \<and> json_level put = Inr (Some (Level_String l))"
    and "Method bad \<noteq> ''PUT'' \<and> Method bad \<noteq> ''GET'' \<or> Method bad = ''PUT'' \<and> decodePutRequest H bad = Inl e"
  shows "\<exists>a w. ServeHTTP H put (Some c) new_response = Some (level_reply H l, a)
    \<and> AtomicLevel_Level a = Some l
    \<and> ServeHTTP H get a new_response = Some (level_reply H l, a)
    \<and> ServeHTTP H bad a new_response = Some (w, a)
    \<and> rs_status w = Some (if Method bad = ''PUT'' then 400 else 405)"
proof -
  let ?a = "Some (scast l) :: AtomicLevel"
  have "decodePutRequest H put = Inr l"
    using assms(2,5) Level_String_nonempty [OF assms(2)]
    by (auto simp: decodePutRequest_def decodePutURL_def decodePutJSON_def unmarshal_level)
  then have "ServeHTTP H put (Some c) new_response = Some (level_reply H l, ?a)"
    using assms(3) encode_level_reply [OF assms(1), of "scast l"]
    by (simp add: ServeHTTP_def serveHTTP_def AtomicLevel_SetLevel_def ucast_scast_level Let_def)
  moreover have "ServeHTTP H get ?a new_response = Some (level_reply H l, ?a)"
    using assms(4) encode_level_reply [OF assms(1), of "scast l"]
    by (simp add: ServeHTTP_def serveHTTP_def ucast_scast_level Let_def)
  moreover have "AtomicLevel_Level ?a = Some l"
    by (simp add: AtomicLevel_Level_def ucast_scast_level)
  moreover have "\<exists>w. ServeHTTP H bad ?a new_response = Some (w, ?a) \<and> rs_status w = Some (if Method bad = ''PUT'' then 400 else 405)"
    using http_bad_requests_keep_level [OF assms(1), of bad "scast l"] assms(6) by auto
  ultimately show ?thesis
    by blast
qed

definition demo_http :: http_std where
  "demo_http = \<lparr>ParseMediaType = Some, json_text = \<lambda>t. [CHR 0x22] @ t @ [CHR 0x22], quoted = \<lambda>t. t,
     lower_unicode = \<lambda>t. t, write_error = \<lambda>p. None\<rparr>"

definition demo_request :: "bytes \<Rightarrow> bytes + bytes option \<Rightarrow> http_Request" where
  "demo_request m body = \<lparr>Method = m, Content_Type = ''application/json'', form_level = [], json_level = body\<rparr>"

theorem http_put_then_get_witness:
  "\<exists>a w. ServeHTTP demo_http (demo_request ''PUT'' (Inr (Some ''debug''))) (Some 0) new_response
      = Some (level_reply demo_http DebugLevel, a)
    \<and> AtomicLevel_Level a = Some DebugLevel
    \<and> ServeHTTP demo_http (demo_request ''GET'' (Inr None)) a new_response = Some (level_reply demo_http DebugLevel, a)
    \<and> ServeHTTP demo_http (demo_request ''PUT'' (Inr (Some ''loud''))) a new_response = Some (w, a)
    \<and> rs_status w = Some 400"
proof -
  have "decodePutRequest demo_http (demo_request ''PUT'' (Inr (Some ''loud'')))
      = Inl (''malformed request body: unrecognized level: loud'')"
    by (simp add: decodePutRequest_def decodePutJSON_def demo_http_def demo_request_def Level_UnmarshalText_def
        Level_unmarshalText_def ToLower_def lower_byte_def ascii_def level_error_text_def)
  then show ?thesis
    using http_put_then_get [of demo_http DebugLevel "demo_request ''PUT'' (Inr (Some ''debug''))"
        "demo_request ''GET'' (Inr None)" "demo_request ''PUT'' (Inr (Some ''loud''))" _ 0]
    by (simp add: demo_http_def demo_request_def valid_level_def level_simps Level_String_def)
qed

end
