(* ===== verification/Globals.thy ===== *)
theory Globals
  imports Sugar
begin

text \<open>
  \<^verbatim>\<open>src/global.go\<close>: the global loggers and the redirection of the standard library's logger.  The
  mutable package variables are a record; a function value that a call returns (to restore what it
  replaced) is a function on that record.
\<close>

section \<open>State\<close>

text \<open>What the standard library's logger is given as its output.\<close>

datatype 'f std_output = Stderr | Redirected 'f | OtherOutput nat

record 'f std_log =
  log_Flags :: int
  log_Prefix :: bytes
  log_Output :: "'f std_output"

record ('n, 'l, 'v, 's) globals =
  globalL :: "('n, 'l, 'v, 's) Logger"
  globalS :: "('n, 'l, 'v, 's) Logger"

section \<open>Global loggers\<close>

definition L_get :: "('n, 'l, 'v, 's) globals \<Rightarrow> ('n, 'l, 'v, 's) Logger" where
  "L_get g = globalL g"

definition S_get :: "('n, 'l, 'v, 's) globals \<Rightarrow> ('n, 'l, 'v, 's) Logger" where
  "S_get g = globalS g"

definition set_globals :: "('n, 'l, 'v, 's) Logger \<Rightarrow> ('n, 'l, 'v, 's) globals \<Rightarrow> ('n, 'l, 'v, 's) globals" where
  "set_globals logger g = g\<lparr>globalL := logger, globalS := Logger_Sugar logger\<rparr>"

text \<open>\<^verbatim>\<open>ReplaceGlobals\<close>: the globals after the call, and the function that restores the previous logger.\<close>

definition ReplaceGlobals :: "('n, 'l, 'v, 's) Logger \<Rightarrow> ('n, 'l, 'v, 's) globals
      \<Rightarrow> ('n, 'l, 'v, 's) globals \<times> (('n, 'l, 'v, 's) globals \<Rightarrow> ('n, 'l, 'v, 's) globals)" where
  "ReplaceGlobals logger g = (let prev = globalL g in (set_globals logger g, set_globals prev))"

section \<open>The standard library's logger\<close>

text \<open>A log function: a method of a logger, given the message and the fields.\<close>

type_synonym ('l, 'v, 's) log_func = "bytes \<Rightarrow> ('l, 'v) Field list \<Rightarrow> ('l, 'v, 's) world \<Rightarrow> unit outcome \<times> ('l, 'v, 's) world"

definition stdLogDefaultDepth :: int where "stdLogDefaultDepth = 1"
definition loggerWriterDepth :: int where "loggerWriterDepth = 2"

text \<open>\<^verbatim>\<open>fmt.Errorf("unrecognized level: %q", lvl)\<close> prints the text of the level in quotes.\<close>

definition levelToFunc :: "('n, 'l, 'v) env \<Rightarrow> ('n, 'l, 'v, 's) Logger \<Rightarrow> Level \<Rightarrow> bytes + ('l, 'v, 's) log_func" where
  "levelToFunc env logger lvl =
     (if lvl = DebugLevel then Inr (Logger_Debug env logger)
      else if lvl = InfoLevel then Inr (Logger_Info env logger)
      else if lvl = WarnLevel then Inr (Logger_Warn env logger)
      else if lvl = ErrorLevel then Inr (Logger_Error env logger)
      else if lvl = DPanicLevel then Inr (Logger_DPanic env logger)
      else if lvl = PanicLevel then Inr (Logger_Panic env logger)
      else if lvl = FatalLevel then Inr (Logger_Fatal env logger)
      else Inl (''unrecognized level: '' @ [CHR 0x22] @ Level_String lvl @ [CHR 0x22]))"

text \<open>\<^verbatim>\<open>bytes.TrimSpace\<close>: on ASCII text the six white space bytes are dropped at both ends; the Unicode
  case is the parameter \<open>uni\<close>.\<close>

definition is_space :: "char \<Rightarrow> bool" where
  "is_space c \<longleftrightarrow> bval c \<in> {9, 10, 11, 12, 13, 32}"

definition TrimSpace :: "(bytes \<Rightarrow> bytes) \<Rightarrow> bytes \<Rightarrow> bytes" where
  "TrimSpace uni s = (if list_all ascii s then rev (dropWhile is_space (rev (dropWhile is_space s))) else uni s)"

definition loggerWriter_Write :: "(bytes \<Rightarrow> bytes) \<Rightarrow> ('l, 'v, 's) log_func \<Rightarrow> bytes \<Rightarrow> ('l, 'v, 's) world
      \<Rightarrow> (int \<times> bytes option) outcome \<times> ('l, 'v, 's) world" where
  "loggerWriter_Write uni logFunc p w =
     (let p = TrimSpace uni p in then_do (logFunc p [] w) (\<lambda>_ w1. (Ret (int (length p), None), w1)))"

text \<open>The logger that skips the frames of the standard library and of the writer.\<close>

definition std_logger :: "('n, 'l, 'v, 's) Logger \<Rightarrow> ('l, 'v, 's) world \<Rightarrow> ('n, 'l, 'v, 's) Logger outcome \<times> ('l, 'v, 's) world" where
  "std_logger l w = WithOptions [AddCallerSkip (stdLogDefaultDepth + loggerWriterDepth)] l w"

text \<open>\<^verbatim>\<open>NewStdLog\<close> and \<^verbatim>\<open>NewStdLogAt\<close>: a logger of the standard library without prefix and flags.\<close>

definition NewStdLog :: "('n, 'l, 'v) env \<Rightarrow> ('n, 'l, 'v, 's) Logger \<Rightarrow> ('l, 'v, 's) world
      \<Rightarrow> ('l, 'v, 's) log_func std_log outcome \<times> ('l, 'v, 's) world" where
  "NewStdLog env l w =
     then_do (std_logger l w)
       (\<lambda>logger w1. (Ret \<lparr>log_Flags = 0, log_Prefix = [], log_Output = Redirected (Logger_Info env logger)\<rparr>, w1))"

definition NewStdLogAt :: "('n, 'l, 'v) env \<Rightarrow> ('n, 'l, 'v, 's) Logger \<Rightarrow> Level \<Rightarrow> ('l, 'v, 's) world
      \<Rightarrow> (bytes + ('l, 'v, 's) log_func std_log) outcome \<times> ('l, 'v, 's) world" where
  "NewStdLogAt env l level w =
     then_do (std_logger l w)
       (\<lambda>logger w1. (Ret (case levelToFunc env logger level of
            Inl err \<Rightarrow> Inl err
          | Inr logFunc \<Rightarrow> Inr \<lparr>log_Flags = 0, log_Prefix = [], log_Output = Redirected logFunc\<rparr>), w1))"

text \<open>\<^verbatim>\<open>redirectStdLogAt\<close>: the error or the function that restores, and the state of the standard logger after
  the call.\<close>

definition restore_std_log :: "int \<Rightarrow> bytes \<Rightarrow> 'f std_log \<Rightarrow> 'f std_log" where
  "restore_std_log flags prefix std = std\<lparr>log_Flags := flags, log_Prefix := prefix, log_Output := Stderr\<rparr>"

definition redirectStdLogAt :: "('n, 'l, 'v) env \<Rightarrow> ('n, 'l, 'v, 's) Logger \<Rightarrow> Level \<Rightarrow> ('l, 'v, 's) log_func std_log \<Rightarrow> ('l, 'v, 's) world
      \<Rightarrow> ((bytes + (('l, 'v, 's) log_func std_log \<Rightarrow> ('l, 'v, 's) log_func std_log)) \<times> ('l, 'v, 's) log_func std_log) outcome
        \<times> ('l, 'v, 's) world" where
  "redirectStdLogAt env l level std w =
     (let flags = log_Flags std; prefix = log_Prefix std;
          std1 = std\<lparr>log_Flags := 0, log_Prefix := []\<rparr>
      in then_do (std_logger l w)
        (\<lambda>logger w1. (Ret (case levelToFunc env logger level of
             Inl err \<Rightarrow> (Inl err, std1)
           | Inr logFunc \<Rightarrow> (Inr (restore_std_log flags prefix), std1\<lparr>log_Output := Redirected logFunc\<rparr>)), w1)))"

definition RedirectStdLogAt where "RedirectStdLogAt env l level std w = redirectStdLogAt env l level std w"

definition RedirectStdLog :: "('n, 'l, 'v) env \<Rightarrow> ('n, 'l, 'v, 's) Logger \<Rightarrow> ('l, 'v, 's) log_func std_log \<Rightarrow> ('l, 'v, 's) world
      \<Rightarrow> ((('l, 'v, 's) log_func std_log \<Rightarrow> ('l, 'v, 's) log_func std_log) \<times> ('l, 'v, 's) log_func std_log) outcome
        \<times> ('l, 'v, 's) world" where
  "RedirectStdLog env l std w =
     then_do (redirectStdLogAt env l InfoLevel std w)
       (\<lambda>(f, std1) w1. case f of
          Inl err \<Rightarrow> (Panics (''You've found a bug in zap! Please file a bug at https://github.com/uber-go/zap/issues/new and reference this error: '' @ err), w1)
        | Inr restore \<Rightarrow> (Ret (restore, std1), w1))"

text \<open>What a call of the standard library's logger does when it is redirected: it writes the line, ended by a newline, with
  its prefix in front.  Other outputs are no part of the world of the loggers.\<close>

definition std_Print :: "(bytes \<Rightarrow> bytes) \<Rightarrow> bytes \<Rightarrow> ('l, 'v, 's) log_func std_log \<Rightarrow> ('l, 'v, 's) world
      \<Rightarrow> unit outcome \<times> ('l, 'v, 's) world" where
  "std_Print uni line std w =
     (case log_Output std of
        Redirected logFunc \<Rightarrow> then_do (loggerWriter_Write uni logFunc (log_Prefix std @ line @ [newline]) w) (\<lambda>_ w1. (Ret (), w1))
      | _ \<Rightarrow> (Ret (), w))"

section \<open>Properties\<close>

lemma std_logger_Ret: "std_logger l w = (Ret (l\<lparr>callerSkip := callerSkip l + 3\<rparr>), w)"
  by (simp add: std_logger_def AddCallerSkip_def stdLogDefaultDepth_def loggerWriterDepth_def)

lemma then_do_unit:
  fixes r :: "unit outcome \<times> 'w"
  shows "then_do (then_do r (\<lambda>_ w1. (Ret x, w1))) (\<lambda>_ w1. (Ret (), w1)) = r"
  by (cases "(r, \<lambda>(_::unit) (w::'w). (Ret (), w))" rule: then_do.cases) auto

lemma levelToFunc_level: "valid_level lvl \<Longrightarrow> levelToFunc env logger lvl = Inr (\<lambda>msg fs w. Logger_Log env logger lvl msg fs w)"
  by (erule valid_level_cases)
    (auto simp: levelToFunc_def fun_eq_iff Logger_Debug_def Logger_Info_def Logger_Warn_def Logger_Error_def Logger_DPanic_def
      Logger_Panic_def Logger_Fatal_def level_simps)

lemma levelToFunc_invalid: "\<not> valid_level lvl \<Longrightarrow> \<exists>e. levelToFunc env logger lvl = Inl e"
  by (auto simp: levelToFunc_def valid_level_def level_simps)

text \<open>C36. Redirecting the standard library's logger to a level that does not exist returns an error, but the
  logger is changed for good: its flags and its prefix are gone and no function restores them.\<close>

theorem failed_redirect_changes_std_log:
  assumes "\<not> valid_level level"
  shows "\<exists>err. RedirectStdLogAt env l level std w = (Ret (Inl err, std\<lparr>log_Flags := 0, log_Prefix := []\<rparr>), w)"
proof -
  obtain err where "levelToFunc env (l\<lparr>callerSkip := callerSkip l + 3\<rparr>) level = Inl err"
    using levelToFunc_invalid [OF assms] by blast
  then show ?thesis
    by (simp add: RedirectStdLogAt_def redirectStdLogAt_def std_logger_Ret Let_def)
qed

theorem failed_redirect_changes_std_log_witness:
  "\<exists>err. RedirectStdLogAt demo_env demo_logger 42 \<lparr>log_Flags = 3, log_Prefix = ''app: '', log_Output = Stderr\<rparr> demo_world
     = (Ret (Inl err, \<lparr>log_Flags = 0, log_Prefix = [], log_Output = Stderr\<rparr>), demo_world)"
  using failed_redirect_changes_std_log [of 42 demo_env demo_logger "\<lparr>log_Flags = 3, log_Prefix = ''app: '', log_Output = Stderr\<rparr>" demo_world]
  by (simp add: valid_level_def level_simps)

text \<open>A redirected line is logged, trimmed, as one entry of the level; the restore function gives back the flags
  and the prefix and sets the output to the standard error.\<close>

theorem redirect_logs_and_restores:
  assumes "valid_level level"
  shows "\<exists>restore std1. RedirectStdLogAt env l level std w = (Ret (Inr restore, std1), w)
    \<and> restore std1 = std\<lparr>log_Output := Stderr\<rparr>
    \<and> std_Print uni line std1 w'
      = Logger_Log env (l\<lparr>callerSkip := callerSkip l + 3\<rparr>) level (TrimSpace uni (line @ [newline])) [] w'"
  using assms
  by (simp add: RedirectStdLogAt_def redirectStdLogAt_def std_logger_Ret levelToFunc_level restore_std_log_def std_Print_def
      loggerWriter_Write_def then_do_unit Let_def)

text \<open>Restoring the globals, in any state that later replacements left, puts the previous logger and its sugared
  form back.\<close>

theorem replace_globals_restores:
  "L_get (fst (ReplaceGlobals logger g)) = logger \<and> S_get (fst (ReplaceGlobals logger g)) = Logger_Sugar logger
   \<and> L_get (snd (ReplaceGlobals logger g) g') = L_get g \<and> S_get (snd (ReplaceGlobals logger g) g') = Logger_Sugar (L_get g)"
  by (simp add: ReplaceGlobals_def set_globals_def L_get_def S_get_def Let_def)

end
