(* ===== verification/Zapgrpc.thy ===== *)
theory Zapgrpc
  imports Sugar
begin

text \<open>
  \<^verbatim>\<open>src/zapgrpc/zapgrpc.go\<close>: a logger with the interface of gRPC.  A printer holds two method values of the
  sugared logger, which are functions of the arguments and the world here.
\<close>

section \<open>State\<close>

record ('n, 'l, 'v, 's) printer =
  enab :: "('n, 'l, 'v, 's) core"
  level :: Level
  pr_print :: "('l, 'v) arg list \<Rightarrow> ('l, 'v, 's) world \<Rightarrow> unit outcome \<times> ('l, 'v, 's) world"
  pr_printf :: "bytes \<Rightarrow> ('l, 'v) arg list \<Rightarrow> ('l, 'v, 's) world \<Rightarrow> unit outcome \<times> ('l, 'v, 's) world"

record ('n, 'l, 'v, 's) grpcLogger =
  delegate :: "('n, 'l, 'v, 's) Logger"
  levelEnabler :: "('n, 'l, 'v, 's) core"
  gl_print :: "('n, 'l, 'v, 's) printer"
  gl_fatal :: "('n, 'l, 'v, 's) printer"

definition grpcLvlInfo :: int where "grpcLvlInfo = 0"
definition grpcLvlWarn :: int where "grpcLvlWarn = 1"
definition grpcLvlError :: int where "grpcLvlError = 2"
definition grpcLvlFatal :: int where "grpcLvlFatal = 3"

text \<open>Reading the map of levels gives the zero level for a number that is no key.\<close>

definition grpcToZapLevel :: "int \<Rightarrow> Level" where
  "grpcToZapLevel l =
     (if l = grpcLvlInfo then InfoLevel else if l = grpcLvlWarn then WarnLevel
      else if l = grpcLvlError then ErrorLevel else if l = grpcLvlFatal then FatalLevel else 0)"

definition WithDebug :: "('l, 'v) sugar_std \<Rightarrow> ('n, 'l, 'v) env \<Rightarrow> ('n, 'l, 'v, 's) grpcLogger \<Rightarrow> ('n, 'l, 'v, 's) grpcLogger" where
  "WithDebug U env logger =
     logger\<lparr>gl_print := \<lparr>enab = levelEnabler logger, level = DebugLevel,
        pr_print = Sugar_Debug U env (delegate logger), pr_printf = Sugar_Debugf U env (delegate logger)\<rparr>\<rparr>"

definition withWarn :: "('l, 'v) sugar_std \<Rightarrow> ('n, 'l, 'v) env \<Rightarrow> ('n, 'l, 'v, 's) grpcLogger \<Rightarrow> ('n, 'l, 'v, 's) grpcLogger" where
  "withWarn U env logger =
     logger\<lparr>gl_fatal := \<lparr>enab = levelEnabler logger, level = WarnLevel,
        pr_print = Sugar_Warn U env (delegate logger), pr_printf = Sugar_Warnf U env (delegate logger)\<rparr>\<rparr>"

definition grpc_NewLogger :: "('l, 'v) sugar_std \<Rightarrow> ('n, 'l, 'v) env \<Rightarrow> ('n, 'l, 'v, 's) Logger
      \<Rightarrow> (('n, 'l, 'v, 's) grpcLogger \<Rightarrow> ('n, 'l, 'v, 's) grpcLogger) list \<Rightarrow> ('n, 'l, 'v, 's) grpcLogger" where
  "grpc_NewLogger U env l options =
     (let d = Logger_Sugar l; e = lg_core l;
          logger = \<lparr>delegate = d, levelEnabler = e,
            gl_print = \<lparr>enab = e, level = InfoLevel, pr_print = Sugar_Info U env d, pr_printf = Sugar_Infof U env d\<rparr>,
            gl_fatal = \<lparr>enab = e, level = FatalLevel, pr_print = Sugar_Fatal U env d, pr_printf = Sugar_Fatalf U env d\<rparr>\<rparr>
      in fold (\<lambda>option lg. option lg) options logger)"

section \<open>Printing\<close>

definition grpc_sprintln :: "('l, 'v) sugar_std \<Rightarrow> ('l, 'v) arg list \<Rightarrow> bytes" where
  "grpc_sprintln U args = (let s = Sprintln U args in take (length s - 1) s)"

definition line_arg :: "('l, 'v) sugar_std \<Rightarrow> ('l, 'v) arg list \<Rightarrow> ('l, 'v) arg list" where
  "line_arg U args = [Arg (GString (Plain (grpc_sprintln U args)))]"

definition printer_Print where
  "printer_Print v args w = pr_print v args w"

definition printer_Printf where
  "printer_Printf v format args w = pr_printf v format args w"

definition printer_Println :: "('l, 'v) sugar_std \<Rightarrow> ('n, 'l, 'v, 's) printer \<Rightarrow> ('l, 'v) arg list \<Rightarrow> ('l, 'v, 's) world
      \<Rightarrow> unit outcome \<times> ('l, 'v, 's) world" where
  "printer_Println U v args w =
     (if Core_Enabled (enab v) (level v) (outside w) then pr_print v (line_arg U args) w else (Ret (), w))"

definition grpc_Print where "grpc_Print U env l args w = printer_Print (gl_print l) args w"
definition grpc_Printf where "grpc_Printf U env l format args w = printer_Printf (gl_print l) format args w"
definition grpc_Println where "grpc_Println U env l args w = printer_Println U (gl_print l) args w"

definition grpc_Info where "grpc_Info U env l args w = Sugar_Info U env (delegate l) args w"
definition grpc_Infof where "grpc_Infof U env l format args w = Sugar_Infof U env (delegate l) format args w"
definition grpc_Infoln where
  "grpc_Infoln U env l args w =
     (if Core_Enabled (levelEnabler l) InfoLevel (outside w) then Sugar_Info U env (delegate l) (line_arg U args) w else (Ret (), w))"

definition grpc_Warning where "grpc_Warning U env l args w = Sugar_Warn U env (delegate l) args w"
definition grpc_Warningf where "grpc_Warningf U env l format args w = Sugar_Warnf U env (delegate l) format args w"
definition grpc_Warningln where
  "grpc_Warningln U env l args w =
     (if Core_Enabled (levelEnabler l) WarnLevel (outside w) then Sugar_Warn U env (delegate l) (line_arg U args) w else (Ret (), w))"

definition grpc_Error where "grpc_Error U env l args w = Sugar_Error U env (delegate l) args w"
definition grpc_Errorf where "grpc_Errorf U env l format args w = Sugar_Errorf U env (delegate l) format args w"
definition grpc_Errorln where
  "grpc_Errorln U env l args w =
     (if Core_Enabled (levelEnabler l) ErrorLevel (outside w) then Sugar_Error U env (delegate l) (line_arg U args) w else (Ret (), w))"

definition grpc_Fatal where "grpc_Fatal U env l args w = printer_Print (gl_fatal l) args w"
definition grpc_Fatalf where "grpc_Fatalf U env l format args w = printer_Printf (gl_fatal l) format args w"
definition grpc_Fatalln where "grpc_Fatalln U env l args w = printer_Println U (gl_fatal l) args w"

definition grpc_V :: "('n, 'l, 'v, 's) grpcLogger \<Rightarrow> int \<Rightarrow> 's \<Rightarrow> bool" where
  "grpc_V l lvl s = Core_Enabled (levelEnabler l) (grpcToZapLevel lvl) s"

section \<open>Properties\<close>

lemma sugar_Fatal_exits:
  assumes "0 < stack_storage env" and "onFatal base = None"
  shows "fst (sugar_log U env base FatalLevel template fmtArgs [] w) \<in> {MarshalerPanics, Exits 1}"
proof -
  have hook: "terminal_hook base FatalLevel = Some (Action WriteThenFatal)"
    using assms(2) by (simp add: terminal_hook_def level_simps)
  let ?env = "on_stack (check_frames U) env"
  have "fst (Logger_Log ?env base FatalLevel msg [] w) \<in> {MarshalerPanics, Exits 1}" for msg
    using log_outcome [of ?env base FatalLevel msg "[]" w] assms(1) hook by simp
  moreover have "sugar_log U env base FatalLevel template fmtArgs [] w = Logger_Log ?env base FatalLevel (getMessage U template fmtArgs) [] w"
    by (simp add: sugar_log_def sugar_write_def Logger_Check_def Logger_Log_def sweetenFields_def level_simps cong: option.case_cong)
  ultimately show ?thesis by simp
qed

text \<open>C37. For a logger without a fatal hook of its own, \<^verbatim>\<open>Fatal\<close> and \<^verbatim>\<open>Fatalf\<close> end the process even if the fatal level is
  disabled, as the loggers of zap do (unless a marshaler panics first), but \<^verbatim>\<open>Fatalln\<close> then returns to its caller and
  does nothing.\<close>

theorem grpc_fatalln_returns_when_disabled:
  assumes "0 < stack_storage env" and "onFatal log = None" and "\<not> Core_Enabled (lg_core log) FatalLevel (outside w)"
  shows "fst (grpc_Fatal U env (grpc_NewLogger U env log []) args w) \<in> {MarshalerPanics, Exits 1}
    \<and> fst (grpc_Fatalf U env (grpc_NewLogger U env log []) format args w) \<in> {MarshalerPanics, Exits 1}
    \<and> grpc_Fatalln U env (grpc_NewLogger U env log []) args w = (Ret (), w)"
proof -
  have "onFatal (Logger_Sugar log) = None"
    using assms(2) by (simp add: Logger_Sugar_def)
  from sugar_Fatal_exits [OF assms(1) this] show ?thesis
    using assms(3)
    by (simp add: grpc_Fatal_def grpc_Fatalf_def grpc_Fatalln_def grpc_NewLogger_def printer_Print_def printer_Printf_def
        printer_Println_def Sugar_Fatal_def Sugar_Fatalf_def Let_def)
qed

theorem grpc_fatalln_returns_when_disabled_witness:
  "fst (grpc_Fatal demo_sugar demo_env (grpc_NewLogger demo_sugar demo_env (NewNop demo_clock) []) [] demo_world) \<in> {MarshalerPanics, Exits 1}
   \<and> grpc_Fatalln demo_sugar demo_env (grpc_NewLogger demo_sugar demo_env (NewNop demo_clock) []) [] demo_world = (Ret (), demo_world)"
  using grpc_fatalln_returns_when_disabled [of demo_env "NewNop demo_clock" demo_world demo_sugar "[]"]
  by (simp add: demo_env_def NewNop_def NewNopCore_def)

text \<open>The line forms log the line that \<^verbatim>\<open>Sprintln\<close> gives without its newline, exactly when the level is enabled; otherwise
  the arguments are not even formatted.\<close>

theorem grpc_line_forms:
  "grpc_Infoln U env l args w =
     (if Core_Enabled (levelEnabler l) InfoLevel (outside w) then Sugar_Infow U env (delegate l) (grpc_sprintln U args) [] w else (Ret (), w))"
  by (simp add: grpc_Infoln_def Sugar_Info_def Sugar_Infow_def sugar_log_def getMessage_def line_arg_def)

end
