(* ===== verification/Zapslog.thy ===== *)
theory Zapslog
  imports Logger
begin

text \<open>
  \<^verbatim>\<open>src/exp/zapslog/handler.go\<close> and \<^verbatim>\<open>options.go\<close>: a handler of \<^verbatim>\<open>log/slog\<close> that writes to a core.  Groups opened by
  \<^verbatim>\<open>WithGroup\<close> are kept in the handler and become namespaces before the first field that is written.
\<close>

section \<open>Attributes\<close>

text \<open>Values of \<^verbatim>\<open>slog\<close> by their kind.  \<open>SLogValuer v\<close> is a value whose \<^verbatim>\<open>Resolve\<close> gives \<open>v\<close>; \<open>SAny v\<close> is any other value.\<close>

datatype ('l, 'v) sval =
    SBool bool
  | SDuration int64
  | SFloat64 uint64
  | SInt64 int64
  | SString bytes
  | STime "'l time"
  | SUint64 uint64
  | SGroup "(bytes \<times> ('l, 'v) sval) list"
  | SLogValuer "('l, 'v) sval"
  | SAny "('l, 'v) goval"

type_synonym ('l, 'v) Attr = "bytes \<times> ('l, 'v) sval"

text \<open>\<^verbatim>\<open>attr.Equal(slog.Attr\{\})\<close>: no key and the nil value.\<close>

fun empty_attr :: "bytes \<Rightarrow> ('l, 'v) sval \<Rightarrow> bool" where
  "empty_attr [] (SAny GNil) = True"
| "empty_attr _ _ = False"

fun convertAttrToField :: "'l \<Rightarrow> bytes \<Rightarrow> ('l, 'v) sval \<Rightarrow> ('l, 'v) Field"
  and groupObject :: "'l \<Rightarrow> ('l, 'v) Attr list \<Rightarrow> ('l time, 'v) omarsh" where
  "convertAttrToField local key (SBool b) = Bool_field key b"
| "convertAttrToField local key (SDuration d) = Duration_field key d"
| "convertAttrToField local key (SFloat64 f) = Float64_field key f"
| "convertAttrToField local key (SInt64 i) = Int64_field key i"
| "convertAttrToField local key (SString s) = String_field key s"
| "convertAttrToField local key (STime t) = Time_field key t"
| "convertAttrToField local key (SUint64 u) = Uint64_field key u"
| "convertAttrToField local key (SGroup gs) =
     (if key = [] then Inline_field (groupObject local gs) else Object_field key (Some (groupObject local gs)))"
| "convertAttrToField local key (SLogValuer v) = convertAttrToField local key v"
| "convertAttrToField local key (SAny v) =
     (if empty_attr key (SAny v) then Skip_field else Any_field local key v)"
| "groupObject local [] = ORet None"
| "groupObject local ((key, v) # gs) =
     obind (Field_AddTo local (convertAttrToField local key v)) (\<lambda>_. groupObject local gs)"

section \<open>Levels\<close>

definition slog_LevelDebug :: int where "slog_LevelDebug = -4"
definition slog_LevelInfo :: int where "slog_LevelInfo = 0"
definition slog_LevelWarn :: int where "slog_LevelWarn = 4"
definition slog_LevelError :: int where "slog_LevelError = 8"

definition convertSlogLevel :: "int \<Rightarrow> Level" where
  "convertSlogLevel l =
     (if l \<ge> slog_LevelError then ErrorLevel else if l \<ge> slog_LevelWarn then WarnLevel
      else if l \<ge> slog_LevelInfo then InfoLevel else DebugLevel)"

section \<open>The handler\<close>

record ('n, 'l, 'v, 's) Handler =
  h_core :: "('n, 'l, 'v, 's) core"
  h_name :: bytes
  h_addCaller :: bool
  addStackAt :: int
  h_callerSkip :: int
  groups :: "bytes list"

definition slog_WithName :: "bytes \<Rightarrow> ('n, 'l, 'v, 's) Handler \<Rightarrow> ('n, 'l, 'v, 's) Handler" where
  "slog_WithName name h = h\<lparr>h_name := name\<rparr>"

definition slog_WithCaller :: "bool \<Rightarrow> ('n, 'l, 'v, 's) Handler \<Rightarrow> ('n, 'l, 'v, 's) Handler" where
  "slog_WithCaller enabled h = h\<lparr>h_addCaller := enabled\<rparr>"

definition slog_WithCallerSkip :: "int \<Rightarrow> ('n, 'l, 'v, 's) Handler \<Rightarrow> ('n, 'l, 'v, 's) Handler" where
  "slog_WithCallerSkip skip h = h\<lparr>h_callerSkip := h_callerSkip h + skip\<rparr>"

definition AddStacktraceAt :: "int \<Rightarrow> ('n, 'l, 'v, 's) Handler \<Rightarrow> ('n, 'l, 'v, 's) Handler" where
  "AddStacktraceAt lvl h = h\<lparr>addStackAt := lvl\<rparr>"

definition NewHandler :: "('n, 'l, 'v, 's) core \<Rightarrow> (('n, 'l, 'v, 's) Handler \<Rightarrow> ('n, 'l, 'v, 's) Handler) list
      \<Rightarrow> ('n, 'l, 'v, 's) Handler" where
  "NewHandler c opts =
     fold (\<lambda>v h. v h) opts
       \<lparr>h_core = c, h_name = [], h_addCaller = False, addStackAt = slog_LevelError, h_callerSkip = 0, groups = []\<rparr>"

definition Handler_Enabled :: "('n, 'l, 'v, 's) Handler \<Rightarrow> int \<Rightarrow> 's \<Rightarrow> bool" where
  "Handler_Enabled h lvl s = Core_Enabled (h_core h) (convertSlogLevel lvl) s"

definition appendGroups :: "bytes list \<Rightarrow> ('l, 'v) Field list \<Rightarrow> ('l, 'v) Field list" where
  "appendGroups gs fs = fs @ map Namespace_field gs"

text \<open>The comparison \<^verbatim>\<open>f == zap.Skip()\<close> of fields.\<close>

definition is_Skip :: "('l, 'v) Field \<Rightarrow> bool" where
  "is_Skip f \<longleftrightarrow> Key f = [] \<and> FType f = SkipType \<and> Integer f = 0 \<and> Str f = []
     \<and> (case Interface f of INil \<Rightarrow> True | _ \<Rightarrow> False)"

text \<open>The loop over the attributes in \<^verbatim>\<open>Handle\<close> and \<^verbatim>\<open>WithAttrs\<close>: the fields, and whether the groups were added.\<close>

fun attr_fields :: "'l \<Rightarrow> bytes list \<Rightarrow> ('l, 'v) Attr list \<Rightarrow> ('l, 'v) Field list \<Rightarrow> bool \<Rightarrow> ('l, 'v) Field list \<times> bool" where
  "attr_fields local gs [] fs added = (fs, added)"
| "attr_fields local gs ((key, v) # attrs) fs added =
     (let f = convertAttrToField local key v
      in if \<not> added \<and> length gs > 0 \<and> \<not> is_Skip f
         then attr_fields local gs attrs (appendGroups gs fs @ [f]) True
         else attr_fields local gs attrs (fs @ [f]) added)"

definition WithAttrs :: "('n, 'l, 'v) env \<Rightarrow> 'l \<Rightarrow> ('l, 'v) Attr list \<Rightarrow> ('n, 'l, 'v, 's) Handler \<Rightarrow> ('n, 'l, 'v, 's) Handler option" where
  "WithAttrs env local attrs h =
     (case attr_fields local (groups h) attrs [] False of (fs, addedNamespace) \<Rightarrow>
        map_option (\<lambda>c. let cloned = h\<lparr>h_core := c\<rparr> in if addedNamespace then cloned\<lparr>groups := []\<rparr> else cloned)
          (Core_With (ops env) fs (h_core h)))"

definition WithGroup :: "bytes \<Rightarrow> ('n, 'l, 'v, 's) Handler \<Rightarrow> ('n, 'l, 'v, 's) Handler" where
  "WithGroup name h = (if name = [] then h else h\<lparr>groups := groups h @ [name]\<rparr>)"

record ('l, 'v) Record =
  r_Level :: int
  r_Time :: "'l time"
  r_Message :: bytes
  r_PC :: nat
  r_Attrs :: "('l, 'v) Attr list"

text \<open>The caller and the stack trace of a record; \<open>frame_of pc\<close> is the frame that \<^verbatim>\<open>runtime.CallersFrames\<close> gives for
  \<open>pc\<close>, and \<open>None\<close> a stack that cannot be captured.\<close>

definition record_caller :: "(nat \<Rightarrow> Frame) \<Rightarrow> bool \<Rightarrow> nat \<Rightarrow> ('n, 'l, 'v, 's) CheckedEntry \<Rightarrow> ('n, 'l, 'v, 's) CheckedEntry" where
  "record_caller frame_of add pc ce =
     (if add \<and> pc \<noteq> 0 \<and> fr_PC (frame_of pc) \<noteq> 0
      then ce\<lparr>ce_Entry := (ce_Entry ce)\<lparr>ent_Caller := frame_caller (frame_of pc)\<rparr>\<rparr> else ce)"

definition annotate_record :: "('n, 'l, 'v) env \<Rightarrow> (nat \<Rightarrow> Frame) \<Rightarrow> ('n, 'l, 'v, 's) Handler \<Rightarrow> ('l, 'v) Record
      \<Rightarrow> ('n, 'l, 'v, 's) CheckedEntry \<Rightarrow> ('n, 'l, 'v, 's) CheckedEntry option" where
  "annotate_record env frame_of h r ce =
     (let ce1 = record_caller frame_of (h_addCaller h) (r_PC r) ce
      in if r_Level r \<ge> addStackAt h
         then map_option (\<lambda>txt. ce1\<lparr>ce_Entry := (ce_Entry ce1)\<lparr>Stack := txt\<rparr>\<rparr>)
                (Take (stack_frames env) (stack_storage env) (nat (3 + h_callerSkip h)))
         else Some ce1)"

definition record_entry :: "('n, 'l, 'v, 's) Handler \<Rightarrow> ('l, 'v) Record \<Rightarrow> 'l Entry" where
  "record_entry h r =
     \<lparr>ent_Level = convertSlogLevel (r_Level r), ent_Time = r_Time r, LoggerName = h_name h, Message = r_Message r,
      ent_Caller = NewEntryCaller 0 [] 0 False, Stack = []\<rparr>"

text \<open>\<^verbatim>\<open>Handle\<close> given the fields of the record, and with them.\<close>

definition handle_fields :: "('n, 'l, 'v) env \<Rightarrow> (nat \<Rightarrow> Frame) \<Rightarrow> ('n, 'l, 'v, 's) Handler \<Rightarrow> ('l, 'v) Record \<Rightarrow> ('l, 'v) Field list
      \<Rightarrow> ('l, 'v, 's) world \<Rightarrow> bytes option outcome \<times> ('l, 'v, 's) world" where
  "handle_fields env frame_of h r fs w =
     then_do (Core_Check (ops env) (h_core h) (record_entry h r) None w)
       (\<lambda>ce w1. case ce of
          None \<Rightarrow> (Ret None, w1)
        | Some ce \<Rightarrow>
            (case annotate_record env frame_of h r ce of
               None \<Rightarrow> (Diverges, w1)
             | Some ce1 \<Rightarrow>
                 (case CheckedEntry_Write (multierr env) (fmt env) (ops env) ce1 fs w1 of
                    ((res, _), w2) \<Rightarrow> then_do (res, w2) (\<lambda>_ w3. (Ret None, w3)))))"

definition Handle :: "('n, 'l, 'v) env \<Rightarrow> (nat \<Rightarrow> Frame) \<Rightarrow> 'l \<Rightarrow> ('n, 'l, 'v, 's) Handler \<Rightarrow> ('l, 'v) Record
      \<Rightarrow> ('l, 'v, 's) world \<Rightarrow> bytes option outcome \<times> ('l, 'v, 's) world" where
  "Handle env frame_of local h r w =
     handle_fields env frame_of h r (fst (attr_fields local (groups h) (r_Attrs r) [] False)) w"

section \<open>With is transparent\<close>

lemma attr_fields_append:
  "attr_fields local gs (at @ bt) fs added =
     (case attr_fields local gs at fs added of (fs1, added1) \<Rightarrow> attr_fields local gs bt fs1 added1)"
  by (induction local gs at fs added rule: attr_fields.induct) (simp_all add: Let_def)

lemma attr_fields_acc:
  "attr_fields local gs at (fs @ fs') added = map_prod (\<lambda>x. fs @ x) id (attr_fields local gs at fs' added)"
proof (induction local gs at fs' added rule: attr_fields.induct)
  case (2 local gs key v attrs fs' added)
  then show ?case
    by (simp add: Let_def appendGroups_def)
qed simp

lemma attr_fields_added: "fst (attr_fields local gs at fs True) = fst (attr_fields local [] at fs added)"
  by (induction at arbitrary: fs added) (auto simp: Let_def)

text \<open>The fields of two lists of attributes, the second one after the groups that the first one left.\<close>

lemma attr_fields_split:
  assumes "attr_fields local gs at [] False = (fs, added)"
  shows "fst (attr_fields local gs (at @ bt) [] False) = fs @ fst (attr_fields local (if added then [] else gs) bt [] False)"
proof -
  have "attr_fields local gs bt (fs @ []) added = map_prod (\<lambda>x. fs @ x) id (attr_fields local gs bt [] added)"
    by (rule attr_fields_acc)
  moreover have "fst (attr_fields local gs bt [] True) = fst (attr_fields local [] bt [] False)"
    by (rule attr_fields_added)
  ultimately show ?thesis
    using assms by (cases added) (simp_all add: attr_fields_append)
qed

context context_encoder
begin

lemma annotate_record_rel:
  assumes "ce_rel E fs (Some a) (Some b)"
  shows "rel_option (\<lambda>x y. ce_rel E fs (Some x) (Some y) \<and> before x = before a \<and> after x = after a \<and> dirty x = dirty a \<and> cores x = cores a)
    (annotate_record env frame_of h r a) (annotate_record env frame_of h r b)"
proof -
  obtain cs' where b: "b = a\<lparr>cores := cs'\<rparr>" "list_all2 (\<lambda>c c'. Core_With E fs c = Some c') (cores a) cs'"
    using assms by (auto simp: ce_rel_Some)
  then have "annotate_record env frame_of h r b = map_option (\<lambda>x. x\<lparr>cores := cs'\<rparr>) (annotate_record env frame_of h r a)"
    by (cases a, cases "Take (stack_frames env) (stack_storage env) (nat (3 + h_callerSkip h))")
      (simp_all add: annotate_record_def record_caller_def Let_def)
  moreover have "before x = before a \<and> after x = after a \<and> dirty x = dirty a \<and> cores x = cores a"
    if "annotate_record env frame_of h r a = Some x" for x
    using that by (auto simp: annotate_record_def record_caller_def Let_def split: if_splits)
  ultimately show ?thesis
    using b(2) by (cases "annotate_record env frame_of h r a") (auto simp: ce_rel_Some)
qed

lemma handle_with:
  assumes E: "ops env = E" and c': "Core_With E fs (h_core h) = Some c'" and enc: "encs_ok ok (h_core h)"
    and lazy: "lazy_ok False (h_core h)"
  shows "handle_fields env frame_of (h\<lparr>h_core := c', groups := gs\<rparr>) r hs w = handle_fields env frame_of h r (fs @ hs) w"
proof -
  let ?ent = "record_entry h r"
  have ent: "record_entry (h\<lparr>h_core := c', groups := gs\<rparr>) r = ?ent"
    by (simp add: record_entry_def)
  have ann: "annotate_record env frame_of (h\<lparr>h_core := c', groups := gs\<rparr>) r ce = annotate_record env frame_of h r ce" for ce
    by (simp add: annotate_record_def Let_def cong: if_cong)
  obtain d d' w1 where check: "Core_Check E (h_core h) ?ent None w = (Ret d, w1)"
      "Core_Check E c' ?ent None w = (Ret d', w1)" "ce_rel E fs d d'"
    using check_with(1) [OF c', of None None False ?ent w] lazy by auto
  have fresh: "ce_fresh ?ent d" and encs: "ce_encs_ok d"
    using fresh_check(1) [OF check(1)] check_encs_ok(1) [OF check(1) refl enc] by simp_all
  show ?thesis
  proof (cases d)
    case None
    then show ?thesis
      using check E by (simp add: handle_fields_def ent)
  next
    case (Some a)
    then obtain b where b: "d' = Some b" "ce_rel E fs (Some a) (Some b)"
      using check(3) by (cases d') auto
    note rel = annotate_record_rel [OF b(2), of env frame_of h r]
    show ?thesis
    proof (cases "annotate_record env frame_of h r a")
      case None
      then show ?thesis
        using rel Some b check E by (simp add: handle_fields_def ent ann)
    next
      case (Some x)
      then obtain y where y: "annotate_record env frame_of h r b = Some y" "ce_rel E fs (Some x) (Some y)"
          "before x = before a" "after x = after a" "dirty x = dirty a" "cores x = cores a"
        using rel by (auto simp: option_rel_Some1)
      have "map_prod fst id (CheckedEntry_Write (multierr env) (fmt env) E y hs w1)
          = map_prod fst id (CheckedEntry_Write (multierr env) (fmt env) E x (fs @ hs) w1)"
        using write_rel [OF y(2)] fresh encs \<open>d = Some a\<close> y by (simp add: ce_fresh_def ce_encs_ok_def)
      then show ?thesis
        using Some y(1) b \<open>d = Some a\<close> check E
        by (auto simp: handle_fields_def ent ann split: prod.split)
    qed
  qed
qed

end

section \<open>Properties\<close>

text \<open>C20. Attributes given to \<^verbatim>\<open>WithAttrs\<close> are logged like attributes at the start of the record, in the groups that
  were open: for every handler over cores with JSON encoders, with any groups pending, and also if the
  attributes are empty ones, which leave the groups pending.\<close>

theorem slog_with_attrs_is_transparent:
  assumes "encoder_contract G cf" and "ops env = json_ops G local" and "encs_ok (json_context cf) (h_core h)"
    and "lazy_ok False (h_core h)" and "WithAttrs env local at h = Some h'"
  shows "Handle env frame_of local h' (r\<lparr>r_Attrs := bt\<rparr>) w = Handle env frame_of local h (r\<lparr>r_Attrs := at @ bt\<rparr>) w"
proof -
  obtain fs added where fs: "attr_fields local (groups h) at [] False = (fs, added)"
    by fastforce
  then obtain c' where c': "Core_With (json_ops G local) fs (h_core h) = Some c'"
      and h': "h' = h\<lparr>h_core := c', groups := (if added then [] else groups h)\<rparr>"
    using assms(2,5) by (cases added) (auto simp: WithAttrs_def Let_def)
  have "handle_fields env frame_of h (r\<lparr>r_Attrs := at @ bt\<rparr>) hs w = handle_fields env frame_of h (r\<lparr>r_Attrs := bt\<rparr>) hs w" for hs
    by (simp add: handle_fields_def record_entry_def annotate_record_def cong: option.case_cong)
  then show ?thesis
    using context_encoder.handle_with [OF json_context_encoder [OF assms(1)] assms(2) c' assms(3,4)] attr_fields_split [OF fs, of bt]
    by (simp add: Handle_def h')
qed

lemma demo_fields_with:
  assumes "\<exists>r. obj_json plain_std (cfg production_encoder) (addFields () fs) = Some r"
  shows "\<exists>c. Core_With (json_ops plain_std ()) fs demo_core = Some c"
proof -
  have "cfg (json_Clone production_encoder) = cfg production_encoder"
    by (simp add: clone_emit)
  from production.fields_step [OF this, of "addFields () fs"] assms show ?thesis
    by (auto simp: Core_With_def demo_core_def NewCore_def json_ops_def)
qed

theorem slog_with_attrs_is_transparent_witness:
  "\<exists>h'. WithAttrs demo_env () [(''a'', SBool True)] (WithGroup ''g'' (NewHandler demo_core [])) = Some h'
    \<and> Handle demo_env (\<lambda>_. zero_Frame) () h' \<lparr>r_Level = 0, r_Time = \<lparr>t_nanos = 5, t_loc = ()\<rparr>, r_Message = ''m'', r_PC = 0,
        r_Attrs = [(''b'', SInt64 1)]\<rparr> demo_world
      = Handle demo_env (\<lambda>_. zero_Frame) () (WithGroup ''g'' (NewHandler demo_core [])) \<lparr>r_Level = 0, r_Time = \<lparr>t_nanos = 5, t_loc = ()\<rparr>,
        r_Message = ''m'', r_PC = 0, r_Attrs = [(''a'', SBool True), (''b'', SInt64 1)]\<rparr> demo_world"
proof -
  let ?h = "WithGroup ''g'' (NewHandler demo_core []) :: (_, unit, bytes, _) Handler"
  let ?at = "[(''a'', SBool True)] :: (unit, bytes) Attr list"
  have "\<exists>c. Core_With (json_ops plain_std ()) [Namespace_field ''g'', Bool_field ''a'' True] demo_core = Some c"
    by (rule demo_fields_with) (simp add: Field_AddTo_def field_ctor_defs add_prim_def val_json_def)
  then obtain h' where h': "WithAttrs demo_env () ?at ?h = Some h'"
    by (auto simp: WithAttrs_def WithGroup_def NewHandler_def appendGroups_def is_Skip_def Bool_field_def field_def demo_ops)
  have core: "h_core ?h = demo_core"
    by (simp add: WithGroup_def NewHandler_def)
  have "encs_ok (json_context (cfg production_encoder)) (h_core ?h)" "lazy_ok False (h_core ?h)"
    unfolding core by (simp_all add: demo_core_def NewCore_def json_context_production)
  from slog_with_attrs_is_transparent [OF production.contract demo_ops this h', where frame_of = "\<lambda>_. zero_Frame" and w = demo_world
      and bt = "[(''b'', SInt64 1)]" and r = "\<lparr>r_Level = 0, r_Time = \<lparr>t_nanos = 5, t_loc = ()\<rparr>, r_Message = ''m'', r_PC = 0, r_Attrs = []\<rparr>"] h'
  show ?thesis by simp
qed

text \<open>A group without attributes is written, and with it the groups that were pending: after \<^verbatim>\<open>WithGroup(g)\<close> a
  record whose only attribute is an empty group gives the empty object \<open>g\<close>.\<close>

theorem slog_empty_group_is_written:
  assumes "g \<noteq> []"
  shows "obj_json G c (addFields local (fst (attr_fields local (groups (WithGroup g (NewHandler core []))) [([], SGroup [])] [] False)))
    = Some (None, FNamespace g FNil)"
  using assms
  by (simp add: WithGroup_def NewHandler_def appendGroups_def is_Skip_def Inline_field_def Namespace_field_def field_def
      Field_AddTo_def add_error_def)

theorem slog_empty_group_is_written_witness:
  "obj_json plain_std (cfg production_encoder) (addFields () (fst (attr_fields ()
      (groups (WithGroup ''g'' (NewHandler demo_core []))) [([], SGroup [])] [] False))) = Some (None, FNamespace ''g'' FNil)"
  using slog_empty_group_is_written [of "''g''" plain_std "cfg production_encoder" "()" demo_core] by simp

end
