(* ===== verification/Sinks.thy ===== *)
theory Sinks
  imports Write_Syncer "HOL-Library.Multiset"
begin

text \<open>
  \<^verbatim>\<open>src/sink.go\<close> and \<^verbatim>\<open>Open\<close> of \<^verbatim>\<open>src/writer.go\<close>: the registry of sink factories, the factory for
  files, and the opening of several sinks at once.

  A sink is its three methods on the outside world.  What the code calls of other packages is gathered in a
  record: \<^verbatim>\<open>filepath.IsAbs\<close>, \<^verbatim>\<open>url.Parse\<close>, the printing of a URL and of the verb \<^verbatim>\<open>%q\<close>, the
  lower case of strings that are not ASCII, the standard streams and \<^verbatim>\<open>multierr.Append\<close>.
\<close>

section \<open>Sinks and URLs\<close>

record 's Sink =
  snk_Write :: "('s, bytes) write_fn"
  snk_Sync :: "('s, bytes) sync_fn"
  snk_Close :: "'s \<Rightarrow> bytes option \<times> 's"

definition sink_syncer :: "'s Sink \<Rightarrow> ('s, bytes) WriteSyncer" where
  "sink_syncer snk = ExtSyncer (snk_Write snk) (snk_Sync snk)"

record URL =
  Scheme :: bytes
  has_User :: bool
  Fragment :: bytes
  RawQuery :: bytes
  url_Port :: bytes
  Hostname :: bytes
  Path :: bytes

record 's sink_std =
  IsAbs :: "bytes \<Rightarrow> bool"
  url_Parse :: "bytes \<Rightarrow> bytes + URL"
  url_String :: "URL \<Rightarrow> bytes"
  Quote :: "bytes \<Rightarrow> bytes"
  QuoteByte :: "char \<Rightarrow> bytes"
  uni_lower :: "bytes \<Rightarrow> bytes"
  Stdout :: "('s, bytes) WriteSyncer"
  os_Stderr :: "('s, bytes) WriteSyncer"
  sink_append :: "bytes option \<Rightarrow> bytes option \<Rightarrow> bytes option"

definition nopCloserSink :: "'s sink_std \<Rightarrow> ('s, bytes) WriteSyncer \<Rightarrow> 's Sink" where
  "nopCloserSink P ws =
     \<lparr>snk_Write = WS_Write (sink_append P) ws, snk_Sync = WS_Sync (sink_append P) ws, snk_Close = (\<lambda>s. (None, s))\<rparr>"

section \<open>The registry\<close>

text \<open>A factory returns an error or a sink, and may act on the outside world.  \<^verbatim>\<open>os.OpenFile\<close> is the factory
  \<open>openFile\<close> with the name, the flags and the mode of the file.\<close>

type_synonym ('u, 's) factory = "'u \<Rightarrow> 's \<Rightarrow> (bytes + 's Sink) \<times> 's"

datatype open_flag = O_WRONLY | O_APPEND | O_CREATE

type_synonym 's open_fn = "(bytes \<times> open_flag list \<times> nat, 's) factory"

record 's sinkRegistry =
  factories :: "bytes \<rightharpoonup> (URL, 's) factory"
  openFile :: "'s open_fn"

definition schemeFile :: bytes where
  "schemeFile = ''file''"

text \<open>\<^verbatim>\<open>normalizeScheme\<close>; \<open>None\<close> is the panic of \<^verbatim>\<open>s[0]\<close> on an empty string.\<close>

definition scheme_byte :: "char \<Rightarrow> bool" where
  "scheme_byte c \<longleftrightarrow> 97 \<le> bval c \<and> bval c \<le> 122 \<or> 48 \<le> bval c \<and> bval c \<le> 57
     \<or> c = CHR ''.'' \<or> c = CHR ''+'' \<or> c = CHR ''-''"

fun scheme_rest :: "'s sink_std \<Rightarrow> bytes \<Rightarrow> bytes option" where
  "scheme_rest P [] = None"
| "scheme_rest P (c # cs) = (if scheme_byte c then scheme_rest P cs else Some (''may not contain '' @ QuoteByte P c))"

definition normalizeScheme :: "'s sink_std \<Rightarrow> bytes \<Rightarrow> (bytes + bytes) option" where
  "normalizeScheme P s =
     (case ToLower (uni_lower P) s of
        [] \<Rightarrow> None
      | first # rest \<Rightarrow>
          Some (if bval first < 97 \<or> 122 < bval first then Inl ''must start with a letter''
                else case scheme_rest P rest of Some err \<Rightarrow> Inl err | None \<Rightarrow> Inr (first # rest)))"

text \<open>\<^verbatim>\<open>RegisterSink\<close> of a registry: its error and the registry after the call.\<close>

definition RegisterSink :: "'s sink_std \<Rightarrow> bytes \<Rightarrow> (URL, 's) factory \<Rightarrow> 's sinkRegistry
      \<Rightarrow> (bytes option \<times> 's sinkRegistry) option" where
  "RegisterSink P scheme fac sr =
     (if scheme = [] then Some (Some ''can't register a sink factory for empty string'', sr)
      else case normalizeScheme P scheme of
        None \<Rightarrow> None
      | Some (Inl err) \<Rightarrow> Some (Some (Quote P scheme @ '' is not a valid scheme: '' @ err), sr)
      | Some (Inr normalized) \<Rightarrow>
          Some (if factories sr normalized \<noteq> None
                then (Some (''sink factory already registered for scheme '' @ Quote P normalized), sr)
                else (None, sr\<lparr>factories := (factories sr)(normalized \<mapsto> fac)\<rparr>)))"

section \<open>Files\<close>

definition newFileSinkFromPath :: "'s sink_std \<Rightarrow> 's open_fn \<Rightarrow> (bytes, 's) factory" where
  "newFileSinkFromPath P opn path s =
     (if path = ''stdout'' then (Inr (nopCloserSink P (Stdout P)), s)
      else if path = ''stderr'' then (Inr (nopCloserSink P (os_Stderr P)), s)
      else opn (path, [O_WRONLY, O_APPEND, O_CREATE], 438) s)"

definition newFileSinkFromURL :: "'s sink_std \<Rightarrow> 's open_fn \<Rightarrow> (URL, 's) factory" where
  "newFileSinkFromURL P opn u s =
     (if has_User u then (Inl (''user and password not allowed with file URLs: got '' @ url_String P u), s)
      else if Fragment u \<noteq> [] then (Inl (''fragments not allowed with file URLs: got '' @ url_String P u), s)
      else if RawQuery u \<noteq> [] then (Inl (''query parameters not allowed with file URLs: got '' @ url_String P u), s)
      else if url_Port u \<noteq> [] then (Inl (''ports not allowed with file URLs: got '' @ url_String P u), s)
      else if Hostname u \<noteq> [] \<and> Hostname u \<noteq> ''localhost''
      then (Inl (''file URLs must leave host empty or use localhost: got '' @ url_String P u), s)
      else newFileSinkFromPath P opn (Path u) s)"

text \<open>\<^verbatim>\<open>newSinkRegistry\<close>; \<open>opn\<close> is \<^verbatim>\<open>os.OpenFile\<close>.  The error of the registration is dropped.\<close>

definition newSinkRegistry :: "'s sink_std \<Rightarrow> 's open_fn \<Rightarrow> 's sinkRegistry option" where
  "newSinkRegistry P opn =
     map_option snd (RegisterSink P schemeFile (newFileSinkFromURL P opn) \<lparr>factories = Map.empty, openFile = opn\<rparr>)"

definition newSink :: "'s sink_std \<Rightarrow> 's sinkRegistry \<Rightarrow> (bytes, 's) factory" where
  "newSink P sr rawURL s =
     (if IsAbs P rawURL then newFileSinkFromPath P (openFile sr) rawURL s
      else case url_Parse P rawURL of
        Inl err \<Rightarrow> (Inl (''can't parse '' @ Quote P rawURL @ '' as a URL: '' @ err), s)
      | Inr u \<Rightarrow>
          let u = (if Scheme u = [] then u\<lparr>Scheme := schemeFile\<rparr> else u)
          in case factories sr (Scheme u) of
               None \<Rightarrow> (Inl (''no sink found for scheme '' @ Quote P (Scheme u)), s)
             | Some fac \<Rightarrow> fac u s)"

section \<open>Open\<close>

definition close_sinks :: "'s Sink list \<Rightarrow> 's \<Rightarrow> 's" where
  "close_sinks closers s = fold (\<lambda>c s. snd (snk_Close c s)) closers s"

text \<open>The loop of \<^verbatim>\<open>open\<close>: the sinks opened so far and the error so far.\<close>

fun open_loop :: "'s sink_std \<Rightarrow> 's sinkRegistry \<Rightarrow> bytes list \<Rightarrow> 's Sink list \<Rightarrow> bytes option \<Rightarrow> 's
      \<Rightarrow> ('s Sink list \<times> bytes option) \<times> 's" where
  "open_loop P sr [] sinks openErr s = ((sinks, openErr), s)"
| "open_loop P sr (path # paths) sinks openErr s =
     (case newSink P sr path s of
        (Inl err, s1) \<Rightarrow>
          open_loop P sr paths sinks (sink_append P openErr (Some (''open sink '' @ Quote P path @ '': '' @ err))) s1
      | (Inr snk, s1) \<Rightarrow> open_loop P sr paths (sinks @ [snk]) openErr s1)"

definition open_sinks :: "'s sink_std \<Rightarrow> 's sinkRegistry \<Rightarrow> bytes list \<Rightarrow> 's
      \<Rightarrow> (bytes + ('s, bytes) WriteSyncer list \<times> ('s \<Rightarrow> 's)) \<times> 's" where
  "open_sinks P sr paths s =
     (case open_loop P sr paths [] None s of
        ((sinks, Some err), s1) \<Rightarrow> (Inl err, close_sinks sinks s1)
      | ((sinks, None), s1) \<Rightarrow> (Inr (map sink_syncer sinks, close_sinks sinks), s1))"

definition Open :: "'s sink_std \<Rightarrow> 's sinkRegistry \<Rightarrow> bytes list \<Rightarrow> 's
      \<Rightarrow> (bytes + ('s, bytes) WriteSyncer \<times> ('s \<Rightarrow> 's)) \<times> 's" where
  "Open P sr paths s =
     (case open_sinks P sr paths s of
        (Inl err, s1) \<Rightarrow> (Inl err, s1)
      | (Inr (writers, closeAll), s1) \<Rightarrow> (Inr (CombineWriteSyncers writers, closeAll), s1))"

section \<open>What is opened is closed\<close>

text \<open>The contract of a factory: \<open>held\<close> are the handles that are open.  A factory that fails leaves them as they
  were; one that succeeds adds handles of its own, and closing the sink gives back those.\<close>

locale closing_factory =
  fixes held :: "'s \<Rightarrow> 'h multiset"
    and fac :: "('u, 's) factory"
  assumes fails: "fac u s = (Inl err, s') \<Longrightarrow> held s' = held s"
    and opens: "fac u s = (Inr snk, s')
      \<Longrightarrow> \<exists>hs. held s' = held s + hs \<and> (\<forall>t. held (snd (snk_Close snk t)) = held t - hs)"

text \<open>Paths, URLs and the registry keep the contract if \<^verbatim>\<open>os.OpenFile\<close> and the registered factories do.\<close>

lemma closing_path:
  assumes "closing_factory held opn"
  shows "closing_factory held (newFileSinkFromPath P opn)"
  using assms by (auto simp: closing_factory_def newFileSinkFromPath_def nopCloserSink_def split: if_splits)

lemma closing_url:
  assumes "closing_factory held opn"
  shows "closing_factory held (newFileSinkFromURL P opn)"
  using closing_path [OF assms, of P]
  by (auto simp: closing_factory_def newFileSinkFromURL_def split: if_splits)

definition closing_registry :: "('s \<Rightarrow> 'h multiset) \<Rightarrow> 's sinkRegistry \<Rightarrow> bool" where
  "closing_registry held sr \<longleftrightarrow> closing_factory held (openFile sr)
     \<and> (\<forall>scheme fac. factories sr scheme = Some fac \<longrightarrow> closing_factory held fac)"

lemma closing_registered:
  "closing_registry held sr \<Longrightarrow> factories sr scheme = Some fac \<Longrightarrow> closing_factory held fac"
  "closing_registry held sr \<Longrightarrow> closing_factory held (newFileSinkFromPath P (openFile sr))"
  by (auto simp: closing_registry_def intro: closing_path)

lemma closing_newSink:
  assumes "closing_registry held sr"
  shows "closing_factory held (newSink P sr)"
proof
  note known = closing_registered [OF assms]
  show "held s' = held s" if "newSink P sr u s = (Inl err, s')" for u s err s'
    using that known(1) [THEN closing_factory.fails] known(2) [THEN closing_factory.fails]
    by (auto simp: newSink_def Let_def split: if_splits sum.splits option.splits)
  show "\<exists>hs. held s' = held s + hs \<and> (\<forall>t. held (snd (snk_Close snk t)) = held t - hs)"
    if "newSink P sr u s = (Inr snk, s')" for u s snk s'
    using that known(1) [THEN closing_factory.opens] known(2) [THEN closing_factory.opens]
    by (auto simp: newSink_def Let_def split: if_splits sum.splits option.splits)
qed

lemma closing_register:
  assumes "closing_registry held sr" and "closing_factory held fac" and "RegisterSink P scheme fac sr = Some (err, sr')"
  shows "closing_registry held sr'"
  using assms by (auto simp: closing_registry_def RegisterSink_def split: if_splits option.splits sum.splits)

lemma closing_new_registry:
  assumes "closing_factory held opn" and "newSinkRegistry P opn = Some sr"
  shows "closing_registry held sr"
proof -
  have "closing_registry held \<lparr>factories = Map.empty, openFile = opn\<rparr>"
    using assms(1) by (simp add: closing_registry_def)
  then show ?thesis
    using assms(2) closing_register [OF _ closing_url [OF assms(1)]] by (auto simp: newSinkRegistry_def)
qed

lemma close_sinks_append: "close_sinks (xs @ ys) s = close_sinks ys (close_sinks xs s)"
  by (simp add: close_sinks_def)

lemma open_loop_held:
  assumes "closing_registry held sr" and "open_loop P sr paths sinks e s = ((sinks', e'), s')"
    and "held s = H0 + H" and "\<forall>t. held (close_sinks sinks t) = held t - H"
  shows "\<exists>H'. held s' = H0 + H' \<and> (\<forall>t. held (close_sinks sinks' t) = held t - H')"
  using assms(2-)
proof (induction paths arbitrary: sinks e s H)
  case (Cons path paths)
  note sink = closing_newSink [OF assms(1), of P]
  obtain r s1 where step: "newSink P sr path s = (r, s1)"
    by fastforce
  show ?case
  proof (cases r)
    case (Inl err)
    then show ?thesis
      using Cons step closing_factory.fails [OF sink, of path s err s1] by auto
  next
    case (Inr snk)
    then obtain hs where "held s1 = held s + hs" and "\<forall>t. held (snd (snk_Close snk t)) = held t - hs"
      using closing_factory.opens [OF sink, of path s snk s1] step by auto
    moreover from this have "\<forall>t. held (close_sinks (sinks @ [snk]) t) = held t - (H + hs)"
      using Cons.prems(3) by (simp add: close_sinks_append close_sinks_def)
    ultimately show ?thesis
      using Cons.prems Cons.IH [of "sinks @ [snk]" e s1 "H + hs"] step Inr by (auto simp: add.assoc)
  qed
qed auto

lemma Open_held:
  assumes "closing_registry held sr"
  shows "Open P sr paths s = (Inl err, s') \<Longrightarrow> held s' = held s"
    and "Open P sr paths s = (Inr (ws, closeAll), s')
      \<Longrightarrow> \<exists>H. held s' = held s + H \<and> (\<forall>t. held (closeAll t) = held t - H)"
proof -
  obtain sinks e s1 where loop: "open_loop P sr paths [] None s = ((sinks, e), s1)"
    by (metis prod.exhaust)
  then obtain H where "held s1 = held s + H" and "\<forall>t. held (close_sinks sinks t) = held t - H"
    using open_loop_held [OF assms loop, of "held s" "{#}"] by (auto simp: close_sinks_def)
  then show "Open P sr paths s = (Inl err, s') \<Longrightarrow> held s' = held s"
    and "Open P sr paths s = (Inr (ws, closeAll), s')
      \<Longrightarrow> \<exists>H. held s' = held s + H \<and> (\<forall>t. held (closeAll t) = held t - H)"
    using loop by (auto simp: Open_def open_sinks_def split: option.splits)
qed

text \<open>\<^verbatim>\<open>Open\<close> fails exactly if one of the paths does not open, in the state in which its turn comes.\<close>

fun all_open :: "'s sink_std \<Rightarrow> 's sinkRegistry \<Rightarrow> bytes list \<Rightarrow> 's \<Rightarrow> bool" where
  "all_open P sr [] s = True"
| "all_open P sr (path # paths) s =
     (case newSink P sr path s of (Inl err, s1) \<Rightarrow> False | (Inr snk, s1) \<Rightarrow> all_open P sr paths s1)"

lemma open_loop_error:
  assumes "multierr_ok (sink_append P)"
  shows "snd (fst (open_loop P sr paths sinks e s)) = None \<longleftrightarrow> e = None \<and> all_open P sr paths s"
  by (induction paths arbitrary: sinks e s) (auto simp: multierr_None [OF assms] split: prod.split sum.split)

lemma Open_succeeds:
  assumes "multierr_ok (sink_append P)"
  shows "(\<exists>x s'. Open P sr paths s = (Inr x, s')) \<longleftrightarrow> all_open P sr paths s"
proof -
  obtain sinks e s1 where "open_loop P sr paths [] None s = ((sinks, e), s1)"
    by (metis prod.exhaust)
  then show ?thesis
    using open_loop_error [OF assms, of sr paths "[]" None s]
    by (cases e) (auto simp: Open_def open_sinks_def)
qed

section \<open>The registry finds what was registered\<close>

lemma RegisterSink_None:
  assumes "RegisterSink P scheme fac sr = Some (None, sr')"
  shows "normalizeScheme P scheme = Some (Inr (ToLower (uni_lower P) scheme))"
    and "sr' = sr\<lparr>factories := (factories sr)(ToLower (uni_lower P) scheme \<mapsto> fac)\<rparr>"
  using assms
  by (auto simp: RegisterSink_def normalizeScheme_def split: if_splits option.splits sum.splits list.splits)

lemma normalizeScheme_cong:
  "ToLower (uni_lower P) a = ToLower (uni_lower P) b \<Longrightarrow> normalizeScheme P a = normalizeScheme P b"
  by (simp add: normalizeScheme_def)

text \<open>C38. A factory that \<^verbatim>\<open>RegisterSink\<close> has accepted makes the sinks of all URLs with its scheme, whatever the
  letter case it was registered with (\<^verbatim>\<open>url.Parse\<close> gives schemes in lower case).  All other paths and URLs
  open as they did before, and a second registration of the scheme in any letter case is refused and
  changes nothing.\<close>

theorem registered_scheme_is_found:
  assumes "RegisterSink P scheme fac sr = Some (None, sr')" and "lower = ToLower (uni_lower P) scheme"
  shows "(\<forall>raw u s. \<not> IsAbs P raw \<and> url_Parse P raw = Inr u \<and> Scheme u = lower \<longrightarrow> newSink P sr' raw s = fac u s)
    \<and> (\<forall>raw s. IsAbs P raw \<or> (\<forall>u. url_Parse P raw = Inr u \<longrightarrow> (if Scheme u = [] then schemeFile else Scheme u) \<noteq> lower)
        \<longrightarrow> newSink P sr' raw s = newSink P sr raw s)
    \<and> (\<forall>other fac'. other \<noteq> [] \<and> ToLower (uni_lower P) other = lower
        \<longrightarrow> (\<exists>err. RegisterSink P other fac' sr' = Some (Some err, sr')))"
proof -
  note reg = RegisterSink_None [OF assms(1)]
  have ne: "lower \<noteq> []"
    using reg(1) assms(2) by (auto simp: normalizeScheme_def)
  have "newSink P sr' raw s = fac u s" if "\<not> IsAbs P raw" and "url_Parse P raw = Inr u" and "Scheme u = lower" for raw u s
    using that ne assms(2) by (simp add: newSink_def reg(2))
  moreover have "newSink P sr' raw s = newSink P sr raw s"
    if "IsAbs P raw \<or> (\<forall>u. url_Parse P raw = Inr u \<longrightarrow> (if Scheme u = [] then schemeFile else Scheme u) \<noteq> lower)" for raw s
    using that assms(2) by (auto simp: newSink_def reg(2) Let_def split: sum.split)
  moreover have "\<exists>err. RegisterSink P other fac' sr' = Some (Some err, sr')"
    if "other \<noteq> []" and "ToLower (uni_lower P) other = lower" for other fac'
    using that assms(2) reg(1) normalizeScheme_cong [of P other scheme] by (simp add: RegisterSink_def reg(2))
  ultimately show ?thesis
    by blast
qed

section \<open>A file system to open files in\<close>

text \<open>The state is the list of names that may be opened and the multiset of open handles.\<close>

record demo_files =
  allowed :: "bytes list"
  handles :: "bytes multiset"

definition demo_open :: "demo_files open_fn" where
  "demo_open = (\<lambda>(path, flags, mode) s.
     if path \<in> set (allowed s)
     then (Inr \<lparr>snk_Write = (\<lambda>p s. ((int (length p), None), s)), snk_Sync = (\<lambda>s. (None, s)),
             snk_Close = (\<lambda>s. (None, s\<lparr>handles := handles s - {#path#}\<rparr>))\<rparr>,
           s\<lparr>handles := add_mset path (handles s)\<rparr>)
     else (Inl (''open '' @ path @ '': permission denied''), s))"

definition demo_stream :: "('s, bytes) WriteSyncer" where
  "demo_stream = ExtSyncer (\<lambda>p s. ((int (length p), None), s)) (\<lambda>s. (None, s))"

definition demo_std :: "('s, bytes) WriteSyncer \<Rightarrow> 's sink_std" where
  "demo_std out =
     \<lparr>IsAbs = (\<lambda>p. take 1 p = ''/''),
      url_Parse = (\<lambda>p. if take 4 p = ''mem:'' then Inr \<lparr>Scheme = ''mem'', has_User = False, Fragment = [], RawQuery = [],
                          url_Port = [], Hostname = [], Path = drop 4 p\<rparr>
                       else Inr \<lparr>Scheme = [], has_User = False, Fragment = [], RawQuery = [],
                          url_Port = [], Hostname = [], Path = p\<rparr>),
      url_String = (\<lambda>u. Scheme u @ CHR '':'' # Path u), Quote = (\<lambda>s. [CHR 0x22] @ s @ [CHR 0x22]),
      QuoteByte = (\<lambda>c. [c]), uni_lower = id, Stdout = out, os_Stderr = out, sink_append = join_errors\<rparr>"

interpretation file_opens: closing_factory handles demo_open
  by unfold_locales (auto simp: demo_open_def split: if_splits)

interpretation url_opens: closing_factory handles "newFileSinkFromURL (demo_std demo_stream) demo_open"
  by (rule closing_url [OF file_opens.closing_factory_axioms])

text \<open>A factory in memory, registered in capitals.\<close>

definition demo_memory :: "(URL, demo_files) factory" where
  "demo_memory u s = (Inr (nopCloserSink (demo_std demo_stream) demo_stream), s)"

lemma demo_registers:
  "\<exists>sr sr'. newSinkRegistry (demo_std demo_stream) demo_open = Some sr \<and> RegisterSink (demo_std demo_stream) ''MEM'' demo_memory sr = Some (None, sr')"
  by (simp add: newSinkRegistry_def RegisterSink_def normalizeScheme_def schemeFile_def ToLower_def ascii_def demo_std_def
      scheme_byte_def lower_byte_def)

lemma demo_lower: "map lower_byte ''MEM'' = ''mem''" "map lower_byte ''mEm'' = ''mem''"
  by code_simp+

theorem registered_scheme_is_found_witness:
  "\<exists>sr sr'. newSinkRegistry (demo_std demo_stream) demo_open = Some sr \<and> RegisterSink (demo_std demo_stream) ''MEM'' demo_memory sr = Some (None, sr')
    \<and> newSink (demo_std demo_stream) sr' ''mem:x'' \<lparr>allowed = [], handles = {#}\<rparr>
      = (Inr (nopCloserSink (demo_std demo_stream) demo_stream), \<lparr>allowed = [], handles = {#}\<rparr>)
    \<and> (\<exists>err. RegisterSink (demo_std demo_stream) ''mEm'' demo_memory sr' = Some (Some err, sr'))"
proof -
  obtain sr sr' where sr: "newSinkRegistry (demo_std demo_stream) demo_open = Some sr" "RegisterSink (demo_std demo_stream) ''MEM'' demo_memory sr = Some (None, sr')"
    using demo_registers by blast
  have lower: "''mem'' = ToLower (uni_lower (demo_std demo_stream)) ''MEM''" "ToLower (uni_lower (demo_std demo_stream)) ''mEm'' = ''mem''"
    using demo_lower by (simp_all add: ToLower_def ascii_def)
  have url: "\<not> IsAbs (demo_std demo_stream) ''mem:x''" "url_Parse (demo_std demo_stream) ''mem:x'' = Inr \<lparr>Scheme = ''mem'', has_User = False, Fragment = [],
      RawQuery = [], url_Port = [], Hostname = [], Path = ''x''\<rparr>"
    by (simp_all add: demo_std_def)
  show ?thesis
    using registered_scheme_is_found [OF sr(2) lower(1)] sr lower(2) url by (fastforce simp: demo_memory_def)
qed

end
