(* ===== verification/Config.thy ===== *)
theory Config
  imports Sinks Logger Console_Encoder "HOL-Library.List_Lexorder" "HOL-Library.Char_ord"
begin

text \<open>
  \<^verbatim>\<open>src/encoder.go\<close>, \<^verbatim>\<open>src/config.go\<close> and the presets of \<^verbatim>\<open>src/logger.go\<close>: loggers made from a
  configuration.

  A configuration may name an encoder of zap or one that a user has registered, so that the encoders of a core
  are a sum.  A nonzero \<^verbatim>\<open>AtomicLevel\<close> is a pointer; it is modelled by the function that reads it in the
  outside world.
\<close>

section \<open>Encoders\<close>

datatype ('l, 'v, 'x) config_encoder =
    JsonEnc "('l, 'v) jsonEncoder"
  | ConsoleEnc "('l, 'v) jsonEncoder"
  | UserEnc 'x

text \<open>The methods of the encoders; \<open>U\<close> are those of the registered ones.\<close>

definition console_ops :: "('l time prim \<Rightarrow> bytes) \<Rightarrow> ('l, 'v) gostd \<Rightarrow> 'l \<Rightarrow> (('l, 'v) jsonEncoder, 'l, 'v) Encoder" where
  "console_ops fprint G local =
     \<lparr>enc_Clone = console_Clone,
      enc_addFields = (\<lambda>fs enc. map_option snd (json_obj G (addFields local fs) enc)),
      enc_EncodeEntry = (\<lambda>ent fs enc. map_option (\<lambda>b. Inr (Buffer_Bytes b)) (console_EncodeEntry fprint G local ent fs enc))\<rparr>"

definition config_ops :: "('x, 'l, 'v) Encoder \<Rightarrow> ('l time prim \<Rightarrow> bytes) \<Rightarrow> ('l, 'v) gostd \<Rightarrow> 'l
      \<Rightarrow> (('l, 'v, 'x) config_encoder, 'l, 'v) Encoder" where
  "config_ops U fprint G local =
     \<lparr>enc_Clone = (\<lambda>enc. case enc of
        JsonEnc e \<Rightarrow> JsonEnc (enc_Clone (json_ops G local) e)
      | ConsoleEnc e \<Rightarrow> ConsoleEnc (enc_Clone (console_ops fprint G local) e)
      | UserEnc e \<Rightarrow> UserEnc (enc_Clone U e)),
      enc_addFields = (\<lambda>fs enc. case enc of
        JsonEnc e \<Rightarrow> map_option JsonEnc (enc_addFields (json_ops G local) fs e)
      | ConsoleEnc e \<Rightarrow> map_option ConsoleEnc (enc_addFields (console_ops fprint G local) fs e)
      | UserEnc e \<Rightarrow> map_option UserEnc (enc_addFields U fs e)),
      enc_EncodeEntry = (\<lambda>ent fs enc. case enc of
        JsonEnc e \<Rightarrow> enc_EncodeEntry (json_ops G local) ent fs e
      | ConsoleEnc e \<Rightarrow> enc_EncodeEntry (console_ops fprint G local) ent fs e
      | UserEnc e \<Rightarrow> enc_EncodeEntry U ent fs e)\<rparr>"

type_synonym ('l, 'v, 'n) encoders = "bytes \<rightharpoonup> (('l, 'v) EncoderConfig \<Rightarrow> bytes + 'n)"

definition errNoEncoderNameSpecified :: bytes where
  "errNoEncoderNameSpecified = ''no encoder name specified''"

definition encoderNameToConstructor :: "('l, 'v) gostd \<Rightarrow> ('l, 'v, ('l, 'v, 'x) config_encoder) encoders" where
  "encoderNameToConstructor G =
     [''console'' \<mapsto> (\<lambda>c. Inr (ConsoleEnc (NewConsoleEncoder G c))), ''json'' \<mapsto> (\<lambda>c. Inr (JsonEnc (NewJSONEncoder G c)))]"

definition RegisterEncoder :: "(bytes \<Rightarrow> bytes) \<Rightarrow> bytes \<Rightarrow> (('l, 'v) EncoderConfig \<Rightarrow> bytes + 'n) \<Rightarrow> ('l, 'v, 'n) encoders
      \<Rightarrow> bytes option \<times> ('l, 'v, 'n) encoders" where
  "RegisterEncoder quote name ctor reg =
     (if name = [] then (Some errNoEncoderNameSpecified, reg)
      else if reg name \<noteq> None then (Some (''encoder already registered for name '' @ quote name), reg)
      else (None, reg(name \<mapsto> ctor)))"

definition newEncoder :: "(bytes \<Rightarrow> bytes) \<Rightarrow> ('l, 'v, 'n) encoders \<Rightarrow> bytes \<Rightarrow> ('l, 'v) EncoderConfig \<Rightarrow> bytes + 'n" where
  "newEncoder quote reg name c =
     (if TimeKey c \<noteq> [] \<and> EncodeTime c = None then Inl ''missing EncodeTime in EncoderConfig''
      else if name = [] then Inl errNoEncoderNameSpecified
      else case reg name of
             None \<Rightarrow> Inl (''no encoder registered for name '' @ quote name)
           | Some ctor \<Rightarrow> ctor c)"

section \<open>Configurations\<close>

record ('l, 's) SamplingConfig =
  Initial :: int64
  Thereafter :: int64
  Hook :: "('l Entry \<Rightarrow> SamplingDecision \<Rightarrow> 's \<Rightarrow> 's) option"

text \<open>\<^verbatim>\<open>InitialFields\<close> is a map; it is given as its entries in the order in which the range loop of
  \<^verbatim>\<open>buildOptions\<close> meets them, which Go leaves open.\<close>

record ('l, 'v, 's) Config =
  cf_Level :: "('s \<Rightarrow> Level) option"
  cf_Development :: bool
  DisableCaller :: bool
  DisableStacktrace :: bool
  Sampling :: "('l, 's) SamplingConfig option"
  Encoding :: bytes
  cf_EncoderConfig :: "('l, 'v) EncoderConfig"
  OutputPaths :: "bytes list"
  ErrorOutputPaths :: "bytes list"
  InitialFields :: "(bytes \<times> ('l, 'v) goval) list"

text \<open>An \<^verbatim>\<open>AtomicLevel\<close> as an enabler, and the allocation of one by \<^verbatim>\<open>NewAtomicLevelAt\<close>, a parameter.\<close>

definition atomic_enabler :: "('s \<Rightarrow> Level) \<Rightarrow> 's LevelEnabler" where
  "atomic_enabler rd = \<lparr>en_Enabled = (\<lambda>lvl s. Level_Enabled (rd s) lvl), en_Level = (\<lambda>s. Some (rd s))\<rparr>"

definition NewProductionConfig :: "(Level \<Rightarrow> 's \<Rightarrow> ('s \<Rightarrow> Level) \<times> 's) \<Rightarrow> (int \<Rightarrow> int \<Rightarrow> uint64) \<Rightarrow> 's
      \<Rightarrow> ('l, 'v, 's) Config \<times> 's" where
  "NewProductionConfig newAtomic fdiv s =
     (case newAtomic InfoLevel s of (rd, s1) \<Rightarrow>
        (\<lparr>cf_Level = Some rd, cf_Development = False, DisableCaller = False, DisableStacktrace = False,
          Sampling = Some \<lparr>Initial = 100, Thereafter = 100, Hook = None\<rparr>,
          Encoding = ''json'', cf_EncoderConfig = NewProductionEncoderConfig fdiv,
          OutputPaths = [''stderr''], ErrorOutputPaths = [''stderr''], InitialFields = []\<rparr>, s1))"

definition NewDevelopmentConfig :: "(Level \<Rightarrow> 's \<Rightarrow> ('s \<Rightarrow> Level) \<times> 's) \<Rightarrow> (int64 \<Rightarrow> bytes) \<Rightarrow> 's
      \<Rightarrow> ('l, 'v, 's) Config \<times> 's" where
  "NewDevelopmentConfig newAtomic dstring s =
     (case newAtomic DebugLevel s of (rd, s1) \<Rightarrow>
        (\<lparr>cf_Level = Some rd, cf_Development = True, DisableCaller = False, DisableStacktrace = False, Sampling = None,
          Encoding = ''console'', cf_EncoderConfig = NewDevelopmentEncoderConfig dstring,
          OutputPaths = [''stderr''], ErrorOutputPaths = [''stderr''], InitialFields = []\<rparr>, s1))"

section \<open>Build\<close>

text \<open>The package variables that \<^verbatim>\<open>Build\<close> reads, the parameters of the other definitions and the number of the
  counters that a sampler allocates.\<close>

record ('n, 'l, 'v, 's) build_env =
  b_std :: "'s sink_std"
  b_sinks :: "'s sinkRegistry"
  b_encoders :: "('l, 'v, 'n) encoders"
  b_env :: "('n, 'l, 'v) env"
  b_clock :: "'s \<Rightarrow> 'l time"
  b_local :: 'l
  b_counters :: nat

definition buildEncoder :: "('n, 'l, 'v, 's) build_env \<Rightarrow> ('l, 'v, 's) Config \<Rightarrow> bytes + 'n" where
  "buildEncoder B c = newEncoder (Quote (b_std B)) (b_encoders B) (Encoding c) (cf_EncoderConfig c)"

definition openSinks :: "('n, 'l, 'v, 's) build_env \<Rightarrow> ('l, 'v, 's) Config \<Rightarrow> 's
      \<Rightarrow> (bytes + ('s, bytes) WriteSyncer \<times> ('s, bytes) WriteSyncer) \<times> 's" where
  "openSinks B c s =
     (case Open (b_std B) (b_sinks B) (OutputPaths c) s of
        (Inl err, s1) \<Rightarrow> (Inl err, s1)
      | (Inr (sink, closeOut), s1) \<Rightarrow>
          (case Open (b_std B) (b_sinks B) (ErrorOutputPaths c) s1 of
             (Inl err, s2) \<Rightarrow> (Inl err, closeOut s2)
           | (Inr (errSink, _), s2) \<Rightarrow> (Inr (sink, errSink), s2)))"

definition initial_fields :: "'l \<Rightarrow> (bytes \<times> ('l, 'v) goval) list \<Rightarrow> ('l, 'v) Field list" where
  "initial_fields local kvs = map (\<lambda>k. Any_field local k (the (map_of kvs k))) (sort (map fst kvs))"

definition time_Second :: int64 where
  "time_Second = 1000000000"

definition buildOptions :: "('n, 'l, 'v, 's) build_env \<Rightarrow> ('l, 'v, 's) Config \<Rightarrow> ('s, bytes) WriteSyncer
      \<Rightarrow> ('n, 'l, 'v, 's) Opt list" where
  "buildOptions B c errSink =
     [ErrorOutput_option errSink]
     @ (if cf_Development c then [Development] else [])
     @ (if \<not> DisableCaller c then [AddCaller] else [])
     @ (let stackLevel = (if cf_Development c then WarnLevel else ErrorLevel)
        in if \<not> DisableStacktrace c then [AddStacktrace (level_enabler stackLevel)] else [])
     @ (case Sampling c of
          None \<Rightarrow> []
        | Some scfg \<Rightarrow>
            [WrapCore (\<lambda>core. NewSamplerWithOptions (b_counters B) core time_Second (Initial scfg) (Thereafter scfg) (Hook scfg))])
     @ (if InitialFields c \<noteq> [] then [Fields (b_env B) (initial_fields (b_local B) (InitialFields c))] else [])"

definition Build :: "('n, 'l, 'v, 's) build_env \<Rightarrow> ('l, 'v, 's) Config \<Rightarrow> ('n, 'l, 'v, 's) Opt list \<Rightarrow> ('l, 'v, 's) world
      \<Rightarrow> (bytes + ('n, 'l, 'v, 's) Logger) outcome \<times> ('l, 'v, 's) world" where
  "Build B c opts w =
     (case buildEncoder B c of
        Inl err \<Rightarrow> (Ret (Inl err), w)
      | Inr enc \<Rightarrow>
          (case cf_Level c of
             None \<Rightarrow> (Ret (Inl ''missing Level''), w)
           | Some rd \<Rightarrow>
               (case openSinks B c (outside w) of
                  (Inl err, s1) \<Rightarrow> (Ret (Inl err), w\<lparr>outside := s1\<rparr>)
                | (Inr (sink, errSink), s1) \<Rightarrow>
                    then_do (Logger_New (b_clock B) (os_Stderr (b_std B)) (Some (NewCore enc sink (atomic_enabler rd)))
                        (buildOptions B c errSink) (w\<lparr>outside := s1\<rparr>))
                      (\<lambda>log w1. then_do (if opts \<noteq> [] then WithOptions opts log w1 else (Ret log, w1))
                        (\<lambda>log w2. (Ret (Inr log), w2))))))"

section \<open>Presets\<close>

definition NewProduction where
  "NewProduction newAtomic fdiv B opts w =
     (case NewProductionConfig newAtomic fdiv (outside w) of (c, s1) \<Rightarrow> Build B c opts (w\<lparr>outside := s1\<rparr>))"

definition NewDevelopment where
  "NewDevelopment newAtomic dstring B opts w =
     (case NewDevelopmentConfig newAtomic dstring (outside w) of (c, s1) \<Rightarrow> Build B c opts (w\<lparr>outside := s1\<rparr>))"

definition Must :: "bytes + ('n, 'l, 'v, 's) Logger \<Rightarrow> ('n, 'l, 'v, 's) Logger outcome" where
  "Must r = (case r of Inl err \<Rightarrow> Panics err | Inr logger \<Rightarrow> Ret logger)"

definition NewExample :: "('l, 'v) gostd \<Rightarrow> (int64 \<Rightarrow> bytes) \<Rightarrow> (('l, 'v, 'x) config_encoder, 'l, 'v, 's) build_env
      \<Rightarrow> (('l, 'v, 'x) config_encoder, 'l, 'v, 's) Opt list \<Rightarrow> ('l, 'v, 's) world
      \<Rightarrow> (('l, 'v, 'x) config_encoder, 'l, 'v, 's) Logger outcome \<times> ('l, 'v, 's) world" where
  "NewExample G dstring B opts w =
     (let encoderCfg = \<lparr>MessageKey = ''msg'', LevelKey = ''level'', TimeKey = [], NameKey = ''logger'', CallerKey = [],
            FunctionKey = [], StacktraceKey = [], SkipLineEnding = False, LineEnding = [],
            EncodeLevel = Some LowercaseLevelEncoder, EncodeTime = Some ISO8601TimeEncoder,
            EncodeDuration = Some (StringDurationEncoder dstring), EncodeCaller = None, EncodeName = None,
            NewReflectedEncoder = None, ConsoleSeparator = []\<rparr>;
          core = NewCore (JsonEnc (NewJSONEncoder G encoderCfg)) (Stdout (b_std B)) (level_enabler DebugLevel)
      in then_do (Logger_New (b_clock B) (os_Stderr (b_std B)) (Some core) [] w) (\<lambda>log w1. WithOptions opts log w1))"

section \<open>Errors of Build\<close>

lemma openSinks_error:
  assumes "closing_registry held (b_sinks B)" and "openSinks B c s = (Inl err, s')"
  shows "held s' = held s"
proof -
  obtain r s1 where out: "Open (b_std B) (b_sinks B) (OutputPaths c) s = (r, s1)"
    by fastforce
  show ?thesis
  proof (cases r)
    case (Inl e)
    then show ?thesis
      using assms(2) out Open_held(1) [OF assms(1)] by (auto simp: openSinks_def)
  next
    case (Inr x)
    obtain ws closeOut where x: "x = (ws, closeOut)"
      by fastforce
    then obtain H where H: "held s1 = held s + H" "held (closeOut t) = held t - H" for t
      using out Inr Open_held(2) [OF assms(1)] by metis
    have "\<exists>s2. Open (b_std B) (b_sinks B) (ErrorOutputPaths c) s1 = (Inl err, s2) \<and> s' = closeOut s2"
      using assms(2) out Inr x by (auto simp: openSinks_def split: prod.splits sum.splits)
    then show ?thesis
      using Open_held(1) [OF assms(1)] H by (metis add_diff_cancel_right')
  qed
qed

text \<open>C11. A \<^verbatim>\<open>Build\<close> that returns an error has closed everything it opened: whichever of the output paths and error
  output paths failed, the open handles are those from before the call, and no sampler was made.  The
  assumption is the contract of the registered factories and of \<^verbatim>\<open>os.OpenFile\<close>.\<close>

theorem build_error_leaks_nothing:
  assumes "closing_registry held (b_sinks B)" and "Build B c opts w = (Ret (Inl err), w')"
  shows "held (outside w') = held (outside w) \<and> counts w' = counts w \<and> observed w' = observed w"
  using assms(2) openSinks_error [OF assms(1), of c "outside w"]
  by (auto simp: Build_def then_do_Ret split: sum.splits option.splits prod.splits)

text \<open>The order in which the range loop of \<^verbatim>\<open>buildOptions\<close> meets the entries of \<^verbatim>\<open>InitialFields\<close>, which Go does
  not determine, has no influence on the logger that \<^verbatim>\<open>Build\<close> returns.\<close>

theorem build_ignores_map_order:
  assumes "distinct (map fst kvs)" and "mset kvs = mset kvs'"
  shows "Build B (c\<lparr>InitialFields := kvs\<rparr>) opts w = Build B (c\<lparr>InitialFields := kvs'\<rparr>) opts w"
proof -
  have "distinct (map fst kvs')"
    using assms by (metis mset_eq_imp_distinct_iff mset_map)
  then have "map_of kvs = map_of kvs'"
    using assms by (metis map_of_inject_set mset_eq_setD)
  moreover have "sort (map fst kvs) = sort (map fst kvs')"
    using assms(2) by (metis mset_map properties_for_sort sorted_sort mset_sort)
  moreover have "kvs = [] \<longleftrightarrow> kvs' = []"
    using assms(2) by (metis mset_zero_iff)
  ultimately have "buildOptions B (c\<lparr>InitialFields := kvs\<rparr>) errSink = buildOptions B (c\<lparr>InitialFields := kvs'\<rparr>) errSink" for errSink
    by (simp add: buildOptions_def initial_fields_def Let_def)
  moreover have "buildEncoder B (c\<lparr>InitialFields := x\<rparr>) = buildEncoder B c"
      "openSinks B (c\<lparr>InitialFields := x\<rparr>) = openSinks B c" for x
    by (simp_all add: buildEncoder_def openSinks_def fun_eq_iff split: prod.split sum.split)
  ultimately show ?thesis
    by (simp add: Build_def split: sum.split option.split prod.split)
qed

section \<open>A production logger\<close>

text \<open>The path \<^verbatim>\<open>stderr\<close> is not absolute and parses as a URL of which only the path is set, and the registry has the
  factory for files.\<close>

definition stderr_opens :: "'s sink_std \<Rightarrow> 's sinkRegistry \<Rightarrow> bool" where
  "stderr_opens P sr \<longleftrightarrow> \<not> IsAbs P ''stderr''
     \<and> url_Parse P ''stderr'' = Inr \<lparr>Scheme = [], has_User = False, Fragment = [], RawQuery = [], url_Port = [], Hostname = [],
         Path = ''stderr''\<rparr>
     \<and> (\<exists>opn. factories sr schemeFile = Some (newFileSinkFromURL P opn))"

definition stderr_sink :: "'s sink_std \<Rightarrow> ('s, bytes) WriteSyncer" where
  "stderr_sink P = lockedWriteSyncer (sink_syncer (nopCloserSink P (os_Stderr P)))"

lemma open_stderr:
  assumes "stderr_opens P sr"
  shows "\<exists>closeAll. Open P sr [''stderr''] s = (Inr (stderr_sink P, closeAll), s)"
  using assms
  by (auto simp: stderr_opens_def stderr_sink_def Open_def open_sinks_def newSink_def newFileSinkFromURL_def
      newFileSinkFromPath_def CombineWriteSyncers_def NewMultiWriteSyncer_def sink_syncer_def)

lemma write_stderr_sink: "WS_Write app (stderr_sink P) p s = WS_Write (sink_append P) (os_Stderr P) p s"
  by (simp add: stderr_sink_def sink_syncer_def nopCloserSink_def)

definition production_logger :: "('n, 'l, 'v, 's) build_env \<Rightarrow> 'n \<Rightarrow> ('s \<Rightarrow> Level) \<Rightarrow> ('n, 'l, 'v, 's) Logger" where
  "production_logger B enc rd =
     \<lparr>lg_core = sampler (ioCore (atomic_enabler rd) enc (stderr_sink (b_std B))) (b_counters B) time_Second 100 100 (\<lambda>ent d s. s),
      development = False, addCaller = True, onPanic = None, onFatal = None, lg_name = [],
      errorOutput = stderr_sink (b_std B), addStack = level_enabler ErrorLevel, callerSkip = 0, clock = b_clock B\<rparr>"

lemmas option_defs = ErrorOutput_option_def Development_def AddCaller_def WithCaller_def AddStacktrace_def WrapCore_def
  Fields_def NewSamplerWithOptions_def

lemma production_builds:
  assumes "stderr_opens (b_std B) (b_sinks B)" and "b_encoders B ''json'' = Some (\<lambda>c. Inr (mk c))"
    and "newAtomic InfoLevel (outside w) = (rd, s1)"
  shows "NewProduction newAtomic fdiv B [] w
    = (Ret (Inr (production_logger B (mk (NewProductionEncoderConfig fdiv)) rd)),
       w\<lparr>outside := s1, counts := (counts w)(b_counters B := newCounters)\<rparr>)"
proof -
  obtain closeAll where open1: "Open (b_std B) (b_sinks B) [''stderr''] s1 = (Inr (stderr_sink (b_std B), closeAll), s1)"
    using open_stderr [OF assms(1)] by blast
  then show ?thesis
    using assms(2,3)
    by (simp add: NewProduction_def NewProductionConfig_def Build_def buildEncoder_def newEncoder_def openSinks_def
        NewProductionEncoderConfig_def Logger_New_def buildOptions_def option_defs new_Logger_def NewCore_def
        production_logger_def)
qed

lemma production_sampled:
  assumes "counts w cid = newCounters" and "ent_Level ent = InfoLevel"
  shows "\<exists>cs. sampler_step cid tick 100 100 (\<lambda>ent d s. s) ent w = (True, w\<lparr>counts := cs\<rparr>)"
  using assms
  by (auto simp: sampler_step_def IncCheckReset_def newCounters_def counters_get_def sampling_decision_def level_simps
      Let_def split: prod.split)

text \<open>An enabled info entry of a production logger, with the frame of its caller captured.\<close>

lemma production_info:
  assumes "multierr_ok (multierr env)" and "rd (outside w) = InfoLevel" and "counts w (b_counters B) = newCounters"
    and "Capture (stack_frames env) (stack_storage env) 2 First = Some (pcs, m)" and "pcs \<noteq> []"
    and "ent = (new_entry (production_logger B enc rd) InfoLevel msg (outside w))
        \<lparr>ent_Caller := frame_caller (fst (fst (Stack_Next pcs)))\<rparr>"
    and "enc_EncodeEntry (ops env) ent fs enc = Some (Inr line)"
    and "WS_Write (sink_append (b_std B)) (os_Stderr (b_std B)) line (outside w) = ((n, None), s2)"
  shows "\<exists>w2. Logger_Info env (production_logger B enc rd) msg fs w = (Ret (), w2) \<and> outside w2 = s2"
proof -
  let ?log = "production_logger B enc rd"
  let ?ent = "new_entry ?log InfoLevel msg (outside w)"
  let ?io = "ioCore (atomic_enabler rd) enc (stderr_sink (b_std B))"
  obtain cs where step: "sampler_step (b_counters B) time_Second 100 100 (\<lambda>ent d s. s) ?ent w = (True, w\<lparr>counts := cs\<rparr>)"
    using production_sampled [OF assms(3), of ?ent] by (auto simp: new_entry_def)
  have "Core_Check (ops env) (lg_core ?log) ?ent None w = (Ret (Some (AddCore ?ent ?io None)), w\<lparr>counts := cs\<rparr>)"
    using assms(2) step
    by (simp add: production_logger_def new_entry_def atomic_enabler_def Level_Enabled_def)
  then have "Logger_check env ?log InfoLevel msg w
      = (Ret (Some (annotate True False pcs ((AddCore ?ent ?io None)\<lparr>ErrorOutput := Some (stderr_sink (b_std B))\<rparr>))), w\<lparr>counts := cs\<rparr>)"
    using assms(2,4,5)
    by (simp add: Logger_check_def set_terminal_def annotate_entry_def new_entry_def production_logger_def
        atomic_enabler_def level_enabler_def Level_Enabled_def AddCore_def ce_or_new_def getCheckedEntry_def Stack_Count_def
        level_simps Let_def)
  moreover have "multiCore_Write (multierr env) (ops env) [?io] ent fs None (w\<lparr>counts := cs\<rparr>)
      = (Ret None, w\<lparr>counts := cs, outside := s2\<rparr>)"
    using assms(1,6,7,8) by (simp add: ioCore_Write_def write_stderr_sink new_entry_def level_simps multierr_left)
  ultimately show ?thesis
    using assms(6)
    by (simp add: Logger_Info_def Logger_Log_def CheckedEntry_Write_def run_before_def annotate_def AddCore_def
        ce_or_new_def getCheckedEntry_def Let_def)
qed

text \<open>C5. From the preset to the bytes: \<^verbatim>\<open>NewProduction\<close> returns a logger, and its first \<^verbatim>\<open>Info\<close> writes to standard error,
  at once and as a whole, one line with the JSON object of the entry: its level, time, message and caller and the
  fields of the call.  The assumptions are the parsing of the path \<^verbatim>\<open>stderr\<close>, that the stack has a caller, that
  the level was not changed, that no marshaler panics and that standard error accepts the line.\<close>

theorem production_logger_writes_json:
  assumes "multierr_ok (multierr (b_env B))" and "ops (b_env B) = config_ops U fprint G (b_local B)"
    and "b_encoders B = encoderNameToConstructor G" and "stderr_opens (b_std B) (b_sinks B)"
    and "newAtomic InfoLevel (outside w) = (rd, s1)" and "rd s1 = InfoLevel"
    and "Capture (stack_frames (b_env B)) (stack_storage (b_env B)) 2 First = Some (pcs, m)" and "pcs \<noteq> []"
    and "ent = \<lparr>ent_Level = InfoLevel, ent_Time = b_clock B s1, LoggerName = [], Message = msg,
        ent_Caller = frame_caller (fst (fst (Stack_Next pcs))), Stack = []\<rparr>"
    and "c = cfg (NewJSONEncoder G (NewProductionEncoderConfig fdiv))" and "encoder_contract G c"
    and "obj_json G c (addFields (b_local B) fs) = Some (err, flds)"
    and "WS_Write (sink_append (b_std B)) (os_Stderr (b_std B)) (print_json False (entry_json G c ent flds) @ [newline]) s1
        = ((n, None), s2)"
  shows "\<exists>log w1 w2. NewProduction newAtomic fdiv B [] w = (Ret (Inr log), w1)
    \<and> Logger_Info (b_env B) log msg fs w1 = (Ret (), w2) \<and> outside w2 = s2"
proof -
  let ?enc = "NewJSONEncoder G (NewProductionEncoderConfig fdiv)"
  let ?w1 = "w\<lparr>outside := s1, counts := (counts w)(b_counters B := newCounters)\<rparr>"
  have build: "NewProduction newAtomic fdiv B [] w = (Ret (Inr (production_logger B (JsonEnc ?enc) rd)), ?w1)"
    using production_builds [OF assms(4), of "\<lambda>c. JsonEnc (NewJSONEncoder G c)" newAtomic w rd s1 fdiv] assms(3,5)
    by (simp add: encoderNameToConstructor_def)
  have format: "json_format G c"
    using assms(11) by unfold_locales
  have "has_context c False FNil ?enc"
    using has_context_new assms(10) by (simp add: NewJSONEncoder_def)
  from json_format.encode_entry [OF format this, of "b_local B" ent fs]
  have "enc_EncodeEntry (ops (b_env B)) ent fs (JsonEnc ?enc) = Some (Inr (print_json False (entry_json G c ent flds) @ [newline]))"
    using assms(2,10,12)
    by (simp add: config_ops_def json_ops_def caller_panics_def NewJSONEncoder_def newJSONEncoder_def
        NewProductionEncoderConfig_def DefaultLineEnding_def Buffer_Bytes_def Let_def del: print_json.simps)
  moreover have "ent = (new_entry (production_logger B (JsonEnc ?enc) rd) InfoLevel msg (outside ?w1))
      \<lparr>ent_Caller := frame_caller (fst (fst (Stack_Next pcs)))\<rparr>"
    using assms(9) by (simp add: new_entry_def production_logger_def)
  ultimately show ?thesis
    using production_info [OF assms(1) _ _ assms(7,8), of rd ?w1 B] assms(6,13) build by auto
qed

section \<open>Concrete configurations\<close>

definition demo_config_ops :: "((unit, bytes, unit) config_encoder, unit, bytes) Encoder" where
  "demo_config_ops = config_ops \<lparr>enc_Clone = id, enc_addFields = (\<lambda>fs e. Some e), enc_EncodeEntry = (\<lambda>ent fs e. Some (Inr []))\<rparr>
     (\<lambda>p. ''?'') plain_std ()"

definition demo_frames :: "Frame list" where
  "demo_frames = replicate 8 \<lparr>fr_PC = 7, fr_Function = ''main.main'', fr_File = ''main.go'', fr_Line = 3\<rparr>"

definition demo_build :: "('s, bytes) WriteSyncer \<Rightarrow> 's open_fn \<Rightarrow> ((unit, bytes, unit) config_encoder, unit, bytes, 's) build_env" where
  "demo_build out opn =
     \<lparr>b_std = demo_std out, b_sinks = the (newSinkRegistry (demo_std out) opn), b_encoders = encoderNameToConstructor plain_std,
      b_env = \<lparr>multierr = join_errors, fmt = demo_fmt, ops = demo_config_ops, stack_frames = demo_frames, stack_storage = 64\<rparr>,
      b_clock = demo_clock, b_local = (), b_counters = 0\<rparr>"

lemma demo_build_ops:
  "ops (b_env (demo_build out opn)) = config_ops \<lparr>enc_Clone = id, enc_addFields = (\<lambda>fs e. Some e),
     enc_EncodeEntry = (\<lambda>ent fs e. Some (Inr []))\<rparr> (\<lambda>p. ''?'') plain_std (b_local (demo_build out opn))"
  by (simp add: demo_build_def demo_config_ops_def)

lemma file_lower: "map lower_byte ''file'' = ''file''"
  by code_simp

lemma demo_registry:
  "newSinkRegistry (demo_std out) opn
    = Some \<lparr>factories = [''file'' \<mapsto> newFileSinkFromURL (demo_std out) opn], openFile = opn\<rparr>"
  using file_lower
  by (simp add: newSinkRegistry_def RegisterSink_def normalizeScheme_def schemeFile_def ToLower_def ascii_def demo_std_def
      scheme_byte_def)

lemma demo_std_simps: "IsAbs (demo_std out) p \<longleftrightarrow> take 1 p = ''/''" "sink_append (demo_std out) = join_errors"
    "os_Stderr (demo_std out) = out"
  by (simp_all add: demo_std_def)

definition demo_config :: "(unit, bytes, 's) Config" where
  "demo_config =
     \<lparr>cf_Level = Some (\<lambda>s. InfoLevel), cf_Development = False, DisableCaller = False, DisableStacktrace = False, Sampling = None,
      Encoding = ''json'', cf_EncoderConfig = NewProductionEncoderConfig (\<lambda>a b. 0), OutputPaths = [''/a'', ''/b''],
      ErrorOutputPaths = [''/c'', ''/d''], InitialFields = []\<rparr>"

theorem build_error_leaks_nothing_witness:
  "\<exists>err w'. Build (demo_build demo_stream demo_open) demo_config []
      \<lparr>outside = \<lparr>allowed = [''/a'', ''/b'', ''/d''], handles = {#''/x''#}\<rparr>, counts = (\<lambda>i. newCounters), observed = (\<lambda>i. [])\<rparr>
      = (Ret (Inl err), w') \<and> handles (outside w') = {#''/x''#}"
proof -
  let ?w = "\<lparr>outside = \<lparr>allowed = [''/a'', ''/b'', ''/d''], handles = {#''/x''#}\<rparr>, counts = (\<lambda>i. newCounters),
      observed = (\<lambda>i. [])\<rparr> :: (unit, bytes, demo_files) world"
  have reg: "closing_registry handles (b_sinks (demo_build demo_stream demo_open))"
    using closing_new_registry [OF file_opens.closing_factory_axioms demo_registry]
    by (simp add: demo_build_def demo_registry)
  have "\<exists>err w'. Build (demo_build demo_stream demo_open) demo_config [] ?w = (Ret (Inl err), w')"
    by (simp add: Build_def buildEncoder_def newEncoder_def demo_build_def demo_registry demo_config_def
        encoderNameToConstructor_def NewProductionEncoderConfig_def openSinks_def Open_def open_sinks_def newSink_def
        newFileSinkFromPath_def demo_open_def demo_std_simps)
  then show ?thesis
    using build_error_leaks_nothing [OF reg, of demo_config "[]" ?w] by fastforce
qed

definition demo_files_world :: "(unit, bytes, demo_files) world" where
  "demo_files_world = \<lparr>outside = \<lparr>allowed = [], handles = {#}\<rparr>, counts = (\<lambda>i. newCounters), observed = (\<lambda>i. [])\<rparr>"

theorem build_ignores_map_order_witness:
  "Build (demo_build demo_stream demo_open)
      (demo_config\<lparr>InitialFields := [(''b'', GBool (Plain True)), (''a'', GBool (Plain False))]\<rparr>) [] demo_files_world
    = Build (demo_build demo_stream demo_open)
      (demo_config\<lparr>InitialFields := [(''a'', GBool (Plain False)), (''b'', GBool (Plain True))]\<rparr>) [] demo_files_world"
  by (rule build_ignores_map_order) simp_all

definition demo_atomic :: "Level \<Rightarrow> 's \<Rightarrow> ('s \<Rightarrow> Level) \<times> 's" where
  "demo_atomic l s = ((\<lambda>t. l), s)"

lemma demo_stderr: "stderr_opens (demo_std out) (the (newSinkRegistry (demo_std out) opn))"
  by (auto simp: stderr_opens_def demo_registry schemeFile_def) (simp_all add: demo_std_def)

lemma demo_capture: "Capture demo_frames 64 2 First = Some ([demo_frames ! 4], 64)"
  by (simp add: Capture_def runtime_Callers_def demo_frames_def eval_nat_numeral)

theorem production_logger_writes_json_witness:
  "\<exists>log w1 w2. NewProduction demo_atomic (\<lambda>a b. 0) (demo_build test_syncer (\<lambda>f s. (Inl [], s))) [] demo_world
      = (Ret (Inr log), w1)
    \<and> Logger_Info (b_env (demo_build test_syncer (\<lambda>f s. (Inl [], s)))) log ''hi'' [] w1 = (Ret (), w2)
    \<and> length (tb_writes (outside w2)) = 1"
proof -
  let ?B = "demo_build test_syncer (\<lambda>f s. (Inl [], s))"
  let ?c = "cfg (NewJSONEncoder plain_std (NewProductionEncoderConfig (\<lambda>a b. 0)))"
  define ent where "ent = \<lparr>ent_Level = InfoLevel, ent_Time = demo_clock (outside demo_world), LoggerName = [], Message = ''hi'',
      ent_Caller = frame_caller (fst (fst (Stack_Next [demo_frames ! 4]))), Stack = []\<rparr>"
  let ?line = "print_json False (entry_json plain_std ?c ent FNil) @ [newline]"
  let ?s = "(outside demo_world)\<lparr>tb_writes := [?line]\<rparr>"
  have contract: "encoder_contract plain_std ?c"
    unfolding NewJSONEncoder_def by (rule preset_contracts [OF plain_std_contract])
  have written: "WS_Write join_errors test_syncer ?line (outside demo_world) = ((int (length ?line), None), ?s)"
    by (simp add: test_syncer_def TestBuffer_Write_def demo_world_def new_TestBuffer_def del: print_json.simps)
  have B: "b_std ?B = demo_std test_syncer" "multierr (b_env ?B) = join_errors" "b_clock ?B = demo_clock"
      "b_encoders ?B = encoderNameToConstructor plain_std" "stack_frames (b_env ?B) = demo_frames" "stack_storage (b_env ?B) = 64"
      "b_sinks ?B = the (newSinkRegistry (demo_std test_syncer) (\<lambda>f s. (Inl [], s)))"
    by (simp_all add: demo_build_def)
  have ent: "ent = \<lparr>ent_Level = InfoLevel, ent_Time = b_clock ?B (outside demo_world), LoggerName = [], Message = ''hi'',
      ent_Caller = frame_caller (fst (fst (Stack_Next [demo_frames ! 4]))), Stack = []\<rparr>"
    by (simp add: ent_def B)
  have "\<exists>log w1 w2. NewProduction demo_atomic (\<lambda>a b. 0) ?B [] demo_world = (Ret (Inr log), w1)
      \<and> Logger_Info (b_env ?B) log ''hi'' [] w1 = (Ret (), w2) \<and> outside w2 = ?s"
    by (rule production_logger_writes_json [OF _ demo_build_ops _ _ _ _ _ _ ent refl contract, where rd = "\<lambda>t. InfoLevel"
          and flds = FNil and n = "int (length ?line)"])
      (simp_all add: B written demo_stderr demo_atomic_def demo_capture demo_std_simps del: print_json.simps length_append)
  then show ?thesis
    by auto
qed

end
