(* ===== verification/Support.thy ===== *)
theory Support
  imports Config "HOL-Library.Signed_Division"
begin

text \<open>
  What the repository offers to tests: the observed logs of \<^verbatim>\<open>src/zaptest/observer\<close>, the test logger of
  \<^verbatim>\<open>src/zaptest/logger.go\<close>, the mock clock, the test buffer and the timeouts of
  \<^verbatim>\<open>src/internal/ztest\<close>, and the exit stub of \<^verbatim>\<open>src/internal/exit\<close>; and the helpers of
  \<^verbatim>\<open>src/exp/zapfield\<close>, \<^verbatim>\<open>src/flag.go\<close> and \<^verbatim>\<open>src/time.go\<close>.
\<close>

section \<open>Observed logs\<close>

text \<open>The observed logs of a world are numbered.  A filtered collection is a value of its own.\<close>

type_synonym ('l, 'v) ObservedLogs = "('l, 'v) LoggedEntry list"

definition Observed_Len :: "('l, 'v) ObservedLogs \<Rightarrow> nat" where
  "Observed_Len logs = length logs"

definition Observed_All :: "nat \<Rightarrow> ('l, 'v, 's) world \<Rightarrow> ('l, 'v) LoggedEntry list" where
  "Observed_All o_id w = observed w o_id"

definition Observed_TakeAll :: "nat \<Rightarrow> ('l, 'v, 's) world \<Rightarrow> ('l, 'v) LoggedEntry list \<times> ('l, 'v, 's) world" where
  "Observed_TakeAll o_id w = (observed w o_id, w\<lparr>observed := (observed w)(o_id := [])\<rparr>)"

text \<open>\<open>zero\<close> is \<^verbatim>\<open>time.Time{}\<close>.\<close>

definition Observed_AllUntimed :: "'l time \<Rightarrow> nat \<Rightarrow> ('l, 'v, 's) world \<Rightarrow> ('l, 'v) LoggedEntry list" where
  "Observed_AllUntimed zero o_id w =
     map (\<lambda>e. e\<lparr>le_Entry := (le_Entry e)\<lparr>ent_Time := zero\<rparr>\<rparr>) (Observed_All o_id w)"

text \<open>\<^verbatim>\<open>Filter\<close>; \<open>keep\<close> may panic.\<close>

fun Observed_Filter :: "(('l, 'v) LoggedEntry \<Rightarrow> bool option) \<Rightarrow> ('l, 'v) ObservedLogs \<Rightarrow> ('l, 'v) ObservedLogs option" where
  "Observed_Filter keep [] = Some []"
| "Observed_Filter keep (entry # entries) =
     (case keep entry of
        None \<Rightarrow> None
      | Some k \<Rightarrow> map_option (\<lambda>rest. if k then entry # rest else rest) (Observed_Filter keep entries))"

definition FilterLevelExact :: "Level \<Rightarrow> ('l, 'v) ObservedLogs \<Rightarrow> ('l, 'v) ObservedLogs option" where
  "FilterLevelExact level = Observed_Filter (\<lambda>e. Some (ent_Level (le_Entry e) = level))"

definition FilterMessage :: "bytes \<Rightarrow> ('l, 'v) ObservedLogs \<Rightarrow> ('l, 'v) ObservedLogs option" where
  "FilterMessage msg = Observed_Filter (\<lambda>e. Some (Message (le_Entry e) = msg))"

definition FilterLoggerName :: "bytes \<Rightarrow> ('l, 'v) ObservedLogs \<Rightarrow> ('l, 'v) ObservedLogs option" where
  "FilterLoggerName name = Observed_Filter (\<lambda>e. Some (LoggerName (le_Entry e) = name))"

fun strings_Contains :: "bytes \<Rightarrow> bytes \<Rightarrow> bool" where
  "strings_Contains [] sub = (sub = [])"
| "strings_Contains (c # cs) sub = (take (length sub) (c # cs) = sub \<or> strings_Contains cs sub)"

definition FilterMessageSnippet :: "bytes \<Rightarrow> ('l, 'v) ObservedLogs \<Rightarrow> ('l, 'v) ObservedLogs option" where
  "FilterMessageSnippet snippet = Observed_Filter (\<lambda>e. Some (strings_Contains (Message (le_Entry e)) snippet))"

fun any_field_equals :: "(('l, 'v) Field \<Rightarrow> bool option) \<Rightarrow> ('l, 'v) Field list \<Rightarrow> bool option" where
  "any_field_equals equals [] = Some False"
| "any_field_equals equals (f # fs) =
     (case equals f of None \<Rightarrow> None | Some True \<Rightarrow> Some True | Some False \<Rightarrow> any_field_equals equals fs)"

definition FilterField :: "(('l, 'v) iface \<Rightarrow> ('l, 'v) iface \<Rightarrow> bool) \<Rightarrow> (('l, 'v) iface \<Rightarrow> ('l, 'v) iface \<Rightarrow> bool)
      \<Rightarrow> ('l, 'v) Field \<Rightarrow> ('l, 'v) ObservedLogs \<Rightarrow> ('l, 'v) ObservedLogs option" where
  "FilterField deepEqual eq f =
     Observed_Filter (\<lambda>e. any_field_equals (\<lambda>ctxField. Field_Equals deepEqual eq ctxField f) (le_Context e))"

definition FilterFieldKey :: "bytes \<Rightarrow> ('l, 'v) ObservedLogs \<Rightarrow> ('l, 'v) ObservedLogs option" where
  "FilterFieldKey key = Observed_Filter (\<lambda>e. any_field_equals (\<lambda>ctxField. Some (Key ctxField = key)) (le_Context e))"

lemma Observed_Filter_total: "Observed_Filter (\<lambda>e. Some (P e)) logs = Some (filter P logs)"
  by (induction logs) auto

text \<open>What an observer core writes and what is taken from it: nothing is lost or duplicated.\<close>

datatype ('l, 'v) observer_op = ObsWrite "'l Entry" "('l, 'v) Field list" | ObsTake

fun observer_run :: "(bytes option \<Rightarrow> bytes option \<Rightarrow> bytes option) \<Rightarrow> ('n, 'l, 'v) Encoder \<Rightarrow> ('n, 'l, 'v, 's) core \<Rightarrow> nat
      \<Rightarrow> ('l, 'v) observer_op list \<Rightarrow> ('l, 'v, 's) world \<Rightarrow> ('l, 'v) LoggedEntry list \<times> ('l, 'v, 's) world" where
  "observer_run app E c o_id [] w = ([], w)"
| "observer_run app E c o_id (ObsWrite ent fs # xs) w = observer_run app E c o_id xs (snd (Core_Write app E c ent fs w))"
| "observer_run app E c o_id (ObsTake # xs) w =
     (case Observed_TakeAll o_id w of (taken, w1) \<Rightarrow>
        (case observer_run app E c o_id xs w1 of (later, w2) \<Rightarrow> (taken @ later, w2)))"

fun written_entries :: "('l, 'v) Field list \<Rightarrow> ('l, 'v) observer_op list \<Rightarrow> ('l, 'v) LoggedEntry list" where
  "written_entries ctx [] = []"
| "written_entries ctx (ObsWrite ent fs # xs) = \<lparr>le_Entry = ent, le_Context = ctx @ fs\<rparr> # written_entries ctx xs"
| "written_entries ctx (ObsTake # xs) = written_entries ctx xs"

lemma observer_loses_nothing:
  "case observer_run app E (contextObserver en o_id ctx) o_id xs w of
     (taken, w') \<Rightarrow> taken @ Observed_All o_id w' = Observed_All o_id w @ written_entries ctx xs"
proof (induction xs arbitrary: w)
  case (Cons x xs)
  then show ?case
  proof (cases x)
    case (ObsWrite ent fs)
    then show ?thesis
      using Cons [of "snd (Core_Write app E (contextObserver en o_id ctx) ent fs w)"]
      by (auto simp: Observed_All_def observer_add_def split: prod.splits)
  next
    case ObsTake
    then show ?thesis
      using Cons [of "snd (Observed_TakeAll o_id w)"]
      by (auto simp: Observed_All_def Observed_TakeAll_def split: prod.splits)
  qed
qed (simp add: Observed_All_def)

section \<open>The test logger\<close>

text \<open>Of \<^verbatim>\<open>TestingT\<close> the logger uses \<^verbatim>\<open>Logf\<close> and \<^verbatim>\<open>Fail\<close>.\<close>

record 's TestingT =
  Logf :: "bytes \<Rightarrow> 's \<Rightarrow> 's"
  Fail :: "'s \<Rightarrow> 's"

record 's TestingWriter =
  tw_t :: "'s TestingT"
  markFailed :: bool

definition NewTestingWriter :: "'s TestingT \<Rightarrow> 's TestingWriter" where
  "NewTestingWriter t = \<lparr>tw_t = t, markFailed = False\<rparr>"

definition WithMarkFailed :: "bool \<Rightarrow> 's TestingWriter \<Rightarrow> 's TestingWriter" where
  "WithMarkFailed v w = w\<lparr>markFailed := v\<rparr>"

definition TestingWriter_Write :: "'s TestingWriter \<Rightarrow> ('s, bytes) write_fn" where
  "TestingWriter_Write w p s =
     (let trimmed = rev (dropWhile (\<lambda>c. c = newline) (rev p));
          s1 = Logf (tw_t w) trimmed s
      in ((int (length p), None), if markFailed w then Fail (tw_t w) s1 else s1))"

definition TestingWriter_Sync :: "'s TestingWriter \<Rightarrow> ('s, bytes) sync_fn" where
  "TestingWriter_Sync w s = (None, s)"

definition testing_syncer :: "'s TestingWriter \<Rightarrow> ('s, bytes) WriteSyncer" where
  "testing_syncer w = ExtSyncer (TestingWriter_Write w) (TestingWriter_Sync w)"

record ('n, 'l, 'v, 's) loggerOptions =
  lo_Level :: "'s LevelEnabler"
  zapOptions :: "('n, 'l, 'v, 's) Opt list"

type_synonym ('n, 'l, 'v, 's) LoggerOption = "('n, 'l, 'v, 's) loggerOptions \<Rightarrow> ('n, 'l, 'v, 's) loggerOptions"

definition zaptest_Level :: "'s LevelEnabler \<Rightarrow> ('n, 'l, 'v, 's) LoggerOption" where
  "zaptest_Level enab opts = opts\<lparr>lo_Level := enab\<rparr>"

definition WrapOptions :: "('n, 'l, 'v, 's) Opt list \<Rightarrow> ('n, 'l, 'v, 's) LoggerOption" where
  "WrapOptions zapOpts opts = opts\<lparr>zapOptions := zapOpts\<rparr>"

definition zaptest_NewLogger :: "('l, 'v) gostd \<Rightarrow> (int64 \<Rightarrow> bytes) \<Rightarrow> (('l, 'v, 'x) config_encoder, 'l, 'v, 's) build_env
      \<Rightarrow> 's TestingT \<Rightarrow> (('l, 'v, 'x) config_encoder, 'l, 'v, 's) LoggerOption list \<Rightarrow> ('l, 'v, 's) world
      \<Rightarrow> (('l, 'v, 'x) config_encoder, 'l, 'v, 's) Logger outcome \<times> ('l, 'v, 's) world" where
  "zaptest_NewLogger G dstring B t opts w =
     (let c = fold (\<lambda>opt c. opt c) opts \<lparr>lo_Level = level_enabler DebugLevel, zapOptions = []\<rparr>;
          writer = NewTestingWriter t
      in Logger_New (b_clock B) (os_Stderr (b_std B))
           (Some (NewCore (ConsoleEnc (NewConsoleEncoder G (NewDevelopmentEncoderConfig dstring))) (testing_syncer writer) (lo_Level c)))
           (ErrorOutput_option (testing_syncer (WithMarkFailed True writer)) # zapOptions c) w)"

section \<open>The exit stub\<close>

text \<open>\<^verbatim>\<open>_exit\<close> is \<^verbatim>\<open>os.Exit\<close>, which is \<open>None\<close>, or the method of a stub, given by its number.\<close>

record StubbedExit =
  Exited :: bool
  Code :: int
  stub_prev :: "nat option"

record exit_state =
  exit_fn :: "nat option"
  stubs :: "StubbedExit list"

definition stub_exit :: "int \<Rightarrow> StubbedExit \<Rightarrow> StubbedExit" where
  "stub_exit code se = se\<lparr>Exited := True, Code := code\<rparr>"

definition exit_With :: "int \<Rightarrow> exit_state \<Rightarrow> unit outcome \<times> exit_state" where
  "exit_With code st =
     (case exit_fn st of
        None \<Rightarrow> (Exits (nat code), st)
      | Some i \<Rightarrow> (Ret (), st\<lparr>stubs := (stubs st)[i := stub_exit code (stubs st ! i)]\<rparr>))"

definition exit_Stub :: "exit_state \<Rightarrow> nat \<times> exit_state" where
  "exit_Stub st =
     (length (stubs st),
      st\<lparr>exit_fn := Some (length (stubs st)), stubs := stubs st @ [\<lparr>Exited = False, Code = 0, stub_prev = exit_fn st\<rparr>]\<rparr>)"

definition exit_Unstub :: "nat \<Rightarrow> exit_state \<Rightarrow> exit_state" where
  "exit_Unstub i st = st\<lparr>exit_fn := stub_prev (stubs st ! i)\<rparr>"

definition exit_WithStub :: "(exit_state \<Rightarrow> 'a outcome \<times> exit_state) \<Rightarrow> exit_state \<Rightarrow> (nat \<times> 'a outcome) \<times> exit_state" where
  "exit_WithStub f st =
     (case exit_Stub st of (i, st1) \<Rightarrow> (case f st1 of (r, st2) \<Rightarrow> ((i, r), exit_Unstub i st2)))"

text \<open>A stubbed exit returns, is recorded, and the previous function is back afterwards.\<close>

lemma stubbed_exit:
  assumes "exit_WithStub (exit_With code) st = ((i, r), st')"
  shows "r = Ret () \<and> Exited (stubs st' ! i) \<and> Code (stubs st' ! i) = code \<and> exit_fn st' = exit_fn st
    \<and> take i (stubs st') = stubs st"
  using assms by (auto simp: exit_WithStub_def exit_Stub_def exit_With_def exit_Unstub_def stub_exit_def)

section \<open>Fields of string-like types\<close>

text \<open>The conversions to \<^verbatim>\<open>string\<close> are the identity on the bytes.\<close>

definition zapfield_Str :: "bytes \<Rightarrow> bytes \<Rightarrow> ('l, 'v) Field" where
  "zapfield_Str k v = String_field k v"

definition zapfield_Strs :: "bytes \<Rightarrow> bytes list \<Rightarrow> ('l, 'v) Field" where
  "zapfield_Strs k v = Array_field k (stringArray v)"

section \<open>The test buffer\<close>

text \<open>\<^verbatim>\<open>strings.Split\<close> at one byte, and \<^verbatim>\<open>strings.TrimRight\<close> with one byte to trim.\<close>

fun strings_Split :: "bytes \<Rightarrow> char \<Rightarrow> bytes list" where
  "strings_Split [] delim = [[]]"
| "strings_Split (c # cs) delim =
     (if c = delim then [] # strings_Split cs delim
      else (case strings_Split cs delim of [] \<Rightarrow> [[c]] | x # xs \<Rightarrow> (c # x) # xs))"

definition strings_TrimRight :: "bytes \<Rightarrow> char \<Rightarrow> bytes" where
  "strings_TrimRight s c = rev (dropWhile (\<lambda>b. b = c) (rev s))"

text \<open>\<^verbatim>\<open>ztest.Buffer\<close> keeps its writes apart in the model; \<^verbatim>\<open>b.String()\<close> is all of them together.\<close>

definition TestBuffer_String :: "'e TestBuffer \<Rightarrow> bytes" where
  "TestBuffer_String b = concat (tb_writes b)"

definition TestBuffer_Lines :: "'e TestBuffer \<Rightarrow> bytes list" where
  "TestBuffer_Lines b = (let output = strings_Split (TestBuffer_String b) newline in take (length output - 1) output)"

definition TestBuffer_Stripped :: "'e TestBuffer \<Rightarrow> bytes" where
  "TestBuffer_Stripped b = strings_TrimRight (TestBuffer_String b) newline"

lemma strings_Split_not_Nil [simp]: "strings_Split s delim \<noteq> []"
  by (induction s) (auto split: list.splits)

lemma strings_Split_no_sep: "delim \<notin> set s \<Longrightarrow> strings_Split s delim = [s]"
  by (induction s) auto

lemma strings_Split_at_sep: "delim \<notin> set s \<Longrightarrow> strings_Split (s @ delim # rest) delim = s # strings_Split rest delim"
  by (induction s) auto

lemma strings_Split_lines:
  "list_all (\<lambda>l. delim \<notin> set l) ls \<Longrightarrow> strings_Split (concat (map (\<lambda>l. l @ [delim]) ls)) delim = ls @ [[]]"
  by (induction ls) (simp_all add: strings_Split_at_sep)

text \<open>Lines that were written, in whatever portions, are read back; and all newlines at the end are stripped, not
  only the last one.\<close>

lemma TestBuffer_Lines_written:
  assumes "TestBuffer_String b = concat (map (\<lambda>l. l @ [newline]) ls)" and "list_all (\<lambda>l. newline \<notin> set l) ls"
  shows "TestBuffer_Lines b = ls"
  using assms by (simp add: TestBuffer_Lines_def strings_Split_lines)

lemma TestBuffer_Stripped_all:
  assumes "TestBuffer_String b = s @ replicate n newline" and "s = [] \<or> last s \<noteq> newline"
  shows "TestBuffer_Stripped b = s"
proof (cases s rule: rev_cases)
  case Nil
  then show ?thesis
    using assms(1) by (simp add: TestBuffer_Stripped_def strings_TrimRight_def)
next
  case (snoc t c)
  then show ?thesis
    using assms by (simp add: TestBuffer_Stripped_def strings_TrimRight_def dropWhile_append)
qed

section \<open>Levels as command-line flags\<close>

text \<open>\<^verbatim>\<open>src/flag.go\<close> with what it uses of package flag: the flags of the command line, each with the variable it sets,
  its usage and the text of its default.  A level variable is its number.  \<open>None\<close> is the panic of \<^verbatim>\<open>flag.Var\<close>, on
  a name that begins with a dash, contains an equals sign or is taken.\<close>

record level_flags =
  level_vars :: "Level list"
  formal :: "bytes \<Rightarrow> (nat \<times> bytes \<times> bytes) option"

definition flag_Var :: "nat \<Rightarrow> bytes \<Rightarrow> bytes \<Rightarrow> level_flags \<Rightarrow> level_flags option" where
  "flag_Var i name usage fl =
     (if take 1 name = ''-'' \<or> CHR ''='' \<in> set name \<or> formal fl name \<noteq> None then None
      else Some (fl\<lparr>formal := (formal fl)(name \<mapsto> (i, usage, Level_String (level_vars fl ! i)))\<rparr>))"

definition LevelFlag :: "bytes \<Rightarrow> Level \<Rightarrow> bytes \<Rightarrow> level_flags \<Rightarrow> (nat \<times> level_flags) option" where
  "LevelFlag name defaultLevel usage fl =
     (let lvl = length (level_vars fl)
      in map_option (\<lambda>fl. (lvl, fl)) (flag_Var lvl name usage (fl\<lparr>level_vars := level_vars fl @ [defaultLevel]\<rparr>)))"

text \<open>\<^verbatim>\<open>flag.Set\<close>, which the parsing of the command line calls for each flag; \<open>None\<close> if there is no such flag.\<close>

definition flag_Set :: "(bytes \<Rightarrow> bytes) \<Rightarrow> bytes \<Rightarrow> bytes \<Rightarrow> level_flags \<Rightarrow> (level_error option \<times> level_flags) option" where
  "flag_Set uni name text fl =
     (case formal fl name of
        None \<Rightarrow> None
      | Some (i, _, _) \<Rightarrow>
          (case Level_Set uni (Some (level_vars fl ! i)) text of
             (err, p) \<Rightarrow> Some (err, case p of None \<Rightarrow> fl | Some l \<Rightarrow> fl\<lparr>level_vars := (level_vars fl)[i := l]\<rparr>)))"

text \<open>The returned variable holds the default, the text of any level given to the flag sets it, and the variables of
  the flags that were there are left alone.\<close>

lemma LevelFlag_sets_level:
  assumes "LevelFlag name defaultLevel usage fl = Some (i, fl1)" and "valid_level l"
  shows "level_vars fl1 ! i = defaultLevel \<and> take i (level_vars fl1) = level_vars fl
    \<and> (\<exists>fl2. flag_Set uni name (Level_String l) fl1 = Some (None, fl2) \<and> level_vars fl2 ! i = l
        \<and> take i (level_vars fl2) = level_vars fl)"
  using assms
  by (auto simp: LevelFlag_def flag_Var_def flag_Set_def Level_Set_def Level_UnmarshalText_def unmarshal_String Let_def
      split: if_splits)

lemma LevelFlag_once:
  assumes "LevelFlag name defaultLevel usage fl = Some (i, fl1)"
  shows "LevelFlag name l u fl1 = None"
  using assms by (auto simp: LevelFlag_def flag_Var_def Let_def split: if_splits)

section \<open>Timeouts of tests and milliseconds\<close>

text \<open>\<^verbatim>\<open>_timeoutScale\<close> with what the package uses of floating-point arithmetic: \<^verbatim>\<open>strconv.ParseFloat\<close>, the
  product, and the two conversions.  A float is its bits; \<open>0x3FF0000000000000\<close> is 1.\<close>

record 's timeout_ops =
  parseFloat :: "bytes \<Rightarrow> bytes + uint64"
  float64_of :: "int64 \<Rightarrow> uint64"
  float64_mul :: "uint64 \<Rightarrow> uint64 \<Rightarrow> uint64"
  int64_of :: "uint64 \<Rightarrow> int64"
  time_Sleep :: "int64 \<Rightarrow> 's \<Rightarrow> 's"
  log_scale :: "uint64 \<Rightarrow> 's \<Rightarrow> 's"

definition initial_timeoutScale :: uint64 where
  "initial_timeoutScale = 0x3FF0000000000000"

definition ztest_Timeout :: "'s timeout_ops \<Rightarrow> uint64 \<Rightarrow> int64 \<Rightarrow> int64" where
  "ztest_Timeout T timeoutScale d = int64_of T (float64_mul T (float64_of T d) timeoutScale)"

definition ztest_Sleep :: "'s timeout_ops \<Rightarrow> uint64 \<Rightarrow> int64 \<Rightarrow> 's \<Rightarrow> 's" where
  "ztest_Sleep T timeoutScale d s = time_Sleep T (ztest_Timeout T timeoutScale d) s"

text \<open>\<^verbatim>\<open>Initialize\<close> panics, which is \<open>Inl\<close>, or changes the scale and returns the function that restores it.\<close>

definition ztest_Initialize :: "'s timeout_ops \<Rightarrow> bytes \<Rightarrow> uint64 \<Rightarrow> bytes + ((uint64 \<Rightarrow> uint64) \<times> uint64)" where
  "ztest_Initialize T factor timeoutScale =
     (case parseFloat T factor of
        Inl err \<Rightarrow> Inl err
      | Inr fv \<Rightarrow> (let original = timeoutScale in Inr (\<lambda>_. original, fv)))"

text \<open>\<^verbatim>\<open>init\<close>, with the value of \<^verbatim>\<open>TEST_TIMEOUT_SCALE\<close>, which is empty if the variable is not set.\<close>

definition ztest_init :: "'s timeout_ops \<Rightarrow> bytes \<Rightarrow> uint64 \<times> 's \<Rightarrow> bytes + (uint64 \<times> 's)" where
  "ztest_init T v st =
     (if v \<noteq> [] then
        case ztest_Initialize T v (fst st) of
          Inl err \<Rightarrow> Inl err
        | Inr (_, scale) \<Rightarrow> Inr (scale, log_scale T scale (snd st))
      else Inr st)"

definition zaptest_Timeout :: "'s timeout_ops \<Rightarrow> uint64 \<Rightarrow> int64 \<Rightarrow> int64" where
  "zaptest_Timeout T timeoutScale d = ztest_Timeout T timeoutScale d"

definition zaptest_Sleep :: "'s timeout_ops \<Rightarrow> uint64 \<Rightarrow> int64 \<Rightarrow> 's \<Rightarrow> 's" where
  "zaptest_Sleep T timeoutScale d s = ztest_Sleep T timeoutScale d s"

text \<open>Functions returned by nested calls of \<^verbatim>\<open>Initialize\<close>, run in the opposite order, restore the first scale
  whatever happened in between.\<close>

lemma nested_Initialize_restores:
  assumes "ztest_Initialize T f scale = Inr (restore1, scale1)" and "ztest_Initialize T g scale1 = Inr (restore2, scale2)"
  shows "restore1 (restore2 scale3) = scale \<and> restore2 scale3 = scale1 \<and> parseFloat T g = Inr scale2"
  using assms by (auto simp: ztest_Initialize_def split: sum.splits)

text \<open>\<^verbatim>\<open>timeToMillis\<close>: Go's division of integers truncates toward zero.\<close>

definition timeToMillis :: "'l time \<Rightarrow> int64" where
  "timeToMillis t = word_of_int (sint (time_UnixNano t) sdiv 1000000)"

lemma sdiv_million_bounds:
  fixes n :: int
  shows "\<bar>n sdiv 1000000\<bar> * 1000000 \<le> \<bar>n\<bar>" "\<bar>n\<bar> < (\<bar>n sdiv 1000000\<bar> + 1) * 1000000"
proof -
  have eq: "\<bar>n sdiv 1000000\<bar> = \<bar>n\<bar> div 1000000"
    by (simp add: signed_divide_int_def abs_mult sgn_if)
  show "\<bar>n sdiv 1000000\<bar> * 1000000 \<le> \<bar>n\<bar>" "\<bar>n\<bar> < (\<bar>n sdiv 1000000\<bar> + 1) * 1000000"
    unfolding eq using div_mult_mod_eq [of "\<bar>n\<bar>" 1000000] pos_mod_bound [of 1000000 "\<bar>n\<bar>"]
      pos_mod_sign [of 1000000 "\<bar>n\<bar>"] by (simp_all add: algebra_simps del: div_mult_mod_eq)
qed

text \<open>The milliseconds fit, and are the whole ones of the nanoseconds, before 1970 counted toward zero.\<close>

lemma timeToMillis_whole:
  "\<bar>sint (timeToMillis t)\<bar> * 1000000 \<le> \<bar>sint (time_UnixNano t)\<bar>
   \<and> \<bar>sint (time_UnixNano t)\<bar> < (\<bar>sint (timeToMillis t)\<bar> + 1) * 1000000"
proof -
  let ?n = "sint (time_UnixNano t)"
  have "- (2 ^ 63) \<le> ?n" "?n < 2 ^ 63"
    using sint_ge [of "time_UnixNano t"] sint_lt [of "time_UnixNano t"] by simp_all
  then have "- (2 ^ 63) \<le> ?n sdiv 1000000" "?n sdiv 1000000 < 2 ^ 63"
    using sdiv_million_bounds(1) [of ?n] by linarith+
  then have "sint (timeToMillis t) = ?n sdiv 1000000"
    by (simp add: timeToMillis_def signed_of_int signed_take_bit_int_eq_self)
  then show ?thesis
    using sdiv_million_bounds [of ?n] by simp
qed

section \<open>The mock clock\<close>

text \<open>Only \<^verbatim>\<open>NewTicker\<close> schedules waiters, so that a waiter is the next tick of a ticker: its time, the period and the
  number of its channel, which has room for one tick.  Times and durations are numbers of nanoseconds.  The
  field \<open>ticks\<close> is a record of the waiters run so far, in their order, for the statements below.\<close>

record waiter =
  until :: int
  w_period :: int
  w_chan :: nat

record MockClock =
  mc_now :: int
  waiters :: "waiter list"
  channels :: "nat \<Rightarrow> int option"
  next_chan :: nat
  ticks :: "(nat \<times> int) list"

definition NewMockClock :: "int \<Rightarrow> MockClock" where
  "NewMockClock now = \<lparr>mc_now = now, waiters = [], channels = (\<lambda>n. None), next_chan = 0, ticks = []\<rparr>"

definition runAt :: "waiter \<Rightarrow> MockClock \<Rightarrow> MockClock" where
  "runAt w c = c\<lparr>waiters := waiters c @ [w]\<rparr>"

text \<open>The closure \<^verbatim>\<open>tick\<close> and the ticker, of which the channel is returned.\<close>

definition clock_tick :: "int \<Rightarrow> nat \<Rightarrow> int \<Rightarrow> MockClock \<Rightarrow> MockClock" where
  "clock_tick d ch now c = runAt \<lparr>until = now + d, w_period = d, w_chan = ch\<rparr> c"

definition NewTicker :: "int \<Rightarrow> MockClock \<Rightarrow> nat \<times> MockClock" where
  "NewTicker d c =
     (let ch = next_chan c in (ch, clock_tick d ch (mc_now c) (c\<lparr>next_chan := ch + 1, channels := (channels c)(ch := None)\<rparr>)))"

definition run_waiter :: "waiter \<Rightarrow> MockClock \<Rightarrow> MockClock" where
  "run_waiter w c =
     clock_tick (w_period w) (w_chan w) (until w)
       (c\<lparr>channels := (case channels c (w_chan w) of
             None \<Rightarrow> (channels c)(w_chan w \<mapsto> until w)
           | Some t \<Rightarrow> channels c),
          ticks := ticks c @ [(w_chan w, until w)]\<rparr>)"

text \<open>The loop of \<^verbatim>\<open>Add\<close>; \<open>others\<close> is what receivers do to the channels while it sleeps.\<close>

partial_function (option) add_loop :: "((nat \<Rightarrow> int option) \<Rightarrow> nat \<Rightarrow> int option) \<Rightarrow> int \<Rightarrow> MockClock \<Rightarrow> MockClock option" where
  "add_loop others newTime c =
     (case waiters c of
        [] \<Rightarrow> Some c
      | w # ws \<Rightarrow>
          if newTime < until w then Some c
          else let c1 = run_waiter w (c\<lparr>waiters := ws, mc_now := until w\<rparr>)
               in add_loop others newTime (c1\<lparr>channels := others (channels c1)\<rparr>))"

text \<open>\<^verbatim>\<open>Add\<close>: \<open>Inl\<close> is its panic, \<open>None\<close> that it does not return.  \<open>srt\<close> is \<^verbatim>\<open>sort.Slice\<close>, which does not promise
  an order of waiters with the same time.\<close>

definition Clock_Add :: "(waiter list \<Rightarrow> waiter list) \<Rightarrow> ((nat \<Rightarrow> int option) \<Rightarrow> nat \<Rightarrow> int option) \<Rightarrow> int \<Rightarrow> MockClock
      \<Rightarrow> (bytes + MockClock) option" where
  "Clock_Add srt others d c =
     (if d < 0 then Some (Inl ''cannot add negative duration'')
      else let newTime = mc_now c + d
           in map_option (\<lambda>c. Inr (c\<lparr>mc_now := newTime\<rparr>)) (add_loop others newTime (c\<lparr>waiters := srt (waiters c)\<rparr>)))"

definition sorts_waiters :: "(waiter list \<Rightarrow> waiter list) \<Rightarrow> bool" where
  "sorts_waiters srt \<longleftrightarrow> (\<forall>ws. mset (srt ws) = mset ws \<and> sorted (map until (srt ws)))"

text \<open>With positive periods \<^verbatim>\<open>Add\<close> returns: each round brings a waiter closer to the new time.\<close>

definition remaining :: "int \<Rightarrow> waiter list \<Rightarrow> nat" where
  "remaining newTime ws = sum_list (map (\<lambda>w. nat (newTime + 1 - until w)) ws)"

lemma add_loop_returns:
  assumes "\<forall>w \<in> set (waiters c). 0 < w_period w"
  shows "\<exists>c'. add_loop others newTime c = Some c'"
  using assms
proof (induction "remaining newTime (waiters c)" arbitrary: c rule: less_induct)
  case less
  show ?case
  proof (cases "waiters c")
    case Nil
    then show ?thesis
      by (simp add: add_loop.simps)
  next
    case (Cons w ws)
    show ?thesis
    proof (cases "newTime < until w")
      case True
      then show ?thesis
        using Cons by (simp add: add_loop.simps)
    next
      case False
      let ?c = "run_waiter w (c\<lparr>waiters := ws, mc_now := until w\<rparr>)"
      let ?c1 = "?c\<lparr>channels := others (channels ?c)\<rparr>"
      have scheduled: "waiters ?c1 = ws @ [\<lparr>until = until w + w_period w, w_period = w_period w, w_chan = w_chan w\<rparr>]"
        by (simp add: run_waiter_def clock_tick_def runAt_def)
      have "remaining newTime (waiters ?c1) < remaining newTime (waiters c)"
        using less.prems Cons False by (simp add: scheduled remaining_def)
      moreover have "\<forall>w \<in> set (waiters ?c1). 0 < w_period w"
        using less.prems Cons by (auto simp: scheduled)
      ultimately obtain c' where "add_loop others newTime ?c1 = Some c'"
        using less.hyps by blast
      then show ?thesis
        using Cons False by (subst add_loop.simps) (simp add: Let_def)
    qed
  qed
qed

theorem clock_add_returns:
  assumes "sorts_waiters srt" and "\<forall>w \<in> set (waiters c). 0 < w_period w" and "0 \<le> d"
  shows "\<exists>c'. Clock_Add srt others d c = Some (Inr c') \<and> mc_now c' = mc_now c + d"
proof -
  have "set (srt (waiters c)) = set (waiters c)"
    using assms(1) by (metis sorts_waiters_def mset_eq_setD)
  then obtain c' where "add_loop others (mc_now c + d) (c\<lparr>waiters := srt (waiters c)\<rparr>) = Some c'"
    using add_loop_returns [of "c\<lparr>waiters := srt (waiters c)\<rparr>" others "mc_now c + d"] assms(2) by auto
  then show ?thesis
    using assms(3) by (simp add: Clock_Add_def Let_def)
qed

text \<open>C39. \<^verbatim>\<open>Add\<close> does not run all ticks within its range, contrary to the comment on \<^verbatim>\<open>waiters\<close>: it sorts the waiters only
  once, the next tick of a ticker is put behind the others, and the loop stops at the first waiter that is out of
  range.  With two tickers, the second of which is not due, only the first tick of the first one is run; the
  clock is then past the time of the second tick, which still waits.\<close>

theorem clock_skips_ticks:
  assumes "sorts_waiters srt" and "0 < p" and "2 * p \<le> d" and "d < q"
  shows "\<exists>c'. Clock_Add srt others d (snd (NewTicker q (snd (NewTicker p (NewMockClock t))))) = Some (Inr c')
    \<and> ticks c' = [(0, t + p)] \<and> mc_now c' = t + d
    \<and> (\<exists>w \<in> set (waiters c'). w_chan w = 0 \<and> until w = t + 2 * p \<and> until w \<le> mc_now c')"
proof -
  let ?c = "snd (NewTicker q (snd (NewTicker p (NewMockClock t))))"
  let ?v = "\<lparr>until = t + p, w_period = p, w_chan = 0\<rparr>"
  let ?w = "\<lparr>until = t + q, w_period = q, w_chan = 1\<rparr>"
  have ws: "waiters ?c = [?v, ?w]"
    by (simp add: NewTicker_def clock_tick_def runAt_def NewMockClock_def Let_def)
  have perm: "mset (srt [?v, ?w]) = {#?v, ?w#}" and sorted: "sorted (map until (srt [?v, ?w]))"
    using assms(1) by (simp_all add: sorts_waiters_def)
  have "length (srt [?v, ?w]) = 2"
    using arg_cong [OF perm, of size] by simp
  then obtain a b where "srt [?v, ?w] = [a, b]"
    by (auto simp: length_Suc_conv numeral_2_eq_2)
  then have "srt (waiters ?c) = [?v, ?w]"
    using perm sorted assms(2-) ws by (auto simp: add_eq_conv_ex)
  then show ?thesis
    using assms
    by (simp add: Clock_Add_def add_loop.simps run_waiter_def clock_tick_def runAt_def NewTicker_def NewMockClock_def Let_def)
qed

lemma sort_key_sorts: "sorts_waiters (sort_key until)"
  by (simp add: sorts_waiters_def)

theorem clock_skips_ticks_witness:
  "\<exists>c'. Clock_Add (sort_key until) id 3 (snd (NewTicker 100 (snd (NewTicker 1 (NewMockClock 0))))) = Some (Inr c')
    \<and> ticks c' = [(0, 1)] \<and> mc_now c' = 3"
  using clock_skips_ticks [OF sort_key_sorts, of 1 3 100 id 0] by auto

end
