(* ===== verification/Readme.thy ===== *)
theory Readme
  imports Globals Support "HOL-Library.Product_Lexorder" "HOL-Library.Multiset" "HOL-Library.Sublist"
begin

text \<open>
  The generator of the readme, \<^verbatim>\<open>src/internal/readme/readme.go\<close>: it runs the benchmarks, reads a row of each
  library from their output, sorts the rows and fills a template with the tables.

  Running a command, standard input, the template package, the parsing of numbers and the arithmetic on floats are
  parameters.  Two things are not determined by the language: the order in which \<^verbatim>\<open>range\<close> meets the entries of a map,
  and the order in which \<^verbatim>\<open>sort.Sort\<close> leaves rows that compare equal.  Both are parameters with their contract,
  and the table does not depend on them if no two rows compare equal.
\<close>

section \<open>Data and parameters\<close>

definition libraryNameToMarkdownName :: "(bytes \<times> bytes) list" where
  "libraryNameToMarkdownName =
     [(''Zap'', '':zap: zap''),
      (''Zap.Sugar'', '':zap: zap (sugared)''),
      (''stdlib.Println'', ''standard library''),
      (''sirupsen/logrus'', ''logrus''),
      (''go-kit/kit/log'', ''go-kit''),
      (''inconshreveable/log15'', ''log15''),
      (''apex/log'', ''apex/log''),
      (''rs/zerolog'', ''zerolog''),
      (''slog'', ''slog''),
      (''slog.LogAttrs'', ''slog (LogAttrs)'')]"

record tmplData =
  BenchmarkAddingFields :: bytes
  BenchmarkAccumulatedContext :: bytes
  BenchmarkWithoutFields :: bytes

record benchmarkRow =
  br_Name :: bytes
  br_Time :: int64
  AllocatedBytes :: int64
  AllocatedObjects :: int64
  ZapTime :: int64
  ZapAllocatedBytes :: int64
  ZapAllocatedObjects :: int64

text \<open>\<open>CombinedOutput\<close> runs a command in a directory; its error comes with the output.  \<open>fmt_float\<close> is the format
  \<^verbatim>\<open>%+0.f\<close>, \<open>template_Parse\<close> gives the method \<^verbatim>\<open>Execute\<close> with standard output as the writer, \<open>uniSpace\<close> is
  \<^verbatim>\<open>strings.TrimSpace\<close> on text that is not ASCII.\<close>

record 's readme_env =
  CombinedOutput :: "bytes list \<Rightarrow> bytes \<Rightarrow> 's \<Rightarrow> (bytes \<times> bytes option) \<times> 's"
  ReadAll_Stdin :: "'s \<Rightarrow> (bytes + bytes) \<times> 's"
  template_Parse :: "bytes \<Rightarrow> bytes + (tmplData \<Rightarrow> 's \<Rightarrow> bytes option \<times> 's)"
  flag_Parse :: "'s \<Rightarrow> unit outcome \<times> 's"
  log_print :: "bytes \<Rightarrow> 's \<Rightarrow> 's"
  ParseDuration :: "bytes \<Rightarrow> bytes + int64"
  Atoi :: "bytes \<Rightarrow> bytes + int64"
  re_quote :: "bytes \<Rightarrow> bytes"
  uniSpace :: "bytes \<Rightarrow> bytes"
  float_of_int64 :: "int64 \<Rightarrow> uint64"
  float_div :: "uint64 \<Rightarrow> uint64 \<Rightarrow> uint64"
  float_mul :: "uint64 \<Rightarrow> uint64 \<Rightarrow> uint64"
  float_sub :: "uint64 \<Rightarrow> uint64 \<Rightarrow> uint64"
  fmt_float :: "uint64 \<Rightarrow> bytes"
  range_order :: "bytes \<Rightarrow> bytes list"
  sort_Sort :: "(benchmarkRow \<Rightarrow> benchmarkRow \<Rightarrow> bool) \<Rightarrow> benchmarkRow list \<Rightarrow> benchmarkRow list"

section \<open>Rows\<close>

definition TrimSuffix :: "bytes \<Rightarrow> bytes \<Rightarrow> bytes" where
  "TrimSuffix s suf = (if suffix suf s then take (length s - length suf) s else s)"

fun strings_Join :: "bytes list \<Rightarrow> bytes \<Rightarrow> bytes" where
  "strings_Join [] delim = []"
| "strings_Join [x] delim = x"
| "strings_Join (x # y # xs) delim = x @ delim @ strings_Join (y # xs) delim"

text \<open>The loop of \<^verbatim>\<open>findUniqueSubstring\<close>; \<open>output\<close> is the line found so far.\<close>

fun find_loop :: "bytes list \<Rightarrow> bytes \<Rightarrow> bytes \<Rightarrow> bytes + bytes" where
  "find_loop [] substring output = Inr output"
| "find_loop (line # input) substring output =
     (if strings_Contains line substring then
        if output \<noteq> [] then Inl (''input has duplicate substring '' @ substring)
        else find_loop input substring line
      else find_loop input substring output)"

definition findUniqueSubstring :: "bytes list \<Rightarrow> bytes \<Rightarrow> bytes + bytes" where
  "findUniqueSubstring input substring = find_loop input substring []"

text \<open>A name that is not in the map has the empty string as its Markdown name.\<close>

definition markdown_name :: "bytes \<Rightarrow> bytes" where
  "markdown_name libraryName = (case map_of libraryNameToMarkdownName libraryName of None \<Rightarrow> [] | Some n \<Rightarrow> n)"

definition tab :: char where
  "tab = CHR 0x09"

text \<open>\<open>Inr None\<close> is the result \<^verbatim>\<open>nil, nil\<close>.\<close>

definition getBenchmarkRow :: "'s readme_env \<Rightarrow> bytes list \<Rightarrow> bytes \<Rightarrow> bytes \<Rightarrow> benchmarkRow option
      \<Rightarrow> bytes + benchmarkRow option" where
  "getBenchmarkRow E input benchmarkName libraryName baseline =
     (case findUniqueSubstring input (benchmarkName @ ''/'' @ libraryName @ ''-'') of
        Inl err \<Rightarrow> Inl err
      | Inr line \<Rightarrow>
          if line = [] then Inr None
          else let split = strings_Split line tab in
          if length split < 5 then Inl (''unknown benchmark line: '' @ line)
          else (case ParseDuration E (filter (\<lambda>c. c \<noteq> CHR '' '') (TrimSuffix (TrimSpace (uniSpace E) (split ! 2)) ''/op'')) of
                  Inl err \<Rightarrow> Inl err
                | Inr duration \<Rightarrow>
          (case Atoi E (TrimSuffix (TrimSpace (uniSpace E) (split ! 3)) '' B/op'') of
             Inl err \<Rightarrow> Inl err
           | Inr allocatedBytes \<Rightarrow>
          (case Atoi E (TrimSuffix (TrimSpace (uniSpace E) (split ! 4)) '' allocs/op'') of
             Inl err \<Rightarrow> Inl err
           | Inr allocatedObjects \<Rightarrow>
          (let r = \<lparr>br_Name = markdown_name libraryName, br_Time = duration, AllocatedBytes = allocatedBytes,
                    AllocatedObjects = allocatedObjects, ZapTime = 0, ZapAllocatedBytes = 0, ZapAllocatedObjects = 0\<rparr>
           in case baseline of
                None \<Rightarrow> Inr (Some r)
              | Some b \<Rightarrow> Inr (Some (r\<lparr>ZapTime := br_Time b, ZapAllocatedBytes := AllocatedBytes b,
                                        ZapAllocatedObjects := AllocatedObjects b\<rparr>)))))))"

text \<open>\<^verbatim>\<open>benchmarkRow.String\<close> with its closure \<^verbatim>\<open>pct\<close>; \<open>0x4059000000000000\<close> is 100.\<close>

definition pct :: "'s readme_env \<Rightarrow> int64 \<Rightarrow> int64 \<Rightarrow> bytes" where
  "pct E val baseline =
     (let hundred = 0x4059000000000000
      in fmt_float E (float_sub E (float_mul E (float_div E (float_of_int64 E val) (float_of_int64 E baseline)) hundred) hundred)
         @ ''%'')"

definition benchmarkRow_String :: "'s readme_env \<Rightarrow> benchmarkRow \<Rightarrow> bytes" where
  "benchmarkRow_String E b =
     (let t = br_Time b; tp = pct E t (ZapTime b)
      in ''| '' @ br_Name b @ '' | '' @ itoa (sint t) @ '' ns/op | '' @ tp @ '' | '' @ itoa (sint (AllocatedObjects b)) @ '' allocs/op'')"

definition benchmarkRowsByTime_Less :: "benchmarkRow \<Rightarrow> benchmarkRow \<Rightarrow> bool" where
  "benchmarkRowsByTime_Less left right =
     (let leftZap = strings_Contains (br_Name left) ''zap''; rightZap = strings_Contains (br_Name right) ''zap''
      in if leftZap = rightZap then br_Time left <s br_Time right else leftZap)"

section \<open>Tables\<close>

definition getBenchmarkOutput :: "'s readme_env \<Rightarrow> bytes \<Rightarrow> 's \<Rightarrow> (bytes + bytes list) \<times> 's" where
  "getBenchmarkOutput E benchmarkName s =
     (case CombinedOutput E [''go'', ''test'', ''-bench='' @ benchmarkName, ''-benchmem''] ''benchmarks'' s of
        ((output, Some err), s1) \<Rightarrow>
          (Inl (''error running '' @ [CHR 0x27] @ ''go test -bench='' @ re_quote E benchmarkName @ [CHR 0x27] @ '': '' @ err
                @ [newline] @ output), s1)
      | ((output, None), s1) \<Rightarrow> (Inr (strings_Split output newline), s1))"

text \<open>The loop over the map, which meets the libraries in some order.\<close>

fun rows_loop :: "'s readme_env \<Rightarrow> bytes list \<Rightarrow> bytes \<Rightarrow> benchmarkRow option \<Rightarrow> bytes list \<Rightarrow> benchmarkRow list
      \<Rightarrow> bytes + benchmarkRow list" where
  "rows_loop E input benchmarkName baseline [] rows = Inr rows"
| "rows_loop E input benchmarkName baseline (libraryName # names) rows =
     (case getBenchmarkRow E input benchmarkName libraryName baseline of
        Inl err \<Rightarrow> Inl err
      | Inr None \<Rightarrow> rows_loop E input benchmarkName baseline names rows
      | Inr (Some r) \<Rightarrow> rows_loop E input benchmarkName baseline names (rows @ [r]))"

definition table_text :: "'s readme_env \<Rightarrow> benchmarkRow list \<Rightarrow> bytes" where
  "table_text E rows =
     strings_Join ([''| Package | Time | Time % to zap | Objects Allocated |'',
                    ''| :------ | :--: | :-----------: | :---------------: |'']
                   @ map (benchmarkRow_String E) rows) [newline]"

definition getBenchmarkRows :: "'s readme_env \<Rightarrow> bytes \<Rightarrow> 's \<Rightarrow> (bytes + bytes) \<times> 's" where
  "getBenchmarkRows E benchmarkName s =
     (case getBenchmarkOutput E benchmarkName s of
        (Inl err, s1) \<Rightarrow> (Inl err, s1)
      | (Inr benchmarkOutput, s1) \<Rightarrow>
          (case getBenchmarkRow E benchmarkOutput benchmarkName ''Zap'' None of
             Inl err \<Rightarrow> (Inl err, s1)
           | Inr baseline \<Rightarrow>
               (case rows_loop E benchmarkOutput benchmarkName baseline (range_order E benchmarkName) [] of
                  Inl err \<Rightarrow> (Inl err, s1)
                | Inr benchmarkRows \<Rightarrow> (Inr (table_text E (sort_Sort E benchmarkRowsByTime_Less benchmarkRows)), s1))))"

definition getTmplData :: "'s readme_env \<Rightarrow> 's \<Rightarrow> (bytes + tmplData) \<times> 's" where
  "getTmplData E s =
     (case getBenchmarkRows E ''BenchmarkAddingFields'' s of
        (Inl err, s1) \<Rightarrow> (Inl err, s1)
      | (Inr adding, s1) \<Rightarrow>
     (case getBenchmarkRows E ''BenchmarkAccumulatedContext'' s1 of
        (Inl err, s2) \<Rightarrow> (Inl err, s2)
      | (Inr accumulated, s2) \<Rightarrow>
     (case getBenchmarkRows E ''BenchmarkWithoutFields'' s2 of
        (Inl err, s3) \<Rightarrow> (Inl err, s3)
      | (Inr without, s3) \<Rightarrow>
          (Inr \<lparr>BenchmarkAddingFields = adding, BenchmarkAccumulatedContext = accumulated,
                BenchmarkWithoutFields = without\<rparr>, s3))))"

definition readme_do :: "'s readme_env \<Rightarrow> 's \<Rightarrow> bytes option \<times> 's" where
  "readme_do E s =
     (case getTmplData E s of
        (Inl err, s1) \<Rightarrow> (Some err, s1)
      | (Inr data, s1) \<Rightarrow>
          (case ReadAll_Stdin E s1 of
             (Inl err, s2) \<Rightarrow> (Some err, s2)
           | (Inr text, s2) \<Rightarrow>
               (case template_Parse E text of
                  Inl err \<Rightarrow> (Some err, s2)
                | Inr execute \<Rightarrow> execute data s2)))"

text \<open>\<^verbatim>\<open>log.Fatal\<close> prints and exits with status 1.\<close>

definition readme_main :: "'s readme_env \<Rightarrow> 's \<Rightarrow> unit outcome \<times> 's" where
  "readme_main E s =
     then_do (flag_Parse E s) (\<lambda>_ s1.
       case readme_do E s1 of
         (None, s2) \<Rightarrow> (Ret (), s2)
       | (Some err, s2) \<Rightarrow> (Exits 1, log_print E err s2))"

section \<open>Finding and reading a line\<close>

lemma strings_Contains_Nil: "strings_Contains s sub \<Longrightarrow> sub \<noteq> [] \<Longrightarrow> s \<noteq> []"
  by auto

lemma find_loop_found:
  assumes "sub \<noteq> []" and "out \<noteq> []"
  shows "find_loop input sub out
    = (if \<exists>l \<in> set input. strings_Contains l sub then Inl (''input has duplicate substring '' @ sub) else Inr out)"
  using assms by (induction input) auto

text \<open>The line is the one that contains the text, the empty one if there is none, and several are an error.\<close>

lemma findUniqueSubstring_exact:
  assumes "sub \<noteq> []"
  shows "findUniqueSubstring input sub =
    (case filter (\<lambda>l. strings_Contains l sub) input of
       [] \<Rightarrow> Inr []
     | [l] \<Rightarrow> Inr l
     | _ \<Rightarrow> Inl (''input has duplicate substring '' @ sub))"
  unfolding findUniqueSubstring_def
proof (induction input)
  case (Cons l input)
  show ?case
  proof (cases "strings_Contains l sub")
    case True
    then have "l \<noteq> []"
      using assms strings_Contains_Nil by blast
    then show ?thesis
      using True assms by (cases "filter (\<lambda>l. strings_Contains l sub) input")
        (auto simp: find_loop_found filter_empty_conv dest: filter_eq_ConsD)
  qed (use Cons in simp)
qed simp

lemma TrimSuffix_append [simp]: "TrimSuffix (s @ suf) suf = s"
  by (simp add: TrimSuffix_def suffix_def)

text \<open>Columns are padded with spaces.\<close>

lemma TrimSpace_padded:
  assumes "list_all ascii s" and "s \<noteq> []" and "\<not> is_space (hd s)" and "\<not> is_space (last s)"
  shows "TrimSpace uni (replicate n (CHR '' '') @ s) = s"
proof -
  have sp: "is_space (CHR '' '')" "ascii (CHR '' '')"
    by (simp_all add: is_space_def ascii_def)
  have "dropWhile is_space (replicate n (CHR '' '') @ s) = s"
    using assms(2,3) sp(1) by (induction n) (simp_all add: dropWhile_eq_self_iff)
  moreover have "dropWhile is_space (rev s) = rev s"
    using assms(2,4) by (simp add: dropWhile_eq_self_iff hd_rev)
  moreover have "list_all ascii (replicate n (CHR '' '') @ s)"
    using assms(1) sp(2) by (induction n) simp_all
  ultimately show ?thesis
    by (simp add: TrimSpace_def)
qed

text \<open>A number of a column: digits and a decimal point.\<close>

definition number_text :: "bytes \<Rightarrow> bool" where
  "number_text s \<longleftrightarrow> s \<noteq> [] \<and> list_all (\<lambda>c. is_digit c \<or> c = CHR ''.'') s"

lemma number_text_bytes:
  assumes "number_text s"
  shows "list_all ascii s" "s \<noteq> []" "\<not> is_space (hd s)" "tab \<notin> set s" "filter (\<lambda>c. c \<noteq> CHR '' '') s = s"
proof -
  have num: "48 \<le> bval c \<and> bval c \<le> 57 \<or> c = CHR ''.''" if "c \<in> set s" for c
    using assms that by (auto simp: number_text_def list_all_iff is_digit_def)
  show "s \<noteq> []"
    using assms by (simp add: number_text_def)
  then show "\<not> is_space (hd s)"
    using num [of "hd s"] by (auto simp: is_space_def)
  show "list_all ascii s"
    using num by (force simp: list_all_iff ascii_def)
  show "tab \<notin> set s" and "filter (\<lambda>c. c \<noteq> CHR '' '') s = s"
    using num by (fastforce simp: tab_def filter_id_conv)+
qed

lemma column_text:
  assumes "number_text d" and "list_all ascii unit_text" and "unit_text \<noteq> []" and "\<not> is_space (last unit_text)"
  shows "TrimSpace uni (replicate n (CHR '' '') @ d @ unit_text) = d @ unit_text"
  using assms number_text_bytes [OF assms(1)] by (intro TrimSpace_padded) simp_all

text \<open>A line as \<^verbatim>\<open>go test -benchmem\<close> prints it.\<close>

definition bench_line :: "bytes \<Rightarrow> bytes \<Rightarrow> nat \<Rightarrow> bytes \<Rightarrow> nat \<Rightarrow> bytes \<Rightarrow> nat \<Rightarrow> bytes \<Rightarrow> bytes" where
  "bench_line name runs i time j allocated k allocs =
     name @ tab # runs
     @ tab # (replicate i (CHR '' '') @ time @ '' ns/op'')
     @ tab # (replicate j (CHR '' '') @ allocated @ '' B/op'')
     @ tab # (replicate k (CHR '' '') @ allocs @ '' allocs/op'')"

lemma bench_line_columns:
  assumes "tab \<notin> set name" and "tab \<notin> set runs" and "number_text time" and "number_text allocated" and "number_text allocs"
  shows "strings_Split (bench_line name runs i time j allocated k allocs) tab =
    [name, runs, replicate i (CHR '' '') @ time @ '' ns/op'', replicate j (CHR '' '') @ allocated @ '' B/op'',
     replicate k (CHR '' '') @ allocs @ '' allocs/op'']"
  using assms number_text_bytes(4) [of time] number_text_bytes(4) [of allocated] number_text_bytes(4) [of allocs]
  unfolding bench_line_def
  by (subst strings_Split_at_sep strings_Split_no_sep, simp add: tab_def)+ simp

text \<open>Its numbers are read, the time with its unit.\<close>

lemma getBenchmarkRow_reads_line:
  assumes "filter (\<lambda>l. strings_Contains l (bench @ ''/'' @ lib @ ''-'')) input = [bench_line name runs i time j allocated k allocs]"
    and "tab \<notin> set name" and "tab \<notin> set runs" and "number_text time" and "number_text allocated" and "number_text allocs"
    and "ParseDuration E (time @ ''ns'') = Inr t" and "Atoi E allocated = Inr a" and "Atoi E allocs = Inr n"
  shows "getBenchmarkRow E input bench lib (Some b) =
    Inr (Some \<lparr>br_Name = markdown_name lib, br_Time = t, AllocatedBytes = a, AllocatedObjects = n,
               ZapTime = br_Time b, ZapAllocatedBytes = AllocatedBytes b, ZapAllocatedObjects = AllocatedObjects b\<rparr>)"
proof -
  have found: "findUniqueSubstring input (bench @ ''/'' @ lib @ ''-'') = Inr (bench_line name runs i time j allocated k allocs)"
    using assms(1) by (simp add: findUniqueSubstring_exact)
  have columns: "TrimSpace (uniSpace E) (replicate i (CHR '' '') @ time @ '' ns/op'') = (time @ '' ns'') @ ''/op''"
    "TrimSpace (uniSpace E) (replicate j (CHR '' '') @ allocated @ '' B/op'') = allocated @ '' B/op''"
    "TrimSpace (uniSpace E) (replicate k (CHR '' '') @ allocs @ '' allocs/op'') = allocs @ '' allocs/op''"
    using assms(4-6) by (simp_all add: column_text ascii_def is_space_def)
  have "bench_line name runs i time j allocated k allocs \<noteq> []"
    by (simp add: bench_line_def)
  moreover have "filter (\<lambda>c. c \<noteq> CHR '' '') (time @ '' ns'') = time @ ''ns''"
    using number_text_bytes(5) [OF assms(4)] by simp
  ultimately show ?thesis
    using assms(7-9) unfolding getBenchmarkRow_def found
    by (simp add: bench_line_columns [OF assms(2-6)] columns TrimSuffix_append del: append_assoc filter_append)
qed

section \<open>The table is determined\<close>

text \<open>Zap first, then by time: the comparison is that of keys in lexicographic order.\<close>

definition row_key :: "benchmarkRow \<Rightarrow> bool \<times> int" where
  "row_key r = (\<not> strings_Contains (br_Name r) ''zap'', sint (br_Time r))"

lemma Less_row_key: "benchmarkRowsByTime_Less a b \<longleftrightarrow> row_key a < row_key b"
  by (auto simp: benchmarkRowsByTime_Less_def row_key_def word_sless_alt Let_def)

text \<open>What the language promises: \<^verbatim>\<open>range\<close> meets every entry once, and after \<^verbatim>\<open>sort.Sort\<close> the same rows are there and
  none is less than one before it.\<close>

definition readme_contract :: "'s readme_env \<Rightarrow> bool" where
  "readme_contract E \<longleftrightarrow>
     (\<forall>name. mset (range_order E name) = mset (map fst libraryNameToMarkdownName))
   \<and> (\<forall>rows. mset (sort_Sort E benchmarkRowsByTime_Less rows) = mset rows
        \<and> sorted_wrt (\<lambda>a b. \<not> benchmarkRowsByTime_Less b a) (sort_Sort E benchmarkRowsByTime_Less rows))"

lemma sort_Sort_determined:
  assumes "readme_contract E" and "mset rows = mset rows'" and "inj_on row_key (set rows')"
  shows "sort_Sort E benchmarkRowsByTime_Less rows = sort_key row_key rows'"
proof (rule sort_key_inj_key_eq [symmetric])
  show "mset rows' = mset (sort_Sort E benchmarkRowsByTime_Less rows)"
    using assms(1,2) by (simp add: readme_contract_def)
  show "sorted (map row_key (sort_Sort E benchmarkRowsByTime_Less rows))"
    using assms(1) by (simp add: readme_contract_def Less_row_key sorted_wrt_map not_less)
qed (fact assms(3))

definition row_of :: "'s readme_env \<Rightarrow> bytes list \<Rightarrow> bytes \<Rightarrow> benchmarkRow option \<Rightarrow> bytes \<Rightarrow> benchmarkRow list" where
  "row_of E input name baseline lib =
     (case getBenchmarkRow E input name lib baseline of Inr (Some r) \<Rightarrow> [r] | _ \<Rightarrow> [])"

lemma rows_loop_fails:
  "\<exists>lib \<in> set names. isl (getBenchmarkRow E input name lib baseline)
    \<Longrightarrow> \<exists>err. rows_loop E input name baseline names rows = Inl err"
  by (induction names arbitrary: rows) (auto split: sum.splits option.splits)

lemma rows_loop_succeeds:
  "\<not> (\<exists>lib \<in> set names. isl (getBenchmarkRow E input name lib baseline))
    \<Longrightarrow> rows_loop E input name baseline names rows = Inr (rows @ concat (map (row_of E input name baseline) names))"
  by (induction names arbitrary: rows) (auto simp: row_of_def split: sum.splits option.splits)

lemma mset_concat_map: "mset xs = mset ys \<Longrightarrow> mset (concat (map f xs)) = mset (concat (map f ys))"
proof -
  have "mset (concat (map f zs)) = sum_mset (image_mset (\<lambda>x. mset (f x)) (mset zs))" for zs
    by (induction zs) simp_all
  then show "mset xs = mset ys \<Longrightarrow> mset (concat (map f xs)) = mset (concat (map f ys))"
    by simp
qed

text \<open>The reference: the rows in the order of the map's text, sorted.\<close>

definition all_rows :: "'s readme_env \<Rightarrow> bytes list \<Rightarrow> bytes \<Rightarrow> benchmarkRow option \<Rightarrow> benchmarkRow list" where
  "all_rows E input name baseline = concat (map (row_of E input name baseline) (map fst libraryNameToMarkdownName))"

text \<open>C40. The table that \<^verbatim>\<open>getBenchmarkRows\<close> makes of an output without ties does not depend on the order in which the
  map of libraries is traversed, nor on how \<^verbatim>\<open>sort.Sort\<close> treats equal rows: it has one row for each library found, the
  rows of zap first and each group by increasing time.  If the line of a library cannot be read the result is an
  error, in every order.\<close>

theorem readme_table_determined:
  assumes "readme_contract E"
    and "getBenchmarkOutput E name s = (Inr input, s')"
    and "getBenchmarkRow E input name ''Zap'' None = Inr baseline"
    and "distinct (map row_key (all_rows E input name baseline))"
  shows "if \<exists>lib \<in> fst ` set libraryNameToMarkdownName. isl (getBenchmarkRow E input name lib baseline)
    then \<exists>err. getBenchmarkRows E name s = (Inl err, s')
    else getBenchmarkRows E name s = (Inr (table_text E (sort_key row_key (all_rows E input name baseline))), s')"
proof -
  let ?names = "range_order E name"
  have perm: "mset ?names = mset (map fst libraryNameToMarkdownName)"
    using assms(1) by (simp add: readme_contract_def)
  then have libs: "set ?names = fst ` set libraryNameToMarkdownName"
    using mset_eq_setD [OF perm] by simp
  have rows: "sort_Sort E benchmarkRowsByTime_Less (concat (map (row_of E input name baseline) ?names))
      = sort_key row_key (all_rows E input name baseline)"
    using assms(1,4) mset_concat_map [OF perm] unfolding all_rows_def
    by (intro sort_Sort_determined) (simp_all add: distinct_map)
  show ?thesis
  proof (cases "\<exists>lib \<in> set ?names. isl (getBenchmarkRow E input name lib baseline)")
    case True
    then show ?thesis
      using rows_loop_fails [OF True, of "[]"] by (auto simp: getBenchmarkRows_def assms(2,3) simp flip: libs)
  next
    case False
    then show ?thesis
      using rows_loop_succeeds [OF False, of "[]"] rows by (simp add: getBenchmarkRows_def assms(2,3) flip: libs)
  qed
qed

text \<open>An environment with an output of two lines, numbers of one digit, and a traversal against the order of the text.\<close>

definition demo_Atoi :: "bytes \<Rightarrow> bytes + int64" where
  "demo_Atoi t = Inr (word_of_int (atoi t))"

definition demo_readme :: "unit readme_env" where
  "demo_readme =
     \<lparr>CombinedOutput = (\<lambda>args dir s. ((bench_line ''B/slog-8'' ''1'' 0 ''7'' 0 ''5'' 0 ''3'' @ newline
                                          # bench_line ''B/Zap-8'' ''1'' 1 ''9'' 1 ''5'' 1 ''2'' @ [newline], None), s)),
      ReadAll_Stdin = (\<lambda>s. (Inr [], s)), template_Parse = (\<lambda>t. Inr (\<lambda>d s. (None, s))), flag_Parse = (\<lambda>s. (Ret (), s)),
      log_print = (\<lambda>t s. s), ParseDuration = (\<lambda>t. demo_Atoi (TrimSuffix t ''ns'')), Atoi = demo_Atoi, re_quote = id,
      uniSpace = id, float_of_int64 = id, float_div = (-), float_mul = (\<lambda>x y. x), float_sub = (\<lambda>x y. x),
      fmt_float = (\<lambda>x. itoa (sint x)), range_order = (\<lambda>name. rev (map fst libraryNameToMarkdownName)),
      sort_Sort = (\<lambda>less. sort_key row_key)\<rparr>"

lemma demo_readme_contract: "readme_contract demo_readme"
  by (simp add: readme_contract_def demo_readme_def Less_row_key not_less sorted_wrt_map [symmetric])

definition demo_input :: "bytes list" where
  "demo_input = [bench_line ''B/slog-8'' ''1'' 0 ''7'' 0 ''5'' 0 ''3'', bench_line ''B/Zap-8'' ''1'' 1 ''9'' 1 ''5'' 1 ''2'', []]"

definition demo_row :: "bytes \<Rightarrow> int64 \<Rightarrow> int64 \<Rightarrow> int64 \<Rightarrow> int64 \<Rightarrow> int64 \<Rightarrow> benchmarkRow" where
  "demo_row n t al zt zb zo = \<lparr>br_Name = n, br_Time = t, AllocatedBytes = 5, AllocatedObjects = al, ZapTime = zt,
     ZapAllocatedBytes = zb, ZapAllocatedObjects = zo\<rparr>"

lemma demo_output: "getBenchmarkOutput demo_readme ''B'' () = (Inr demo_input, ())"
  by code_simp

lemma demo_baseline:
  "getBenchmarkRow demo_readme demo_input ''B'' ''Zap'' None = Inr (Some (demo_row '':zap: zap'' 9 2 0 0 0))"
  by code_simp

lemma demo_rows:
  "all_rows demo_readme demo_input ''B'' (Some (demo_row '':zap: zap'' 9 2 0 0 0))
     = [demo_row '':zap: zap'' 9 2 9 5 2, demo_row ''slog'' 7 3 9 5 2]"
  "list_all (\<lambda>lib. \<not> isl (getBenchmarkRow demo_readme demo_input ''B'' lib (Some (demo_row '':zap: zap'' 9 2 0 0 0))))
     (map fst libraryNameToMarkdownName)"
  by code_simp+

lemma demo_keys:
  "map row_key [demo_row '':zap: zap'' 9 2 9 5 2, demo_row ''slog'' 7 3 9 5 2] = [(False, 9), (True, 7)]"
  by code_simp

theorem readme_table_determined_witness:
  "readme_contract demo_readme
   \<and> getBenchmarkRows demo_readme ''B'' ()
     = (Inr (table_text demo_readme [demo_row '':zap: zap'' 9 2 9 5 2, demo_row ''slog'' 7 3 9 5 2]), ())"
proof -
  have "sort_key row_key [demo_row '':zap: zap'' 9 2 9 5 2, demo_row ''slog'' 7 3 9 5 2]
    = [demo_row '':zap: zap'' 9 2 9 5 2, demo_row ''slog'' 7 3 9 5 2]"
    using demo_keys by simp
  moreover have "\<not> (\<exists>lib \<in> fst ` set libraryNameToMarkdownName.
      isl (getBenchmarkRow demo_readme demo_input ''B'' lib (Some (demo_row '':zap: zap'' 9 2 0 0 0))))"
    using demo_rows(2) by (simp add: list_all_iff)
  moreover have "distinct (map row_key (all_rows demo_readme demo_input ''B'' (Some (demo_row '':zap: zap'' 9 2 0 0 0))))"
    unfolding demo_rows(1) demo_keys by simp
  ultimately show ?thesis
    using readme_table_determined [OF demo_readme_contract demo_output demo_baseline] demo_readme_contract
    by (simp add: demo_rows(1) del: list.map)
qed

end
