(* ===== verification/Entry_Pool.thy ===== *)
theory Entry_Pool
  imports Core_Laws
begin

text \<open>
  The pool of checked entries in \<^verbatim>\<open>src/zapcore/entry.go\<close>.  The rest of the development treats a checked entry as a
  value; here it is an object in a store, which \<^verbatim>\<open>Write\<close> returns to the pool and which the pool hands out again, while
  callers may have kept a pointer to it.  Every sequence of operations of all callers is covered, right or wrong: what
  is shown is what the flag \<^verbatim>\<open>dirty\<close> guarantees under misuse.  The operations happen one at a time: two goroutines
  that write one entry at the same moment race on the flag, which nothing protects.
\<close>

section \<open>The pool\<close>

text \<open>An entry is its number; \<open>ce_idle\<close> are those that the pool holds, \<open>ce_made\<close> is how many were made.\<close>

record ('n, 'l, 'v, 's) ce_pool =
  ce_cells :: "nat \<Rightarrow> ('n, 'l, 'v, 's) CheckedEntry"
  ce_idle :: "nat list"
  ce_made :: nat

text \<open>\<^verbatim>\<open>_cePool.Get\<close> takes the \<open>k\<close>-th of the entries in the pool, which is up to \<^verbatim>\<open>sync.Pool\<close>, or makes a new one (whose
  four nil cores are cut off by \<^verbatim>\<open>reset\<close> before anything sees them; here they are left out).  \<open>zero\<close> is \<^verbatim>\<open>Entry{}\<close>.\<close>

definition cePool_Get :: "'l Entry \<Rightarrow> nat option \<Rightarrow> ('n, 'l, 'v, 's) ce_pool \<Rightarrow> nat \<times> ('n, 'l, 'v, 's) ce_pool" where
  "cePool_Get zero choice p =
     (let new = (ce_made p, p\<lparr>ce_cells := (ce_cells p)(ce_made p := getCheckedEntry zero), ce_made := Suc (ce_made p)\<rparr>)
      in case choice of
           None \<Rightarrow> new
         | Some k \<Rightarrow>
             if k < length (ce_idle p)
             then (ce_idle p ! k, p\<lparr>ce_idle := take k (ce_idle p) @ drop (Suc k) (ce_idle p)\<rparr>)
             else new)"

definition cePool_Put :: "nat \<Rightarrow> ('n, 'l, 'v, 's) ce_pool \<Rightarrow> ('n, 'l, 'v, 's) ce_pool" where
  "cePool_Put i p = p\<lparr>ce_idle := i # ce_idle p\<rparr>"

definition CheckedEntry_reset :: "'l Entry \<Rightarrow> ('n, 'l, 'v, 's) CheckedEntry \<Rightarrow> ('n, 'l, 'v, 's) CheckedEntry" where
  "CheckedEntry_reset zero ce =
     ce\<lparr>ce_Entry := zero, ErrorOutput := None, dirty := False, after := None, cores := [], before := []\<rparr>"

definition ce_set :: "nat \<Rightarrow> (('n, 'l, 'v, 's) CheckedEntry \<Rightarrow> ('n, 'l, 'v, 's) CheckedEntry) \<Rightarrow> ('n, 'l, 'v, 's) ce_pool
      \<Rightarrow> ('n, 'l, 'v, 's) ce_pool" where
  "ce_set i u p = p\<lparr>ce_cells := (ce_cells p)(i := u (ce_cells p i))\<rparr>"

definition pool_getCheckedEntry :: "'l Entry \<Rightarrow> nat option \<Rightarrow> ('n, 'l, 'v, 's) ce_pool \<Rightarrow> nat \<times> ('n, 'l, 'v, 's) ce_pool" where
  "pool_getCheckedEntry zero choice p =
     (case cePool_Get zero choice p of (i, p1) \<Rightarrow> (i, ce_set i (CheckedEntry_reset zero) p1))"

definition putCheckedEntry :: "nat option \<Rightarrow> ('n, 'l, 'v, 's) ce_pool \<Rightarrow> ('n, 'l, 'v, 's) ce_pool" where
  "putCheckedEntry ce p = (case ce of None \<Rightarrow> p | Some i \<Rightarrow> cePool_Put i p)"

section \<open>The operations on pointers\<close>

text \<open>\<^verbatim>\<open>AddCore\<close>, \<^verbatim>\<open>Before\<close> and \<^verbatim>\<open>After\<close> on a pointer, which may be nil.\<close>

definition ptr_or_new :: "'l Entry \<Rightarrow> nat option \<Rightarrow> 'l Entry \<Rightarrow> nat option \<Rightarrow> ('n, 'l, 'v, 's) ce_pool
      \<Rightarrow> nat \<times> ('n, 'l, 'v, 's) ce_pool" where
  "ptr_or_new zero choice ent ce p =
     (case ce of
        None \<Rightarrow> (case pool_getCheckedEntry zero choice p of (i, p1) \<Rightarrow> (i, ce_set i (\<lambda>c. c\<lparr>ce_Entry := ent\<rparr>) p1))
      | Some i \<Rightarrow> (i, p))"

definition pool_AddCore where
  "pool_AddCore zero choice ent core ce p =
     (case ptr_or_new zero choice ent ce p of (i, p1) \<Rightarrow> (i, ce_set i (\<lambda>c. c\<lparr>cores := cores c @ [core]\<rparr>) p1))"

definition pool_Before where
  "pool_Before zero choice ent hook ce p =
     (case ptr_or_new zero choice ent ce p of (i, p1) \<Rightarrow> (i, ce_set i (\<lambda>c. c\<lparr>before := before c @ [hook]\<rparr>) p1))"

definition pool_After where
  "pool_After zero choice ent hook ce p =
     (case ptr_or_new zero choice ent ce p of (i, p1) \<Rightarrow> (i, ce_set i (\<lambda>c. c\<lparr>after := Some hook\<rparr>) p1))"

text \<open>\<^verbatim>\<open>Write\<close>: an entry that is not dirty is written and, if the call gets there, put back into the pool.  When the
  action of the level panics or ends the goroutine it does not get there.\<close>

definition pool_Write :: "(bytes option \<Rightarrow> bytes option \<Rightarrow> bytes option) \<Rightarrow> 'l gofmt \<Rightarrow> ('n, 'l, 'v) Encoder
      \<Rightarrow> nat option \<Rightarrow> ('l, 'v) Field list \<Rightarrow> ('n, 'l, 'v, 's) ce_pool \<Rightarrow> ('l, 'v, 's) world
      \<Rightarrow> (unit outcome \<times> ('n, 'l, 'v, 's) ce_pool) \<times> ('l, 'v, 's) world" where
  "pool_Write app F E ce fs p w =
     (case ce of
        None \<Rightarrow> ((Ret (), p), w)
      | Some i \<Rightarrow>
          (case CheckedEntry_Write app F E (ce_cells p i) fs w of ((r, ce1), w1) \<Rightarrow>
             let p1 = ce_set i (\<lambda>_. ce1) p
             in ((r, if \<not> dirty (ce_cells p i) \<and> r = Ret () then putCheckedEntry (Some i) p1 else p1), w1)))"

text \<open>What \<^verbatim>\<open>Write\<close> does with an entry that is dirty.\<close>

definition misuse_report :: "(bytes option \<Rightarrow> bytes option \<Rightarrow> bytes option) \<Rightarrow> 'l gofmt \<Rightarrow> ('n, 'l, 'v, 's) CheckedEntry
      \<Rightarrow> ('l, 'v, 's) world \<Rightarrow> ('l, 'v, 's) world" where
  "misuse_report app F ce w =
     (case ErrorOutput ce of
        None \<Rightarrow> w
      | Some out \<Rightarrow> w\<lparr>outside := report app out
          (fmt_time F (ent_Time (ce_Entry ce)) @ '' Unsafe CheckedEntry re-use near Entry ''
           @ fmt_entry F (ce_Entry ce) @ [CHR ''.'', newline]) (outside w)\<rparr>)"

text \<open>A pointer that comes from nil holds what the operation on values gives.\<close>

lemma pool_get_fresh:
  assumes "pool_getCheckedEntry zero choice p = (i, p1)"
  shows "ce_cells p1 i = getCheckedEntry zero" and "j \<noteq> i \<Longrightarrow> ce_cells p1 j = ce_cells p j"
  using assms by (auto simp: pool_getCheckedEntry_def cePool_Get_def ce_set_def CheckedEntry_reset_def getCheckedEntry_def Let_def
      split: option.splits if_splits)

lemma pool_AddCore_nil:
  assumes "pool_AddCore zero choice ent core None p = (i, p1)"
  shows "ce_cells p1 i = AddCore ent core None"
  using assms pool_get_fresh(1) [of zero choice p]
  by (auto simp: pool_AddCore_def ptr_or_new_def ce_set_def AddCore_def ce_or_new_def getCheckedEntry_def split: prod.splits)

section \<open>All uses\<close>

text \<open>What happened: an entry was handed out, or written to its cores.\<close>

datatype ce_event = Got nat | Wrote nat

text \<open>Any caller may at any time get an entry, change an entry it has a pointer to (add cores and hooks, set the error
  output, the caller and the stack: everything but the flag), and write it.  Between these the world may change.\<close>

inductive ce_reach :: "(bytes option \<Rightarrow> bytes option \<Rightarrow> bytes option) \<Rightarrow> 'l gofmt \<Rightarrow> ('n, 'l, 'v) Encoder
      \<Rightarrow> ce_event list \<Rightarrow> ('n, 'l, 'v, 's) ce_pool \<Rightarrow> ('l, 'v, 's) world \<Rightarrow> bool" for app F E where
  cr_init: "ce_idle p = [] \<Longrightarrow> ce_made p = 0 \<Longrightarrow> ce_reach app F E [] p w"
| cr_get: "ce_reach app F E tr p w \<Longrightarrow> pool_getCheckedEntry zero choice p = (i, p1) \<Longrightarrow> ce_reach app F E (tr @ [Got i]) p1 w"
| cr_change: "ce_reach app F E tr p w \<Longrightarrow> i < ce_made p \<Longrightarrow> dirty (u (ce_cells p i)) = dirty (ce_cells p i)
    \<Longrightarrow> ce_reach app F E tr (ce_set i u p) w"
| cr_write: "ce_reach app F E tr p w \<Longrightarrow> i < ce_made p \<Longrightarrow> pool_Write app F E (Some i) fs p w = ((r, p1), w1)
    \<Longrightarrow> ce_reach app F E (tr @ (if dirty (ce_cells p i) then [] else [Wrote i])) p1 w1"
| cr_world: "ce_reach app F E tr p w \<Longrightarrow> ce_reach app F E tr p w1"

definition ce_inv :: "ce_event list \<Rightarrow> ('n, 'l, 'v, 's) ce_pool \<Rightarrow> bool" where
  "ce_inv tr p \<longleftrightarrow> distinct (ce_idle p)
     \<and> (\<forall>i \<in> set (ce_idle p). i < ce_made p \<and> dirty (ce_cells p i))
     \<and> (\<forall>i. count_list tr (Wrote i) + of_bool (i < ce_made p \<and> \<not> dirty (ce_cells p i)) \<le> count_list tr (Got i))"

lemma Write_dirty:
  "CheckedEntry_Write app F E ce fs w = ((r, ce1), w1) \<Longrightarrow> dirty ce1 \<and> (dirty ce \<longrightarrow> ce1 = ce)"
  by (auto simp: CheckedEntry_Write_def Let_def split: if_splits prod.splits)

lemma pool_get_cases:
  assumes "pool_getCheckedEntry zero choice p = (i, p1)"
  obtains (pooled) xs ys where "ce_idle p = xs @ i # ys" and "ce_idle p1 = xs @ ys" and "ce_made p1 = ce_made p"
    | (made) "i = ce_made p" and "ce_made p1 = Suc (ce_made p)" and "ce_idle p1 = ce_idle p"
proof (cases "\<exists>k. choice = Some k \<and> k < length (ce_idle p)")
  case True
  then obtain k where k: "choice = Some k" "k < length (ce_idle p)"
    by blast
  then have "ce_idle p = take k (ce_idle p) @ i # drop (Suc k) (ce_idle p)" "ce_idle p1 = take k (ce_idle p) @ drop (Suc k) (ce_idle p)"
      "ce_made p1 = ce_made p"
    using assms id_take_nth_drop [OF k(2)] by (auto simp: pool_getCheckedEntry_def cePool_Get_def ce_set_def Let_def)
  then show ?thesis
    by (rule that(1))
next
  case False
  then show ?thesis
    using assms by (intro that(2)) (auto simp: pool_getCheckedEntry_def cePool_Get_def ce_set_def Let_def split: option.splits)
qed

lemma ce_inv_get:
  assumes inv: "ce_inv tr p" and get: "pool_getCheckedEntry zero choice p = (i, p1)"
  shows "ce_inv (tr @ [Got i]) p1 \<and> i \<notin> set (ce_idle p1)"
proof -
  have idle: "distinct (ce_idle p1) \<and> i \<notin> set (ce_idle p1) \<and> set (ce_idle p1) \<subseteq> set (ce_idle p) \<and> ce_made p \<le> ce_made p1
      \<and> (\<forall>j. j \<noteq> i \<longrightarrow> (j < ce_made p1 \<longleftrightarrow> j < ce_made p)) \<and> (i < ce_made p \<longrightarrow> dirty (ce_cells p i))"
    using get
  proof (cases rule: pool_get_cases)
    case (pooled xs ys)
    then show ?thesis
      using inv by (auto simp: ce_inv_def)
  next
    case made
    then show ?thesis
      using inv by (auto simp: ce_inv_def)
  qed
  have dirty: "\<not> dirty (ce_cells p1 i)" "j \<noteq> i \<Longrightarrow> ce_cells p1 j = ce_cells p j" for j
    using pool_get_fresh [OF get] by (simp_all add: getCheckedEntry_def)
  have "count_list (tr @ [Got i]) (Wrote j) + of_bool (j < ce_made p1 \<and> \<not> dirty (ce_cells p1 j)) \<le> count_list (tr @ [Got i]) (Got j)" for j
  proof (cases "j = i")
    case True
    then have "count_list tr (Wrote j) \<le> count_list tr (Got j)"
      using inv unfolding ce_inv_def by (metis add_leD1)
    then show ?thesis
      using True by simp
  next
    case False
    then have "count_list tr (Wrote j) + of_bool (j < ce_made p1 \<and> \<not> dirty (ce_cells p1 j)) \<le> count_list tr (Got j)"
      using inv idle dirty(2) [of j] unfolding ce_inv_def by simp
    then show ?thesis
      using False by simp
  qed
  moreover have "j < ce_made p1 \<and> dirty (ce_cells p1 j)" if "j \<in> set (ce_idle p1)" for j
    using that inv idle dirty(2) [of j] unfolding ce_inv_def by (metis in_mono order_less_le_trans)
  ultimately show ?thesis
    using idle unfolding ce_inv_def by blast
qed

lemma ce_inv_write:
  assumes inv: "ce_inv tr p" and i: "i < ce_made p" and wrote: "pool_Write app F E (Some i) fs p w = ((r, p1), w1)"
  shows "ce_inv (tr @ (if dirty (ce_cells p i) then [] else [Wrote i])) p1"
proof -
  obtain ce1 where ce1: "CheckedEntry_Write app F E (ce_cells p i) fs w = ((r, ce1), w1)"
      and p1: "p1 = (if \<not> dirty (ce_cells p i) \<and> r = Ret () then putCheckedEntry (Some i) (ce_set i (\<lambda>_. ce1) p) else ce_set i (\<lambda>_. ce1) p)"
    using wrote by (auto simp: pool_Write_def Let_def split: prod.splits)
  show ?thesis
  proof (cases "dirty (ce_cells p i)")
    case True
    then have "p1 = p"
      using p1 Write_dirty [OF ce1] by (simp add: ce_set_def)
    then show ?thesis
      using True inv by simp
  next
    case False
    have cells: "ce_cells p1 = (ce_cells p)(i := ce1)" "ce_made p1 = ce_made p" "ce_idle p1 = ce_idle p \<or> ce_idle p1 = i # ce_idle p"
      using p1 by (auto simp: ce_set_def putCheckedEntry_def cePool_Put_def)
    have "i \<notin> set (ce_idle p)"
      using False inv by (auto simp: ce_inv_def)
    then have "distinct (ce_idle p1)" "\<forall>j \<in> set (ce_idle p1). j < ce_made p1 \<and> dirty (ce_cells p1 j)"
      using cells inv i Write_dirty [OF ce1] by (auto simp: ce_inv_def)
    moreover have "count_list (tr @ [Wrote i]) (Wrote j) + of_bool (j < ce_made p1 \<and> \<not> dirty (ce_cells p1 j))
        \<le> count_list (tr @ [Wrote i]) (Got j)" for j
    proof -
      have "count_list tr (Wrote j) + of_bool (j < ce_made p \<and> \<not> dirty (ce_cells p j)) \<le> count_list tr (Got j)"
        using inv unfolding ce_inv_def by blast
      then show ?thesis
        using False i cells(1,2) Write_dirty [OF ce1] by (cases "j = i") simp_all
    qed
    ultimately show ?thesis
      using False by (simp add: ce_inv_def)
  qed
qed

lemma ce_reach_inv: "ce_reach app F E tr p w \<Longrightarrow> ce_inv tr p"
proof (induction rule: ce_reach.induct)
  case (cr_get tr p w zero choice i p1)
  then show ?case using ce_inv_get by blast
next
  case (cr_change tr p w i u)
  then have "dirty (ce_cells (ce_set i u p) j) = dirty (ce_cells p j)" "ce_idle (ce_set i u p) = ce_idle p"
      "ce_made (ce_set i u p) = ce_made p" for j
    by (simp_all add: ce_set_def)
  then show ?case using cr_change(3,4) by (simp add: ce_inv_def)
next
  case (cr_write tr p w i fs r p1 w1)
  then show ?case using ce_inv_write by blast
qed (simp_all add: ce_inv_def)

text \<open>The operations of callers keep to these rules: \<^verbatim>\<open>AddCore\<close> on nil, for example, is a get and a change.\<close>

lemma pool_AddCore_reach:
  assumes "ce_reach app F E tr p w" and "pool_AddCore zero choice ent core ce p = (i, p1)" and "\<And>j. ce = Some j \<Longrightarrow> j < ce_made p"
  shows "ce_reach app F E (tr @ (if ce = None then [Got i] else [])) p1 w"
proof (cases ce)
  case None
  obtain p2 where get: "pool_getCheckedEntry zero choice p = (i, p2)"
      and p1: "p1 = ce_set i (\<lambda>c. c\<lparr>cores := cores c @ [core]\<rparr>) (ce_set i (\<lambda>c. c\<lparr>ce_Entry := ent\<rparr>) p2)"
    using assms(2) None by (auto simp: pool_AddCore_def ptr_or_new_def split: prod.splits)
  have "i < ce_made p2"
    using get ce_reach_inv [OF assms(1)] by (cases rule: pool_get_cases) (auto simp: ce_inv_def)
  then have "ce_reach app F E (tr @ [Got i]) (ce_set i (\<lambda>c. c\<lparr>ce_Entry := ent\<rparr>) p2) w"
    using cr_get [OF assms(1) get] by (intro cr_change) simp_all
  then have "ce_reach app F E (tr @ [Got i]) p1 w"
    unfolding p1 by (rule cr_change) (use \<open>i < ce_made p2\<close> in \<open>simp_all add: ce_set_def\<close>)
  then show ?thesis
    using None by simp
next
  case (Some j)
  then show ?thesis
    using assms by (auto simp: pool_AddCore_def ptr_or_new_def intro!: cr_change)
qed

lemma pool_Write_dirty:
  "dirty (ce_cells p i) \<Longrightarrow> pool_Write app F E (Some i) fs p w = ((Ret (), p), misuse_report app F (ce_cells p i) w)"
  by (simp add: pool_Write_def CheckedEntry_Write_def misuse_report_def ce_set_def)

lemma pool_Write_clean:
  assumes "\<not> dirty (ce_cells p i)" and "pool_Write app F E (Some i) fs p w = ((r, p1), w1)"
  shows "ce_cells p1 = (ce_cells p)(i := (ce_cells p i)\<lparr>dirty := True\<rparr>)"
    and "ce_idle p1 = (if r = Ret () then i # ce_idle p else ce_idle p)"
  using assms
  by (auto simp: pool_Write_def CheckedEntry_Write_def ce_set_def putCheckedEntry_def cePool_Put_def Let_def split: prod.splits if_splits)

text \<open>The detection is no more than that: once the entry has been handed out again, a \<^verbatim>\<open>Write\<close> through an old pointer
  writes the entry of the new holder, unreported, and it is the new holder's own \<^verbatim>\<open>Write\<close> that is reported.\<close>

lemma stale_pointer_takes_new_entry:
  assumes "pool_getCheckedEntry zero choice p = (i, p1)" and "pool_Write app F E (Some i) fs p1 w = ((r, p2), w1)"
  shows "pool_Write app F E (Some i) gs p2 w1 = ((Ret (), p2), misuse_report app F (ce_cells p2 i) w1)"
proof -
  have "\<not> dirty (ce_cells p1 i)"
    using pool_get_fresh(1) [OF assms(1)] by (simp add: getCheckedEntry_def)
  then have "dirty (ce_cells p2 i)"
    using pool_Write_clean(1) [OF _ assms(2)] by simp
  then show ?thesis
    by (rule pool_Write_dirty)
qed

text \<open>C31. The pool under any use, entries used after their \<^verbatim>\<open>Write\<close> and written twice included: the pool never holds an
  entry twice; an entry is written to its cores at most once for each time that it was handed out; a \<^verbatim>\<open>Write\<close> through
  a pointer to an entry that was written and not handed out again reaches no core, runs no hook, leaves the pool as it is and only
  reports the misuse to the error output of the entry, if it has one; a first \<^verbatim>\<open>Write\<close> marks the entry and puts it
  back if it returns, but not if the action after it panics or ends the goroutine; what the pool hands out is
  blank, is no longer in the pool, and no other entry changes.\<close>

theorem checked_entry_pool:
  assumes "ce_reach app F E tr p w"
  shows "distinct (ce_idle p)
    \<and> (\<forall>i. count_list tr (Wrote i) \<le> count_list tr (Got i))
    \<and> (\<forall>i fs. i \<in> set (ce_idle p) \<or> dirty (ce_cells p i)
        \<longrightarrow> pool_Write app F E (Some i) fs p w = ((Ret (), p), misuse_report app F (ce_cells p i) w))
    \<and> (\<forall>i fs r p1 w1. \<not> dirty (ce_cells p i) \<and> pool_Write app F E (Some i) fs p w = ((r, p1), w1)
        \<longrightarrow> ce_cells p1 = (ce_cells p)(i := (ce_cells p i)\<lparr>dirty := True\<rparr>)
          \<and> ce_idle p1 = (if r = Ret () then i # ce_idle p else ce_idle p))
    \<and> (\<forall>zero choice i p1. pool_getCheckedEntry zero choice p = (i, p1)
        \<longrightarrow> ce_cells p1 i = getCheckedEntry zero \<and> i \<notin> set (ce_idle p1) \<and> set (ce_idle p1) \<subseteq> set (ce_idle p)
          \<and> (\<forall>j. j \<noteq> i \<longrightarrow> ce_cells p1 j = ce_cells p j))"
proof -
  have inv: "ce_inv tr p"
    using ce_reach_inv [OF assms] .
  then have "distinct (ce_idle p)" "\<forall>i. count_list tr (Wrote i) \<le> count_list tr (Got i)" "\<forall>i \<in> set (ce_idle p). dirty (ce_cells p i)"
    unfolding ce_inv_def by (blast dest: add_leD1)+
  moreover have "set (ce_idle p1) \<subseteq> set (ce_idle p)" if "pool_getCheckedEntry zero choice p = (i, p1)" for zero choice i p1
    using that by (cases rule: pool_get_cases) auto
  ultimately show ?thesis
    using ce_inv_get [OF inv] pool_get_fresh
    by (intro conjI allI impI) (auto intro: pool_Write_dirty dest: pool_Write_clean)
qed

definition demo_pool :: "((unit, bytes) jsonEncoder, unit, bytes, bytes TestBuffer) ce_pool" where
  "demo_pool = \<lparr>ce_cells = (\<lambda>_. getCheckedEntry (demo_entry InfoLevel)), ce_idle = [], ce_made = 0\<rparr>"

text \<open>An entry is made, set up, and written twice by a caller who kept the pointer.\<close>

definition demo_setup :: "((unit, bytes) jsonEncoder, unit, bytes, bytes TestBuffer) CheckedEntry
      \<Rightarrow> ((unit, bytes) jsonEncoder, unit, bytes, bytes TestBuffer) CheckedEntry" where
  "demo_setup c = c\<lparr>cores := [RegisterHooks nopCore [demo_hook]], ErrorOutput := Some test_syncer\<rparr>"

lemmas demo_pool_defs = demo_pool_def demo_setup_def pool_getCheckedEntry_def cePool_Get_def ce_set_def CheckedEntry_reset_def
  getCheckedEntry_def pool_Write_def CheckedEntry_Write_def run_before_def RegisterHooks_def demo_hook_def demo_entry_def
  putCheckedEntry_def cePool_Put_def misuse_report_def report_def test_syncer_def TestBuffer_Write_def TestBuffer_Sync_def
  demo_world_def new_TestBuffer_def demo_fmt_def

theorem checked_entry_pool_witness:
  "\<exists>(p :: ((unit, bytes) jsonEncoder, unit, bytes, bytes TestBuffer) ce_pool) w.
      ce_reach join_errors demo_fmt (json_ops plain_std ()) [Got 0, Wrote 0] p w \<and> ce_idle p = [0]
    \<and> tb_writes (outside w) = [''hook of hi'']
    \<and> pool_Write join_errors demo_fmt (json_ops plain_std ()) (Some 0) [] p w
        = ((Ret (), p), misuse_report join_errors demo_fmt (ce_cells p 0) w)
    \<and> tb_writes (outside (misuse_report join_errors demo_fmt (ce_cells p 0) w))
        = [''hook of hi'', ''5 Unsafe CheckedEntry re-use near Entry hi.'' @ [newline]]"
proof -
  let ?E = "json_ops plain_std ()"
  let ?p1 = "snd (pool_getCheckedEntry (demo_entry InfoLevel) None demo_pool)"
  let ?p2 = "ce_set 0 demo_setup ?p1"
  let ?res = "pool_Write join_errors demo_fmt ?E (Some 0) [] ?p2 demo_world"
  let ?p = "snd (fst ?res)" and ?w = "snd ?res"
  have "ce_reach join_errors demo_fmt ?E [] demo_pool demo_world"
    by (rule cr_init) (simp_all add: demo_pool_def)
  then have "ce_reach join_errors demo_fmt ?E [Got 0] ?p1 demo_world"
    using cr_get [of join_errors demo_fmt ?E "[]" demo_pool demo_world "demo_entry InfoLevel" None 0 ?p1]
    by (simp add: pool_getCheckedEntry_def cePool_Get_def demo_pool_def)
  then have "ce_reach join_errors demo_fmt ?E [Got 0] ?p2 demo_world"
    by (rule cr_change) (simp_all add: demo_pool_defs)
  then have "ce_reach join_errors demo_fmt ?E ([Got 0] @ (if dirty (ce_cells ?p2 0) then [] else [Wrote 0])) ?p ?w"
    by (rule cr_write [where fs = "[]" and r = "fst (fst ?res)"])
      (simp_all add: pool_getCheckedEntry_def cePool_Get_def demo_pool_def ce_set_def)
  then have run: "ce_reach join_errors demo_fmt ?E [Got 0, Wrote 0] ?p ?w"
    by (simp add: demo_pool_defs)
  moreover have "ce_idle ?p = [0]" "tb_writes (outside ?w) = [''hook of hi'']"
      "tb_writes (outside (misuse_report join_errors demo_fmt (ce_cells ?p 0) ?w))
        = [''hook of hi'', ''5 Unsafe CheckedEntry re-use near Entry hi.'' @ [newline]]"
    by (simp_all add: demo_pool_defs Let_def itoa_def digits.simps digit_def char_of_def bit_0)
  moreover have "pool_Write join_errors demo_fmt ?E (Some 0) [] ?p ?w
      = ((Ret (), ?p), misuse_report join_errors demo_fmt (ce_cells ?p 0) ?w)"
    using checked_entry_pool [OF run, THEN conjunct2, THEN conjunct2, THEN conjunct1, rule_format, of 0 "[]"]
      \<open>ce_idle ?p = [0]\<close> by (simp only: list.set insert_iff simp_thms)
  ultimately show ?thesis
    by blast
qed

end
