(* ===== verification/Lazy_With.thy ===== *)
theory Lazy_With
  imports Logger
begin

text \<open>
  Lazy cores (\<^verbatim>\<open>src/zapcore/lazy_with.go\<close>) with their \<^verbatim>\<open>sync.Once\<close>, and loggers made by \<^verbatim>\<open>Logger.WithLazy\<close>
  (\<^verbatim>\<open>src/logger.go\<close>).  A field may refer to a value that the program goes on to change (\<^verbatim>\<open>zap.Any\<close> of a map,
  \<^verbatim>\<open>zap.Stringer\<close> of a pointer).  So the fields of a lazy core are here a function of the state: what encoding them
  would see if it happened in that state.  \<^verbatim>\<open>With\<close> encodes its fields in the state of the call; a lazy core in the
  state of the first call that uses it, and never again.

  Theory \<^verbatim>\<open>Core\<close> has lazy cores anywhere in the tree of cores, with fields that do not change; here there are chains of
  lazy cores on a core of that tree.
\<close>

section \<open>Lazy cores\<close>

text \<open>A lazy core is its original core, the number of its cell, and its fields.  The cell holds the \<^verbatim>\<open>sync.Once\<close> and the
  field \<^verbatim>\<open>core\<close>: \<open>None\<close> before the first call, then \<open>Some\<close> of the core, which stays nil if making it panicked.\<close>

datatype ('n, 'l, 'v, 's) lcore =
    Evaluated "('n, 'l, 'v, 's) core"
  | LazyWith "('n, 'l, 'v, 's) lcore" nat "'s \<Rightarrow> ('l, 'v) Field list"

type_synonym ('n, 'l, 'v, 's) lazy_world = "(nat \<Rightarrow> ('n, 'l, 'v, 's) core option option) \<times> ('l, 'v, 's) world"

text \<open>A call on a core that leaves the cells alone, and the call of a method through the field \<^verbatim>\<open>core\<close> of a lazy core.\<close>

definition on_world :: "(('l, 'v, 's) world \<Rightarrow> 'a outcome \<times> ('l, 'v, 's) world) \<Rightarrow> ('n, 'l, 'v, 's) lazy_world
      \<Rightarrow> 'a outcome \<times> ('n, 'l, 'v, 's) lazy_world" where
  "on_world f st = (case f (snd st) of (r, w) \<Rightarrow> (r, (fst st, w)))"

definition nil_dereference :: bytes where
  "nil_dereference = ''runtime error: invalid memory address or nil pointer dereference''"

definition through_core :: "nat \<Rightarrow> (('n, 'l, 'v, 's) core \<Rightarrow> ('n, 'l, 'v, 's) lazy_world \<Rightarrow> 'a outcome \<times> ('n, 'l, 'v, 's) lazy_world)
      \<Rightarrow> ('n, 'l, 'v, 's) lazy_world \<Rightarrow> 'a outcome \<times> ('n, 'l, 'v, 's) lazy_world" where
  "through_core i k st = (case fst st i of Some (Some d) \<Rightarrow> k d st | _ \<Rightarrow> (Panics nil_dereference, st))"

definition with_now :: "('n, 'l, 'v) Encoder \<Rightarrow> ('l, 'v) Field list \<Rightarrow> ('n, 'l, 'v, 's) core \<Rightarrow> ('n, 'l, 'v, 's) lazy_world
      \<Rightarrow> ('n, 'l, 'v, 's) core outcome \<times> ('n, 'l, 'v, 's) lazy_world" where
  "with_now E fs c st = (case Core_With E fs c of None \<Rightarrow> (MarshalerPanics, st) | Some d \<Rightarrow> (Ret d, st))"

definition set_core :: "nat \<Rightarrow> ('n, 'l, 'v, 's) core option \<Rightarrow> ('n, 'l, 'v, 's) lazy_world \<Rightarrow> ('n, 'l, 'v, 's) lazy_world" where
  "set_core i d st = ((fst st)(i := Some d), snd st)"

text \<open>A \<^verbatim>\<open>sync.Once\<close> counts as done when its function panics too.\<close>

definition once_done :: "nat \<Rightarrow> ('n, 'l, 'v, 's) core outcome \<times> ('n, 'l, 'v, 's) lazy_world
      \<Rightarrow> unit outcome \<times> ('n, 'l, 'v, 's) lazy_world" where
  "once_done i r =
     (case r of
        (Ret d, st) \<Rightarrow> (Ret (), set_core i (Some d) st)
      | (_, st) \<Rightarrow> then_do (fst r, set_core i None st) (\<lambda>_ st1. (Ret (), st1)))"

fun lc_With :: "('n, 'l, 'v) Encoder \<Rightarrow> ('l, 'v) Field list \<Rightarrow> ('n, 'l, 'v, 's) lcore \<Rightarrow> ('n, 'l, 'v, 's) lazy_world
      \<Rightarrow> ('n, 'l, 'v, 's) core outcome \<times> ('n, 'l, 'v, 's) lazy_world"
  and initOnce :: "('n, 'l, 'v) Encoder \<Rightarrow> ('n, 'l, 'v, 's) lcore \<Rightarrow> nat \<Rightarrow> ('s \<Rightarrow> ('l, 'v) Field list) \<Rightarrow> ('n, 'l, 'v, 's) lazy_world
      \<Rightarrow> unit outcome \<times> ('n, 'l, 'v, 's) lazy_world" where
  "lc_With E fs (Evaluated c) st = with_now E fs c st"
| "lc_With E fs (LazyWith lc i flds) st = then_do (initOnce E lc i flds st) (\<lambda>_. through_core i (with_now E fs))"
| "initOnce E lc i flds st =
     (if fst st i \<noteq> None then (Ret (), st) else once_done i (lc_With E (flds (outside (snd st))) lc st))"

fun lc_Enabled :: "('n, 'l, 'v, 's) lcore \<Rightarrow> Level \<Rightarrow> 's \<Rightarrow> bool" where
  "lc_Enabled (Evaluated c) lvl s = Core_Enabled c lvl s"
| "lc_Enabled (LazyWith lc i flds) lvl s = lc_Enabled lc lvl s"

fun lc_Check :: "('n, 'l, 'v) Encoder \<Rightarrow> ('n, 'l, 'v, 's) lcore \<Rightarrow> 'l Entry \<Rightarrow> ('n, 'l, 'v, 's) CheckedEntry option
      \<Rightarrow> ('n, 'l, 'v, 's) lazy_world \<Rightarrow> ('n, 'l, 'v, 's) CheckedEntry option outcome \<times> ('n, 'l, 'v, 's) lazy_world" where
  "lc_Check E (Evaluated c) ent ce st = on_world (Core_Check E c ent ce) st"
| "lc_Check E (LazyWith lc i flds) ent ce st =
     (if \<not> lc_Enabled lc (ent_Level ent) (outside (snd st)) then (Ret ce, st)
      else then_do (initOnce E lc i flds st) (\<lambda>_. through_core i (\<lambda>d. on_world (Core_Check E d ent ce))))"

fun lc_Write :: "(bytes option \<Rightarrow> bytes option \<Rightarrow> bytes option) \<Rightarrow> ('n, 'l, 'v) Encoder \<Rightarrow> ('n, 'l, 'v, 's) lcore \<Rightarrow> 'l Entry
      \<Rightarrow> ('l, 'v) Field list \<Rightarrow> ('n, 'l, 'v, 's) lazy_world \<Rightarrow> bytes option outcome \<times> ('n, 'l, 'v, 's) lazy_world" where
  "lc_Write app E (Evaluated c) ent fs st = on_world (Core_Write app E c ent fs) st"
| "lc_Write app E (LazyWith lc i flds) ent fs st =
     then_do (initOnce E lc i flds st) (\<lambda>_. through_core i (\<lambda>d. on_world (Core_Write app E d ent fs)))"

fun lc_Sync :: "(bytes option \<Rightarrow> bytes option \<Rightarrow> bytes option) \<Rightarrow> ('n, 'l, 'v) Encoder \<Rightarrow> ('n, 'l, 'v, 's) lcore
      \<Rightarrow> ('n, 'l, 'v, 's) lazy_world \<Rightarrow> bytes option outcome \<times> ('n, 'l, 'v, 's) lazy_world" where
  "lc_Sync app E (Evaluated c) st = on_world (Core_Sync app E c) st"
| "lc_Sync app E (LazyWith lc i flds) st =
     then_do (initOnce E lc i flds st) (\<lambda>_. through_core i (\<lambda>d. on_world (Core_Sync app E d)))"

text \<open>\<^verbatim>\<open>NewLazyWith\<close> allocates a new cell.\<close>

definition new_lazy_with :: "nat \<Rightarrow> ('s \<Rightarrow> ('l, 'v) Field list) \<Rightarrow> ('n, 'l, 'v, 's) lcore \<Rightarrow> ('n, 'l, 'v, 's) lazy_world
      \<Rightarrow> ('n, 'l, 'v, 's) lcore \<times> ('n, 'l, 'v, 's) lazy_world" where
  "new_lazy_with i flds lc st = (LazyWith lc i flds, ((fst st)(i := None), snd st))"

section \<open>Logging through a lazy core\<close>

text \<open>\<^verbatim>\<open>Logger.check\<close>, \<^verbatim>\<open>Log\<close> and \<^verbatim>\<open>Sync\<close> on a logger with the core \<open>lc\<close>; \<open>log\<close> is the rest of the logger.  The checked entry
  holds cores of the tree only, since a lazy core adds the core that it has made.\<close>

definition lazy_check :: "('n, 'l, 'v) env \<Rightarrow> ('n, 'l, 'v, 's) Logger \<Rightarrow> ('n, 'l, 'v, 's) lcore \<Rightarrow> Level \<Rightarrow> bytes
      \<Rightarrow> ('n, 'l, 'v, 's) lazy_world \<Rightarrow> ('n, 'l, 'v, 's) CheckedEntry option outcome \<times> ('n, 'l, 'v, 's) lazy_world" where
  "lazy_check env log lc lvl msg st =
     (if sint lvl < sint DPanicLevel \<and> \<not> lc_Enabled lc lvl (outside (snd st)) then (Ret None, st)
      else
        let ent = new_entry log lvl msg (outside (snd st)) in
        then_do (lc_Check (ops env) lc ent None st)
          (\<lambda>ce. on_world (\<lambda>w1. case (ce, set_terminal log ent ce) of
             (Some _, Some ce2) \<Rightarrow> annotate_entry env log ent ce2 w1
           | (_, ce2) \<Rightarrow> (Ret ce2, w1))))"

definition lazy_Log :: "('n, 'l, 'v) env \<Rightarrow> ('n, 'l, 'v, 's) Logger \<Rightarrow> ('n, 'l, 'v, 's) lcore \<Rightarrow> Level \<Rightarrow> bytes
      \<Rightarrow> ('l, 'v) Field list \<Rightarrow> ('n, 'l, 'v, 's) lazy_world \<Rightarrow> unit outcome \<times> ('n, 'l, 'v, 's) lazy_world" where
  "lazy_Log env log lc lvl msg fs st =
     then_do (lazy_check env log lc lvl msg st)
       (\<lambda>ce. on_world (\<lambda>w1. case ce of
          None \<Rightarrow> (Ret (), w1)
        | Some ce \<Rightarrow>
            (case CheckedEntry_Write (multierr env) (fmt env) (ops env) ce fs w1 of ((r, _), w2) \<Rightarrow> (r, w2))))"

definition lazy_Sync :: "('n, 'l, 'v) env \<Rightarrow> ('n, 'l, 'v, 's) lcore \<Rightarrow> ('n, 'l, 'v, 's) lazy_world
      \<Rightarrow> bytes option outcome \<times> ('n, 'l, 'v, 's) lazy_world" where
  "lazy_Sync env lc st = lc_Sync (multierr env) (ops env) lc st"

section \<open>The first use\<close>

fun lc_base :: "('n, 'l, 'v, 's) lcore \<Rightarrow> ('n, 'l, 'v, 's) core" where
  "lc_base (Evaluated c) = c"
| "lc_base (LazyWith lc i flds) = lc_base lc"

fun lc_cells :: "('n, 'l, 'v, 's) lcore \<Rightarrow> nat list" where
  "lc_cells (Evaluated c) = []"
| "lc_cells (LazyWith lc i flds) = i # lc_cells lc"

text \<open>The fields of a chain of lazy cores as they are in a state, those given first in front.\<close>

fun lc_fields :: "('n, 'l, 'v, 's) lcore \<Rightarrow> 's \<Rightarrow> ('l, 'v) Field list list" where
  "lc_fields (Evaluated c) s = []"
| "lc_fields (LazyWith lc i flds) s = lc_fields lc s @ [flds s]"

lemma lc_Enabled_base: "lc_Enabled lc = Core_Enabled (lc_base lc)"
  by (induction lc) (auto intro!: ext)

text \<open>A chain that has not been used: its cells are its own and not done.\<close>

definition unused :: "('n, 'l, 'v, 's) lcore \<Rightarrow> ('n, 'l, 'v, 's) lazy_world \<Rightarrow> bool" where
  "unused lc st \<longleftrightarrow> distinct (lc_cells lc) \<and> list_all (\<lambda>i. fst st i = None) (lc_cells lc)"

text \<open>\<^verbatim>\<open>With\<close> on an unused chain encodes all its fields, in the present state and in their order.\<close>

lemma unused_With:
  assumes "unused lc st"
  shows "\<exists>cells. (\<forall>j. j \<notin> set (lc_cells lc) \<longrightarrow> cells j = fst st j) \<and>
    lc_With E fs lc st =
      (case Core_Withs E (lc_fields lc (outside (snd st)) @ [fs]) (lc_base lc) of
         None \<Rightarrow> (MarshalerPanics, (cells, snd st))
       | Some d \<Rightarrow> (Ret d, (cells, snd st)))"
  using assms
proof (induction lc arbitrary: fs)
  case (Evaluated c)
  then show ?case
    by (auto simp: with_now_def Core_With_def split: option.split intro!: exI [of _ "fst st"])
next
  case (LazyWith lc i flds)
  let ?s = "outside (snd st)"
  let ?fss = "lc_fields lc ?s @ [flds ?s]"
  have un: "unused lc st" "fst st i = None" "i \<notin> set (lc_cells lc)"
    using LazyWith.prems by (auto simp: unused_def)
  obtain cells where cells: "\<forall>j. j \<notin> set (lc_cells lc) \<longrightarrow> cells j = fst st j"
      "lc_With E (flds ?s) lc st = (case Core_Withs E ?fss (lc_base lc) of
         None \<Rightarrow> (MarshalerPanics, (cells, snd st)) | Some d \<Rightarrow> (Ret d, (cells, snd st)))"
    using LazyWith.IH [OF un(1)] by blast
  have "Core_Withs E (?fss @ [fs]) (lc_base lc) = Option.bind (Core_Withs E ?fss (lc_base lc)) (Core_Withs E [fs])"
    by (rule Core_Withs_append(1)) simp_all
  then show ?case
    using un cells
    by (intro exI [of _ "cells(i := Some (Core_Withs E ?fss (lc_base lc)))"])
      (auto simp: once_done_def set_core_def through_core_def with_now_def Core_With_def split: option.splits)
qed

text \<open>The first use of an unused lazy core makes its core from its fields as they are then.\<close>

lemma first_initOnce:
  assumes "unused (LazyWith lc i flds) st"
  obtains cells where
    "initOnce E lc i flds st =
      (case Core_Withs E (lc_fields (LazyWith lc i flds) (outside (snd st))) (lc_base lc) of
         None \<Rightarrow> (MarshalerPanics, (cells(i := Some None), snd st))
       | Some d \<Rightarrow> (Ret (), (cells(i := Some (Some d)), snd st)))"
proof -
  have "unused lc st" "fst st i = None"
    using assms by (auto simp: unused_def)
  then show thesis
    using unused_With [of lc st E "flds (outside (snd st))"] that
    by (fastforce simp: once_done_def set_core_def split: option.splits)
qed

lemma on_world_bind: "then_do (on_world f st) (\<lambda>x. on_world (g x)) = on_world (\<lambda>w. then_do (f w) g) st"
  by (cases "(f (snd st), g)" rule: then_do.cases) (auto simp: on_world_def)

text \<open>Logging through a lazy core that has made its core, one whose \<^verbatim>\<open>With\<close> panicked, and one that is not enabled.\<close>

lemma lazy_Log_as:
  assumes "lc_Check (ops env) lc (new_entry log lvl msg (outside (snd st))) None st
      = on_world (Core_Check (ops env) d (new_entry log lvl msg (outside (snd st))) None) st1"
    and "snd st1 = snd st" and "lc_Enabled lc lvl (outside (snd st)) = Core_Enabled d lvl (outside (snd st))"
    and "sint lvl < sint DPanicLevel \<Longrightarrow> \<not> Core_Enabled d lvl (outside (snd st)) \<Longrightarrow> st1 = st"
  shows "lazy_Log env log lc lvl msg fs st = on_world (Logger_Log env (log\<lparr>lg_core := d\<rparr>) lvl msg fs) st1"
proof -
  let ?s = "outside (snd st)" and ?log = "log\<lparr>lg_core := d\<rparr>"
  let ?ent = "new_entry log lvl msg ?s"
  let ?k = "\<lambda>ce w1. case (ce, set_terminal log ?ent ce) of
      (Some _, Some ce2) \<Rightarrow> annotate_entry env log ?ent ce2 w1 | (_, ce2) \<Rightarrow> (Ret ce2, w1)"
  have sel: "lg_core ?log = d"
    by simp
  have "lazy_check env log lc lvl msg st = on_world (Logger_check env ?log lvl msg) st1"
  proof (cases "sint lvl < sint DPanicLevel \<and> \<not> Core_Enabled d lvl ?s")
    case True
    then show ?thesis
      using assms(3,4) by (simp add: lazy_check_def Logger_check_def on_world_def)
  next
    case False
    then have "\<not> (sint lvl < sint DPanicLevel \<and> \<not> lc_Enabled lc lvl ?s)"
        "\<not> (sint lvl < sint DPanicLevel \<and> \<not> Core_Enabled (lg_core ?log) lvl ?s)"
      using assms(3) by simp_all
    then have "lazy_check env log lc lvl msg st = then_do (lc_Check (ops env) lc ?ent None st) (\<lambda>ce. on_world (?k ce))"
      and logger: "Logger_check env ?log lvl msg (snd st) = then_do (Core_Check (ops env) d ?ent None (snd st)) ?k"
      by (simp_all only: lazy_check_def Logger_check_def if_False Let_def lg_core_irrelevant sel)
    then have "lazy_check env log lc lvl msg st = on_world (\<lambda>w. then_do (Core_Check (ops env) d ?ent None w) ?k) st1"
      by (simp only: assms(1) on_world_bind)
    then show ?thesis
      using logger assms(2) by (simp only: on_world_def)
  qed
  then show ?thesis
    by (simp add: lazy_Log_def Logger_Log_def [abs_def] on_world_bind)
qed

lemma disabled_lazy_Log:
  assumes "\<not> lc_Enabled lc lvl (outside (snd st))"
  shows "lazy_Log env log lc lvl msg fs st = on_world (Logger_Log env (log\<lparr>lg_core := lc_base lc\<rparr>) lvl msg fs) st"
proof (rule lazy_Log_as)
  let ?ent = "new_entry log lvl msg (outside (snd st))"
  have "\<not> Core_Enabled (lc_base lc) (ent_Level ?ent) (outside (snd st))"
    using assms by (simp add: lc_Enabled_base new_entry_def)
  then show "lc_Check (ops env) lc ?ent None st = on_world (Core_Check (ops env) (lc_base lc) ?ent None) st"
    by (cases lc) (simp_all add: disabled_check on_world_def lc_Enabled_base)
qed (simp_all add: lc_Enabled_base)

lemma made_lazy_Log:
  assumes "fst st i = Some (Some d)" and "\<And>l s. Core_Enabled d l s = lc_Enabled lc l s"
  shows "lazy_Log env log (LazyWith lc i flds) lvl msg fs st = on_world (Logger_Log env (log\<lparr>lg_core := d\<rparr>) lvl msg fs) st"
proof (rule lazy_Log_as)
  let ?ent = "new_entry log lvl msg (outside (snd st))"
  show "lc_Check (ops env) (LazyWith lc i flds) ?ent None st = on_world (Core_Check (ops env) d ?ent None) st"
    using assms disabled_check(1) [of d ?ent "snd st" None "ops env"] by (auto simp: through_core_def on_world_def)
qed (simp_all add: assms)

lemma broken_lazy_Log:
  assumes "fst st i = Some None" and "lc_Enabled lc lvl (outside (snd st))"
  shows "lazy_Log env log (LazyWith lc i flds) lvl msg fs st = (Panics nil_dereference, st)"
  using assms by (simp add: lazy_Log_def lazy_check_def new_entry_def through_core_def Let_def)

section \<open>Runs\<close>

text \<open>What happens to a logger: it is logged to, it is synced, or other code runs, which may change what the fields refer
  to.  A panic in one event does not stop the next: it may have been recovered, or the next be in another goroutine.\<close>

datatype ('l, 'v, 's) lz_event = LzLog Level bytes "('l, 'v) Field list" | LzSync | LzOther "'s \<Rightarrow> 's"

datatype lazy_result = Logged "unit outcome" | Synced "bytes option outcome" | Elsewhere

fun plain_event :: "('n, 'l, 'v) env \<Rightarrow> ('n, 'l, 'v, 's) Logger \<Rightarrow> ('l, 'v, 's) lz_event \<Rightarrow> ('l, 'v, 's) world
      \<Rightarrow> lazy_result \<times> ('l, 'v, 's) world" where
  "plain_event env log (LzLog lvl msg fs) w = apfst Logged (Logger_Log env log lvl msg fs w)"
| "plain_event env log LzSync w = apfst Synced (Logger_Sync env log w)"
| "plain_event env log (LzOther f) w = (Elsewhere, w\<lparr>outside := f (outside w)\<rparr>)"

fun lazy_event :: "('n, 'l, 'v) env \<Rightarrow> ('n, 'l, 'v, 's) Logger \<Rightarrow> ('n, 'l, 'v, 's) lcore \<Rightarrow> ('l, 'v, 's) lz_event
      \<Rightarrow> ('n, 'l, 'v, 's) lazy_world \<Rightarrow> lazy_result \<times> ('n, 'l, 'v, 's) lazy_world" where
  "lazy_event env log lc (LzLog lvl msg fs) st = apfst Logged (lazy_Log env log lc lvl msg fs st)"
| "lazy_event env log lc LzSync st = apfst Synced (lazy_Sync env lc st)"
| "lazy_event env log lc (LzOther f) st = (Elsewhere, (fst st, (snd st)\<lparr>outside := f (outside (snd st))\<rparr>))"

fun run_events :: "('e \<Rightarrow> 'w \<Rightarrow> 'r \<times> 'w) \<Rightarrow> 'e list \<Rightarrow> 'w \<Rightarrow> 'r list \<times> 'w" where
  "run_events step [] w = ([], w)"
| "run_events step (ev # evs) w = (case step ev w of (r, w1) \<Rightarrow> apfst ((#) r) (run_events step evs w1))"

text \<open>The specification.  A logger with core \<open>c\<close> is not used by an event at a level that is not enabled.\<close>

fun uses :: "('n, 'l, 'v, 's) core \<Rightarrow> ('l, 'v, 's) lz_event \<Rightarrow> 's \<Rightarrow> bool" where
  "uses c (LzLog lvl msg fs) s = Core_Enabled c lvl s"
| "uses c LzSync s = True"
| "uses c (LzOther f) s = False"

definition ended :: "unit outcome \<Rightarrow> bytes option outcome \<Rightarrow> ('l, 'v, 's) lz_event \<Rightarrow> lazy_result" where
  "ended r r' ev = (case ev of LzSync \<Rightarrow> Synced r' | _ \<Rightarrow> Logged r)"

text \<open>After a panic in the encoding of the fields every use ends in a nil dereference.\<close>

definition broken_event :: "('n, 'l, 'v) env \<Rightarrow> ('n, 'l, 'v, 's) Logger \<Rightarrow> ('l, 'v, 's) lz_event \<Rightarrow> ('l, 'v, 's) world
      \<Rightarrow> lazy_result \<times> ('l, 'v, 's) world" where
  "broken_event env log ev w =
     (if uses (lg_core log) ev (outside w) then (ended (Panics nil_dereference) (Panics nil_dereference) ev, w)
      else plain_event env log ev w)"

text \<open>Up to the first use the logger is its parent; at the first use \<^verbatim>\<open>With\<close> is called with the fields as they are at
  that moment, and from then on the logger is the one that this has made.\<close>

fun with_at_first_use :: "('n, 'l, 'v) env \<Rightarrow> ('n, 'l, 'v, 's) Logger \<Rightarrow> ('s \<Rightarrow> ('l, 'v) Field list list)
      \<Rightarrow> ('l, 'v, 's) lz_event list \<Rightarrow> ('l, 'v, 's) world \<Rightarrow> lazy_result list \<times> ('l, 'v, 's) world" where
  "with_at_first_use env log flds [] w = ([], w)"
| "with_at_first_use env log flds (ev # evs) w =
     (if uses (lg_core log) ev (outside w) then
        (case Core_Withs (ops env) (flds (outside w)) (lg_core log) of
           Some c \<Rightarrow> run_events (plain_event env (log\<lparr>lg_core := c\<rparr>)) (ev # evs) w
         | None \<Rightarrow> apfst ((#) (ended MarshalerPanics MarshalerPanics ev)) (run_events (broken_event env log) evs w))
      else
        (case plain_event env log ev w of
           (r, w1) \<Rightarrow> apfst ((#) r) (with_at_first_use env log flds evs w1)))"

text \<open>A step that agrees with a step on worlds agrees with it in a run.\<close>

definition lifted :: "('e \<Rightarrow> ('l, 'v, 's) world \<Rightarrow> 'r \<times> ('l, 'v, 's) world) \<Rightarrow> 'e \<Rightarrow> ('n, 'l, 'v, 's) lazy_world \<Rightarrow> 'r \<times> ('n, 'l, 'v, 's) lazy_world" where
  "lifted step ev st = (case step ev (snd st) of (r, w) \<Rightarrow> (r, (fst st, w)))"

lemma run_lifted:
  assumes "\<And>ev st. fst st i = x \<Longrightarrow> step ev st = lifted step' ev st"
  shows "fst st i = x \<Longrightarrow> apsnd snd (run_events step evs st) = run_events step' evs (snd st)"
  by (induction evs arbitrary: st) (auto simp: assms lifted_def apsnd_apfst_commute simp del: apsnd_apfst split: prod.splits)

lemma lifted_plain:
  "lazy_Log env log lc lvl msg fs st = on_world (Logger_Log env (log\<lparr>lg_core := d\<rparr>) lvl msg fs) st1
    \<Longrightarrow> lazy_event env log lc (LzLog lvl msg fs) st = lifted (plain_event env (log\<lparr>lg_core := d\<rparr>)) (LzLog lvl msg fs) st1"
  by (simp add: lifted_def on_world_def split: prod.split)

lemma made_lazy_event:
  assumes "fst st i = Some (Some d)" and "\<And>l s. Core_Enabled d l s = lc_Enabled lc l s"
  shows "lazy_event env log (LazyWith lc i flds) ev st = lifted (plain_event env (log\<lparr>lg_core := d\<rparr>)) ev st"
proof (cases ev)
  case (LzLog lvl msg fs)
  then show ?thesis
    using lifted_plain [OF made_lazy_Log [OF assms]] by simp
qed (use assms in \<open>simp_all add: lazy_Sync_def Logger_Sync_def through_core_def on_world_def lifted_def split: prod.split\<close>)

lemma broken_lazy_event:
  assumes "fst st i = Some None"
  shows "lazy_event env log (LazyWith lc i flds) ev st = lifted (broken_event env (log\<lparr>lg_core := lc_base lc\<rparr>)) ev st"
proof (cases ev)
  case (LzLog lvl msg fs)
  then show ?thesis
    using broken_lazy_Log [OF assms, of lc lvl env log flds msg fs]
      lifted_plain [OF disabled_lazy_Log, of "LazyWith lc i flds" lvl st env log msg fs]
    by (auto simp: broken_event_def lifted_def ended_def lc_Enabled_base)
qed (use assms in \<open>simp_all add: lazy_Sync_def through_core_def broken_event_def ended_def lifted_def\<close>)

lemma unused_lazy_event:
  assumes "\<not> uses (lc_base lc) ev (outside (snd st))"
  shows "lazy_event env log lc ev st = lifted (plain_event env (log\<lparr>lg_core := lc_base lc\<rparr>)) ev st"
proof (cases ev)
  case (LzLog lvl msg fs)
  then show ?thesis
    using assms lifted_plain [OF disabled_lazy_Log, of lc lvl st env log msg fs] by (simp add: lc_Enabled_base)
qed (use assms in \<open>simp_all add: lifted_def\<close>)

text \<open>The first use.\<close>

lemma first_lazy_event:
  assumes "unused (LazyWith lc i flds) st" and "uses (lc_base lc) ev (outside (snd st))"
    and "Core_Withs (ops env) (lc_fields (LazyWith lc i flds) (outside (snd st))) (lc_base lc) = Some d"
  obtains cells where "cells i = Some (Some d)"
    and "lazy_event env log (LazyWith lc i flds) ev st = lifted (plain_event env (log\<lparr>lg_core := d\<rparr>)) ev (cells, snd st)"
proof -
  obtain cells where init: "initOnce (ops env) lc i flds st = (Ret (), (cells(i := Some (Some d)), snd st))"
    using first_initOnce [OF assms(1), of "ops env"] assms(3) by auto
  have en: "Core_Enabled d l s = lc_Enabled lc l s" for l s
    using Core_Withs_Enabled(1) [OF assms(3)] by (simp add: lc_Enabled_base)
  show thesis
  proof (rule that [of "cells(i := Some (Some d))"])
    show "lazy_event env log (LazyWith lc i flds) ev st
        = lifted (plain_event env (log\<lparr>lg_core := d\<rparr>)) ev (cells(i := Some (Some d)), snd st)"
    proof (cases ev)
      case (LzLog lvl msg fs)
      have "lazy_Log env log (LazyWith lc i flds) lvl msg fs st
          = on_world (Logger_Log env (log\<lparr>lg_core := d\<rparr>) lvl msg fs) (cells(i := Some (Some d)), snd st)"
        by (rule lazy_Log_as)
          (use assms(2) LzLog init en in \<open>simp_all add: lc_Enabled_base new_entry_def through_core_def del: initOnce.simps\<close>)
      then show ?thesis
        using LzLog lifted_plain by blast
    qed (use assms(2) init in \<open>simp_all add: lazy_Sync_def Logger_Sync_def through_core_def on_world_def lifted_def
          del: initOnce.simps split: prod.split\<close>)
  qed simp
qed

lemma first_lazy_event_panics:
  assumes "unused (LazyWith lc i flds) st" and "uses (lc_base lc) ev (outside (snd st))"
    and "Core_Withs (ops env) (lc_fields (LazyWith lc i flds) (outside (snd st))) (lc_base lc) = None"
  obtains cells where "cells i = Some None"
    and "lazy_event env log (LazyWith lc i flds) ev st = (ended MarshalerPanics MarshalerPanics ev, (cells, snd st))"
proof -
  obtain cells where init: "initOnce (ops env) lc i flds st = (MarshalerPanics, (cells(i := Some None), snd st))"
    using first_initOnce [OF assms(1), of "ops env"] assms(3) by auto
  then have "lazy_event env log (LazyWith lc i flds) ev st = (ended MarshalerPanics MarshalerPanics ev, (cells(i := Some None), snd st))"
    using assms(2)
    by (cases ev) (simp_all add: lazy_Log_def lazy_check_def lazy_Sync_def ended_def lc_Enabled_base new_entry_def Let_def del: initOnce.simps)
  then show thesis
    by (intro that [of "cells(i := Some None)"]) simp_all
qed

text \<open>C15. A child made by \<^verbatim>\<open>WithLazy\<close> is, over any run of logging, syncing and other code that may change the values
  its fields refer to, the child that \<^verbatim>\<open>With\<close> would have made at the moment of its first use: its first \<^verbatim>\<open>Sync\<close> or its first entry at an
  enabled level.  Before that it does what its parent does, after that later changes of the values do not show.  If a
  marshaler panics at the first use, all later uses end in a nil dereference.  With several \<^verbatim>\<open>WithLazy\<close> in a row
  the fields of all are read at the first use, in their order.\<close>

theorem lazy_child_reads_fields_at_first_use:
  assumes "unused (LazyWith lc i flds) st"
  shows "apsnd snd (run_events (lazy_event env log (LazyWith lc i flds)) evs st)
    = with_at_first_use env (log\<lparr>lg_core := lc_base lc\<rparr>) (lc_fields (LazyWith lc i flds)) evs (snd st)"
  using assms
proof (induction evs arbitrary: st)
  case (Cons ev evs)
  let ?fss = "lc_fields (LazyWith lc i flds) (outside (snd st))"
  show ?case
  proof (cases "uses (lc_base lc) ev (outside (snd st))")
    case False
    obtain r w where r: "plain_event env (log\<lparr>lg_core := lc_base lc\<rparr>) ev (snd st) = (r, w)"
      by fastforce
    have "lazy_event env log (LazyWith lc i flds) ev st = (r, (fst st, w))"
      using unused_lazy_event [of "LazyWith lc i flds" ev st env log] False r by (simp add: lifted_def)
    moreover have "unused (LazyWith lc i flds) (fst st, w)"
      using Cons.prems by (simp add: unused_def)
    ultimately show ?thesis
      using Cons.IH [of "(fst st, w)"] False r by (simp add: apsnd_apfst_commute del: apsnd_apfst)
  next
    case True
    show ?thesis
    proof (cases "Core_Withs (ops env) ?fss (lc_base lc)")
      case None
      obtain cells where cells: "cells i = Some None"
          "lazy_event env log (LazyWith lc i flds) ev st = (ended MarshalerPanics MarshalerPanics ev, (cells, snd st))"
        using first_lazy_event_panics [OF Cons.prems True None] .
      have "lazy_event env log (LazyWith lc i flds) ev' st' = lifted (broken_event env (log\<lparr>lg_core := lc_base lc\<rparr>)) ev' st'"
        if "fst st' i = Some None" for ev' st'
        using broken_lazy_event [OF that] .
      from run_lifted [where evs = evs and st = "(cells, snd st)", OF this] cells show ?thesis
        using True None by (simp add: apsnd_apfst_commute del: apsnd_apfst)
    next
      case (Some d)
      have en: "Core_Enabled d l s = lc_Enabled lc l s" for l s
        using Core_Withs_Enabled(1) [OF Some] by (simp add: lc_Enabled_base)
      obtain cells where cells: "cells i = Some (Some d)"
          "lazy_event env log (LazyWith lc i flds) ev st = lifted (plain_event env (log\<lparr>lg_core := d\<rparr>)) ev (cells, snd st)"
        using first_lazy_event [OF Cons.prems True Some] .
      have "lazy_event env log (LazyWith lc i flds) ev' st' = lifted (plain_event env (log\<lparr>lg_core := d\<rparr>)) ev' st'"
        if "fst st' i = Some (Some d)" for ev' st'
        using made_lazy_event [OF that en] .
      from run_lifted [where evs = "ev # evs" and st = "(cells, snd st)", OF this] cells show ?thesis
        using True Some by (simp add: made_lazy_event [OF _ en])
    qed
  qed
qed simp

theorem lazy_child_reads_fields_at_first_use_witness:
  "\<exists>log'. Logger_With demo_env [Bool_field ''a'' True] demo_logger = Some log'
    \<and> apsnd snd (run_events (lazy_event demo_env demo_logger
          (LazyWith (Evaluated (lg_core demo_logger)) 0 (\<lambda>s. [Bool_field ''a'' (sy_called s)])))
        [LzOther (\<lambda>s. s\<lparr>sy_called := True\<rparr>), LzLog InfoLevel ''m'' [], LzOther (\<lambda>s. s\<lparr>sy_called := False\<rparr>), LzLog InfoLevel ''n'' []]
        (\<lambda>_. None, demo_world))
      = apfst ((#) Elsewhere) (run_events (plain_event demo_env log')
          [LzLog InfoLevel ''m'' [], LzOther (\<lambda>s. s\<lparr>sy_called := False\<rparr>), LzLog InfoLevel ''n'' []]
          (demo_world\<lparr>outside := (outside demo_world)\<lparr>sy_called := True\<rparr>\<rparr>))"
proof -
  obtain log' where log': "Logger_With demo_env [Bool_field ''a'' True] demo_logger = Some log'"
    using demo_with by blast
  then obtain c where c: "Core_Withs (ops demo_env) [[Bool_field ''a'' True]] (lg_core demo_logger) = Some c" "log' = demo_logger\<lparr>lg_core := c\<rparr>"
    by (auto simp: Logger_With_def Core_With_def)
  have "unused (LazyWith (Evaluated (lg_core demo_logger)) 0 (\<lambda>s. [Bool_field ''a'' (sy_called s)])) (\<lambda>_. None, demo_world)"
    by (simp add: unused_def)
  moreover have "Core_Enabled (lg_core demo_logger) InfoLevel s" for s
    by (simp add: demo_logger_def new_Logger_def NewTee_def demo_core_def NewCore_def level_enabler_def Level_Enabled_def level_simps)
  ultimately show ?thesis
    using log' c lazy_child_reads_fields_at_first_use [of "Evaluated (lg_core demo_logger)" 0 "\<lambda>s. [Bool_field ''a'' (sy_called s)]"
        "(\<lambda>_. None, demo_world)" demo_env demo_logger "[LzOther (\<lambda>s. s\<lparr>sy_called := True\<rparr>), LzLog InfoLevel ''m'' [],
          LzOther (\<lambda>s. s\<lparr>sy_called := False\<rparr>), LzLog InfoLevel ''n'' []]"]
    by (simp del: run_events.simps)
qed

section \<open>Fields that do not change\<close>

text \<open>With such fields, and unless their encoding has panicked, a lazy core does what the lazy core of the tree does.\<close>

definition once_ok :: "('n, 'l, 'v) Encoder \<Rightarrow> nat \<Rightarrow> ('l, 'v) Field list \<Rightarrow> ('n, 'l, 'v, 's) core \<Rightarrow> ('n, 'l, 'v, 's) lazy_world \<Rightarrow> bool" where
  "once_ok E i fs c st \<longleftrightarrow> fst st i = None \<or> (\<exists>d. fst st i = Some (Some d) \<and> Core_With E fs c = Some d)"

lemma lazy_tree:
  assumes "once_ok E i fs c st"
  shows "apsnd snd (lc_Check E (LazyWith (Evaluated c) i (\<lambda>_. fs)) ent ce st) = Core_Check E (lazyWithCore c fs) ent ce (snd st)"
    and "apsnd snd (lc_Write app E (LazyWith (Evaluated c) i (\<lambda>_. fs)) ent gs st) = Core_Write app E (lazyWithCore c fs) ent gs (snd st)"
    and "apsnd snd (lc_Sync app E (LazyWith (Evaluated c) i (\<lambda>_. fs)) st) = Core_Sync app E (lazyWithCore c fs) (snd st)"
  using assms
  by (auto simp: once_ok_def with_now_def once_done_def set_core_def through_core_def on_world_def split: option.splits prod.splits)

end
