(* ===== verification/Spec2Isabelle.thy ===== *)
theory Spec2Isabelle
  imports Flush_Loop Field_Laws Sugar Zapio_Writer Console_Encoder Http_Handler Globals Zapgrpc Zapslog Support Readme
    Entry_Pool Lazy_With
begin

text \<open>
  A verification of the logging library zap, the Go module whose sources are under \<^verbatim>\<open>src/\<close>.

  \<^bold>\<open>The program.\<close>  A logging call goes through four layers.  A front end (\<^verbatim>\<open>Logger\<close>, \<^verbatim>\<open>SugaredLogger\<close>, the
  adapters for package log, slog, gRPC and \<^verbatim>\<open>io.Writer\<close>) makes an entry with fields.  A tree of cores decides
  whether the entry is logged (levels, sampling) and which cores write it.  A core that writes encodes the
  entry and its fields as JSON or as a console line, or keeps them in memory.  A write syncer takes the bytes
  to a sink, possibly buffered, shared by several loggers, and flushed by a goroutine of its own.  A
  configuration builds such a stack, with sinks opened from URLs.

  \<^bold>\<open>Conventions.\<close>  A struct is a record, an enumeration or an interface with known implementations a datatype, a
  fixed-width integer a word, a string or a slice of bytes a list of characters, a floating-point number its
  bits.  What is outside of the program is a state \<open>'s\<close> on which writers and hooks act; the world of a logger
  adds the counters of samplers and the logs of observers, which are shared through pointers.  An error is an
  \<open>option\<close> (its text) or the left side of a sum.  A call of a logger ends in an \<open>outcome\<close>: it returns, a
  marshaler panics, it panics with a message, ends its goroutine, exits the process, or does not return; in
  smaller parts a panic is \<open>None\<close>.  Functions of other packages and of the parts of the standard library that
  are not defined here (formatting of times and floats, \<^verbatim>\<open>fmt\<close>, \<^verbatim>\<open>net/url\<close>, \<^verbatim>\<open>reflect\<close>, \<^verbatim>\<open>multierr\<close>) are
  parameters; what a theorem needs of them is a named hypothesis and holds for the concrete functions of the
  witness of that theorem.

  \<^bold>\<open>The theories.\<close>

  \<^item> \<^verbatim>\<open>Zap_Prelude\<close>: bytes, decimal numbers, lower case, the contract of \<^verbatim>\<open>multierr.Append\<close>, collections of facts.

  \<^item> \<^verbatim>\<open>Buffer\<close> (\<^verbatim>\<open>buffer/\<close>, \<^verbatim>\<open>internal/pool\<close>, \<^verbatim>\<open>internal/bufferpool\<close>): the byte buffer, and the pool with an
    explicit store.  A buffer handed out by the pool is shared with no other holder, if each holder frees it
    once.

  \<^item> \<^verbatim>\<open>Level\<close> (\<^verbatim>\<open>zapcore/level.go\<close>, \<^verbatim>\<open>level.go\<close>, \<^verbatim>\<open>internal/color\<close>) and \<^verbatim>\<open>Http_Handler\<close> (\<^verbatim>\<open>http_handler.go\<close>): levels,
    their texts, \<^verbatim>\<open>AtomicLevel\<close> and the endpoint that changes it.  Texts are read back; a PUT followed by a GET
    reports the level that was put.

  \<^item> \<^verbatim>\<open>Write_Syncer\<close> (\<^verbatim>\<open>zapcore/write_syncer.go\<close>, the writers of \<^verbatim>\<open>internal/ztest\<close>): locked, wrapped and
    multiplied writers.  Writes of several goroutines through a lock do not interleave: the output is made of the
    messages passed, whole unless the wrapped writer failed, in the order of each goroutine.

  \<^item> \<^verbatim>\<open>Buffered_Write_Syncer\<close> and \<^verbatim>\<open>Flush_Loop\<close> (\<^verbatim>\<open>zapcore/buffered_write_syncer.go\<close>): first one caller over a model
    of \<^verbatim>\<open>bufio.Writer\<close>, refined from an abstract batcher; then any number of callers and the flush goroutine
    as a step relation.  Messages reach the sink whole and in order; the mutex is respected; every call can
    return, \<^verbatim>\<open>Stop\<close> included; after \<^verbatim>\<open>Stop\<close> everything is flushed.

  \<^item> \<^verbatim>\<open>Sinks\<close> and \<^verbatim>\<open>Config\<close> (\<^verbatim>\<open>sink.go\<close>, \<^verbatim>\<open>writer.go\<close>, \<^verbatim>\<open>encoder.go\<close>, \<^verbatim>\<open>config.go\<close>, the presets of
    \<^verbatim>\<open>logger.go\<close>): registries, \<^verbatim>\<open>Open\<close> and \<^verbatim>\<open>Build\<close>.  Registered factories are found, a failed \<^verbatim>\<open>Build\<close> leaks no
    handle, the order of a Go map has no influence, and a production logger writes the JSON line of an entry
    to standard error.

  \<^item> \<^verbatim>\<open>Marshal\<close>, \<^verbatim>\<open>Field\<close>, \<^verbatim>\<open>Field_Laws\<close> (\<^verbatim>\<open>zapcore/marshaler.go\<close>, \<^verbatim>\<open>zapcore/field.go\<close>, \<^verbatim>\<open>zapcore/error.go\<close>,
    \<^verbatim>\<open>field.go\<close>, \<^verbatim>\<open>array.go\<close>, \<^verbatim>\<open>error.go\<close>): a marshaler is the tree of the calls it makes, so that user-defined
    ones are covered and every encoder is an interpreter of the same trees.  A value packed into a field by
    \<^verbatim>\<open>Any\<close> reaches the encoder unchanged.

  \<^item> \<^verbatim>\<open>Encoder_Config\<close>, \<^verbatim>\<open>Json_String\<close>, \<^verbatim>\<open>Json_Encoder\<close>, \<^verbatim>\<open>Json_Correct\<close>, \<^verbatim>\<open>Json_Line\<close> (\<^verbatim>\<open>zapcore/encoder.go\<close>,
    \<^verbatim>\<open>zapcore/json_encoder.go\<close>): the escaper equals a byte-by-byte reference and is read back; what the encoder
    appends, looking at the last byte to place separators, is the printed form of the JSON value that the
    marshaler denotes; a line is one object.

  \<^item> \<^verbatim>\<open>Memory_Encoder\<close> and \<^verbatim>\<open>Console_Encoder\<close> (\<^verbatim>\<open>zapcore/memory_encoder.go\<close>, \<^verbatim>\<open>zapcore/console_encoder.go\<close>).

  \<^item> \<^verbatim>\<open>Sampler\<close>, \<^verbatim>\<open>Core\<close>, \<^verbatim>\<open>Core_Laws\<close> (the cores of \<^verbatim>\<open>zapcore\<close> and of \<^verbatim>\<open>zaptest/observer\<close>, \<^verbatim>\<open>CheckedEntry\<close>):
    sampling is exact for one caller; with several callers each call is wait-free and returns the number of entries
    counted since the last reset; a core is a tree, and its laws hold for every tree.

  \<^item> \<^verbatim>\<open>Entry_Pool\<close> (\<^verbatim>\<open>zapcore/entry.go\<close>): checked entries as objects that go back to a pool and are handed out again,
    used correctly or not.  An entry is written at most once each time that it is handed out; a later write
    through an old pointer is reported as long as the entry has not been handed out again.

  \<^item> \<^verbatim>\<open>Stacktrace\<close>, \<^verbatim>\<open>Logger\<close>, \<^verbatim>\<open>Sugar\<close> (\<^verbatim>\<open>internal/stacktrace\<close>, \<^verbatim>\<open>logger.go\<close>, \<^verbatim>\<open>options.go\<close>, \<^verbatim>\<open>sugar.go\<close>): how every
    logging call ends; a fatal entry is written and synced before the exit; \<^verbatim>\<open>With\<close> is transparent; sweetening loses
    no argument, and a sugared call is the typed call, its caller and its stack trace included.

  \<^item> \<^verbatim>\<open>Lazy_With\<close> (\<^verbatim>\<open>zapcore/lazy_with.go\<close>, \<^verbatim>\<open>WithLazy\<close> of \<^verbatim>\<open>logger.go\<close>): lazy cores with their \<^verbatim>\<open>sync.Once\<close>, where the values
    of fields may change.  A lazy child is the child that \<^verbatim>\<open>With\<close> would have made at its first use.  Everywhere else the
    values that fields refer to do not change, so that the moment of encoding makes no difference.

  \<^item> \<^verbatim>\<open>Zapio_Writer\<close>, \<^verbatim>\<open>Globals\<close>, \<^verbatim>\<open>Zapgrpc\<close>, \<^verbatim>\<open>Zapslog\<close> (\<^verbatim>\<open>zapio\<close>, \<^verbatim>\<open>global.go\<close>, \<^verbatim>\<open>zapgrpc\<close>, \<^verbatim>\<open>exp/zapslog\<close>): the
    adapters.

  \<^item> \<^verbatim>\<open>Support\<close> (\<^verbatim>\<open>zaptest\<close>, \<^verbatim>\<open>internal/exit\<close>, \<^verbatim>\<open>internal/ztest\<close>, \<^verbatim>\<open>exp/zapfield\<close>, \<^verbatim>\<open>flag.go\<close>, \<^verbatim>\<open>time.go\<close>): what tests use, and small helpers.

  \<^item> \<^verbatim>\<open>Readme\<close> (\<^verbatim>\<open>internal/readme\<close>): the command that makes the tables of benchmarks.  A line of \<^verbatim>\<open>go test\<close> is read
    back, and a table without ties depends neither on the order of a Go map nor on the sorting algorithm.

  \<^bold>\<open>Interfaces.\<close>  The contracts between components are locales, interpreted on the definitions of the component
  that provides them: a sink that records what it is given, a threshold of levels, an encoder with a context (\<^verbatim>\<open>With\<close> adds to what
  \<^verbatim>\<open>EncodeEntry\<close> prints), the format of the JSON encoder, and a factory whose sinks give back what they hold.

  \<^bold>\<open>Loops.\<close>  Recursion is structural or has a termination proof, except for three loops that are partial functions
  and are shown to return: that of \<^verbatim>\<open>bufio.Writer.Write\<close>, for a writer that keeps the contract of
  \<^verbatim>\<open>io.Writer\<close>; that of the mock clock, for positive periods of the tickers; and that of the capture of a stack
  trace, which doubles its storage until the stack fits.  No fuel is used.

  \<^bold>\<open>Not modelled.\<close>  The tags and the unmarshaling of a configuration from JSON or YAML, which those packages do; the
  arithmetic of floats; the platform-specific parts of the standard library.  The remaining files under
  \<^verbatim>\<open>src/\<close> have package comments only.  The memory model is sequentially consistent: a step relation interleaves
  atomic steps, and data that a mutex guards is touched only by its holder.  Integers that count elements of
  a slice in memory do not overflow.  Two goroutines that write one checked entry at the same moment are not
  modelled.
\<close>

section \<open>From logging calls to a buffered sink\<close>

text \<open>A \<^verbatim>\<open>BufferedWriteSyncer\<close> as the syncer of a core: the outside world of the logger is the syncer with its sink.
  A write that does not return has no result; the run of the buffered syncer in the theorem below shows that
  there is none.\<close>

definition bws_syncer where
  "bws_syncer app wr sy es =
     ExtSyncer
       (\<lambda>p (b, s). case BWS_Write wr es p b s of
          Some (r, b', s') \<Rightarrow> (r, (b', s'))
        | None \<Rightarrow> ((0, None), (b, s)))
       (\<lambda>(b, s). case BWS_Sync app wr sy es b s of (e, b', s') \<Rightarrow> (e, (b', s')))"

fun info_all where
  "info_all env log [] w = (Ret (), w)"
| "info_all env log ((msg, fs) # xs) w = then_do (Logger_Info env log msg fs w) (\<lambda>_ w1. info_all env log xs w1)"

text \<open>The JSON line of an info entry at some time.\<close>

definition info_line where
  "info_line G local c call line \<longleftrightarrow>
     (\<exists>t err flds. obj_json G c (addFields local (snd call)) = Some (err, flds)
       \<and> line = print_json False (entry_json G c \<lparr>ent_Level = InfoLevel, ent_Time = t, LoggerName = [], Message = fst call,
           ent_Caller = NewEntryCaller 0 [] 0 False, Stack = []\<rparr> flds) @ LineEnding c)"

lemma info_written:
  assumes "multierr_ok (multierr env)" and "log = new_Logger now stderr (NewCore enc out (level_enabler InfoLevel))"
    and "enc_EncodeEntry (ops env) (new_entry log InfoLevel msg (outside w)) fs enc = Some (Inr line)"
    and "WS_Write (multierr env) out line (outside w) = ((n, None), s1)"
  shows "Logger_Info env log msg fs w = (Ret (), w\<lparr>outside := s1\<rparr>)"
proof -
  let ?ent = "new_entry log InfoLevel msg (outside w)"
  let ?io = "ioCore (level_enabler InfoLevel) enc out"
  have "sint (FatalLevel + 1) = 6"
    by (simp add: FatalLevel_def)
  then have "Logger_check env log InfoLevel msg w
      = (Ret (Some ((AddCore ?ent ?io None)\<lparr>ErrorOutput := Some (errorOutput log)\<rparr>)), w)"
    using assms(2)
    by (simp add: Logger_check_def NewCore_def new_Logger_def set_terminal_def annotate_entry_def new_entry_def
        level_enabler_def Level_Enabled_def AddCore_def ce_or_new_def getCheckedEntry_def level_simps Let_def)
  moreover have "multiCore_Write (multierr env) (ops env) [?io] ?ent fs None w = (Ret None, w\<lparr>outside := s1\<rparr>)"
    using assms(1,3,4) by (simp add: ioCore_Write_def new_entry_def level_simps multierr_left)
  ultimately show ?thesis
    by (simp add: Logger_Info_def Logger_Log_def CheckedEntry_Write_def run_before_def AddCore_def ce_or_new_def
        getCheckedEntry_def Let_def)
qed

lemma encode_info:
  assumes "json_format G c" and "enc = NewJSONEncoder G cf" and "c = cfg enc"
    and "log = new_Logger now stderr core" and "obj_json G c (addFields local fs) \<noteq> None"
  shows "\<exists>line. enc_EncodeEntry (json_ops G local) (new_entry log InfoLevel msg s) fs enc = Some (Inr line)
    \<and> info_line G local c (msg, fs) line"
proof -
  have "has_context c False FNil enc"
    using has_context_new assms(2,3) by (simp add: NewJSONEncoder_def)
  from json_format.encode_entry [OF assms(1) this, of local "new_entry log InfoLevel msg s" fs] show ?thesis
    using assms(4,5)
    by (auto simp: json_ops_def info_line_def caller_panics_def new_entry_def new_Logger_def NewEntryCaller_def
        Buffer_Bytes_def intro!: exI [of _ "now s"] simp del: print_json.simps)
qed

lemma info_line_nonempty: "info_line G local c call line \<Longrightarrow> line \<noteq> []"
  by (auto simp: info_line_def entry_json_def)

text \<open>The calls with the buffered syncer at any moment: each writes its line, and the world is what a run of the
  syncer on the lines makes of it.\<close>

lemma info_all_run:
  assumes "recording_syncer wr chunks sy" and "multierr_ok (multierr env)" and "ops env = json_ops G local"
    and "json_format G c" and "enc = NewJSONEncoder G cf" and "c = cfg enc"
    and "log = new_Logger now stderr (NewCore enc (bws_syncer (multierr env) wr sy es) (level_enabler InfoLevel))"
  shows "list_all (\<lambda>(msg, fs). obj_json G c (addFields local fs) \<noteq> None) xs \<Longrightarrow> outside w = (b, s)
    \<Longrightarrow> batch_rel base N b (chunks s) a
    \<Longrightarrow> \<exists>lines rs b' s'. info_all env log xs w = (Ret (), w\<lparr>outside := (b', s')\<rparr>)
      \<and> list_all2 (info_line G local c) xs lines
      \<and> BWS_run (multierr env) wr sy es (map OpWrite lines) b s = Some (rs, b', s')
      \<and> batch_rel base N b' (chunks s') (fold (batch_op N) (map OpWrite lines) a)"
proof (induction xs arbitrary: w b s a)
  case (Cons x xs)
  obtain msg fs where x: "x = (msg, fs)"
    by fastforce
  obtain line where line: "enc_EncodeEntry (ops env) (new_entry log InfoLevel msg (outside w)) fs enc = Some (Inr line)"
      "info_line G local c x line"
    using encode_info [OF assms(4-7), of local fs msg "outside w"] Cons.prems(1) x assms(3) by auto
  obtain b1 s1 where step: "BWS_Write wr es line b s = Some ((int (length line), None), b1, s1)"
      "batch_rel base N b1 (chunks s1) (batch_op N (OpWrite line) a)"
    using recording_syncer.do_batch [OF assms(1) Cons.prems(3), of "multierr env" es "OpWrite line"]
    by (auto simp del: batch_op.simps)
  have "Logger_Info env log msg fs w = (Ret (), w\<lparr>outside := (b1, s1)\<rparr>)"
    using info_written [OF assms(2,7) line(1)] step(1) Cons.prems(2) by (simp add: bws_syncer_def)
  moreover obtain lines rs b' s' where "info_all env log xs (w\<lparr>outside := (b1, s1)\<rparr>) = (Ret (), w\<lparr>outside := (b', s')\<rparr>)"
      "list_all2 (info_line G local c) xs lines" "BWS_run (multierr env) wr sy es (map OpWrite lines) b1 s1 = Some (rs, b', s')"
      "batch_rel base N b' (chunks s') (fold (batch_op N) (map OpWrite lines) (batch_op N (OpWrite line) a))"
    using Cons.IH [OF _ _ step(2), of "w\<lparr>outside := (b1, s1)\<rparr>"] Cons.prems(1) by (auto simp del: batch_op.simps)
  ultimately have "info_all env log (x # xs) w = (Ret (), w\<lparr>outside := (b', s')\<rparr>)"
      "list_all2 (info_line G local c) (x # xs) (line # lines)"
      "\<exists>rs. BWS_run (multierr env) wr sy es (map OpWrite (line # lines)) b s = Some (rs, b', s')"
      "batch_rel base N b' (chunks s') (fold (batch_op N) (map OpWrite (line # lines)) a)"
    using line(2) step(1) x by (simp_all del: batch_op.simps)
  then show ?case
    by blast
qed auto

text \<open>C1. Lines through a buffered sink.  A logger over the JSON encoder and a \<^verbatim>\<open>BufferedWriteSyncer\<close>, over a sink that
  takes what it is given: all calls of \<^verbatim>\<open>Info\<close> return, and after \<^verbatim>\<open>Sync\<close> the sink has received exactly their JSON
  lines, in the order of the calls, in groups of whole lines.\<close>

theorem buffered_logger_delivers_lines:
  assumes "recording_syncer wr chunks sy" and "0 \<le> interval" and "multierr_ok (multierr env)"
    and "ops env = json_ops G local" and "enc = NewJSONEncoder G cf" and "encoder_contract G (cfg enc)"
    and "log = new_Logger now stderr (NewCore enc (bws_syncer (multierr env) wr sy es) (level_enabler InfoLevel))"
    and "outside w = (new_BufferedWriteSyncer sz interval, s)"
    and "list_all (\<lambda>(msg, fs). obj_json G (cfg enc) (addFields local fs) \<noteq> None) xs"
  shows "\<exists>w1 err w2 groups. info_all env log xs w = (Ret (), w1) \<and> Logger_Sync env log w1 = (Ret err, w2)
    \<and> list_all2 (info_line G local (cfg enc)) xs (concat groups)
    \<and> chunks (snd (outside w2)) = chunks s @ map concat groups"
proof -
  let ?N = "bws_capacity sz"
  have start: "batch_rel (chunks s) ?N (new_BufferedWriteSyncer sz interval) (chunks s) ([], [])"
    using assms(2) by (simp add: batch_rel_def new_BufferedWriteSyncer_def batch_wf_def)
  have format: "json_format G (cfg enc)"
    using assms(6) by unfold_locales
  obtain lines b' s' where run: "info_all env log xs w = (Ret (), w\<lparr>outside := (b', s')\<rparr>)"
      "list_all2 (info_line G local (cfg enc)) xs lines"
      "batch_rel (chunks s) ?N b' (chunks s') (fold (batch_op ?N) (map OpWrite lines) ([], []))"
    using info_all_run [OF assms(1,3,4) format assms(5) refl assms(7,9,8) start] by (elim exE conjE)
  have batch: "batch_flush (fold (batch_op ?N) (map OpWrite lines) ([], [])) = batch_run ?N (map OpWrite lines @ [OpSync])"
    by (simp add: batch_run_def)
  obtain e b'' s'' where sync: "BWS_Sync (multierr env) wr sy es b' s' = (e, b'', s'')"
      "batch_rel (chunks s) ?N b'' (chunks s'') (batch_run ?N (map OpWrite lines @ [OpSync]))" "bw_buf (writer b'') = []"
    using recording_syncer.Sync_batch [OF assms(1) run(3), of "multierr env" es] unfolding batch by (elim exE conjE)
  obtain pending groups where g: "batch_run ?N (map OpWrite lines @ [OpSync]) = (pending, groups)"
    by fastforce
  have "writes_of (map OpWrite lines @ [OpSync]) = lines"
    by (induction lines) simp_all
  then have stream: "concat groups @ pending = lines" and "concat pending = []"
    using batch_run_stream [of ?N "map OpWrite lines @ [OpSync]"] g sync(2,3) by (simp_all add: batch_rel_def)
  moreover have "\<forall>line \<in> set lines. line \<noteq> []"
    using run(2) by (induction rule: list_all2_induct) (auto dest: info_line_nonempty)
  ultimately have "pending = []" and lines: "lines = concat groups"
    by auto
  have "Logger_Sync env log (w\<lparr>outside := (b', s')\<rparr>) = (Ret e, w\<lparr>outside := (b'', s'')\<rparr>)"
    using sync(1) assms(7) by (simp add: Logger_Sync_def new_Logger_def NewCore_def bws_syncer_def)
  moreover have "chunks s'' = chunks s @ map concat groups"
    using sync(2) g by (simp add: batch_rel_def)
  ultimately show ?thesis
    using run(1,2) lines
    by (intro exI [of _ "w\<lparr>outside := (b', s')\<rparr>"] exI [of _ e] exI [of _ "w\<lparr>outside := (b'', s'')\<rparr>"] exI [of _ groups]) simp
qed

definition demo_buffered_logger where
  "demo_buffered_logger = new_Logger demo_clock demo_stream
     (NewCore production_encoder (bws_syncer join_errors TestBuffer_Write TestBuffer_Sync ''short write'') (level_enabler InfoLevel))"

definition demo_buffered_world where
  "demo_buffered_world = \<lparr>outside = (new_BufferedWriteSyncer 64 0, new_TestBuffer), counts = (\<lambda>i. newCounters), observed = (\<lambda>i. [])\<rparr>"

theorem buffered_logger_delivers_lines_witness:
  "\<exists>w1 err w2 groups. info_all demo_env demo_buffered_logger [(''a'', []), (''b'', [])] demo_buffered_world = (Ret (), w1)
    \<and> Logger_Sync demo_env demo_buffered_logger w1 = (Ret err, w2)
    \<and> length (concat groups) = 2 \<and> tb_writes (snd (outside w2)) = map concat groups"
proof -
  have env: "multierr_ok (multierr demo_env)" "ops demo_env = json_ops plain_std ()"
    by (simp_all add: demo_env_def)
  have log: "demo_buffered_logger = new_Logger demo_clock demo_stream (NewCore production_encoder
      (bws_syncer (multierr demo_env) TestBuffer_Write TestBuffer_Sync ''short write'') (level_enabler InfoLevel))"
    by (simp add: demo_buffered_logger_def demo_env_def)
  have w: "outside demo_buffered_world = (new_BufferedWriteSyncer 64 0, new_TestBuffer)"
    by (simp add: demo_buffered_world_def)
  have "list_all (\<lambda>(msg, fs). obj_json plain_std (cfg production_encoder) (addFields () fs) \<noteq> None) [(''a'', []), (''b'', [])]"
    by simp
  from buffered_logger_delivers_lines [OF buffer_syncer.recording_syncer_axioms order_refl env production_encoder_def production.contract
      log w this]
  obtain w1 err w2 groups where
      "info_all demo_env demo_buffered_logger [(''a'', []), (''b'', [])] demo_buffered_world = (Ret (), w1)"
      "Logger_Sync demo_env demo_buffered_logger w1 = (Ret err, w2)"
      "list_all2 (info_line plain_std () (cfg production_encoder)) [(''a'', []), (''b'', [])] (concat groups)"
      "tb_writes (snd (outside w2)) = tb_writes (new_TestBuffer :: bytes TestBuffer) @ map concat groups"
    by (elim exE conjE) (rule that)
  moreover from this(3) have "length (concat groups) = 2"
    by (auto dest: list_all2_lengthD)
  ultimately show ?thesis
    by (intro exI [of _ w1] exI [of _ err] exI [of _ w2] exI [of _ groups]) (simp add: new_TestBuffer_def del: info_all.simps)
qed

end
